(* ===== verification/Prelude.thy ===== *)
theory Prelude
  imports Main "HOL-Library.Word" "HOL-Library.Signed_Division"
begin

text \<open>
  Shared vocabulary of the development: the C integer types of \<open>libc.h\<close> and
  \<open>s390-ccw.h\<close> as machine words, big-endian byte strings (s390 is big endian, so a
  multi-byte field of a packed struct is a most-significant-first run of bytes),
  C strings as byte lists, and the list and word lemmas every component uses.
\<close>

unbundle bit_operations_syntax

section \<open>Integer types\<close>

type_synonym u8 = "8 word"
type_synonym u16 = "16 word"
type_synonym u32 = "32 word"
type_synonym u64 = "64 word"

text \<open>
  A C \<open>int\<close> is a 32-bit word read as two's complement. The firmware is built with
  \<open>-fwrapv\<close>, so signed overflow wraps; \<open>(u64) i\<close> of an \<open>int\<close> is sign extension.
\<close>

type_synonym s32 = "32 word"

abbreviation int_to_u64 :: "s32 \<Rightarrow> u64" where
  "int_to_u64 i \<equiv> scast i"

text \<open>Division of two \<open>int\<close>s truncates towards zero.\<close>

definition s32_div :: "s32 \<Rightarrow> s32 \<Rightarrow> s32" where
  "s32_div a b = word_of_int (sint a sdiv sint b)"

section \<open>Big-endian numbers\<close>

fun be_nat :: "u8 list \<Rightarrow> nat" where
  "be_nat [] = 0"
| "be_nat (b # bs) = unat b * 256 ^ length bs + be_nat bs"

definition be :: "u8 list \<Rightarrow> 'a::len word" where
  "be bs = word_of_nat (be_nat bs)"

fun nat_be :: "nat \<Rightarrow> nat \<Rightarrow> u8 list" where
  "nat_be 0 k = []"
| "nat_be (Suc n) k = word_of_nat (k div 256 ^ n) # nat_be n k"

definition to_be :: "nat \<Rightarrow> 'a::len word \<Rightarrow> u8 list" where
  "to_be n w = nat_be n (unat w)"

lemma be_nat_bound: "be_nat bs < 256 ^ length bs"
proof (induction bs)
  case (Cons b bs)
  have "Suc (unat b) \<le> 256" using unsigned_less [of b, where ?'a = nat] by simp
  then have "Suc (unat b) * 256 ^ length bs \<le> 256 * 256 ^ length bs"
    by (rule mult_right_mono) simp
  then have "unat b * 256 ^ length bs + 256 ^ length bs \<le> 256 * 256 ^ length bs"
    by simp
  with Cons.IH show ?case unfolding be_nat.simps length_Cons power_Suc by linarith
qed simp

lemma be_nat_append: "be_nat (xs @ ys) = be_nat xs * 256 ^ length ys + be_nat ys"
  by (induction xs) (simp_all add: power_add algebra_simps)

lemma length_nat_be [simp]: "length (nat_be n k) = n"
  by (induction n) auto

lemma length_to_be [simp]: "length (to_be n w) = n"
  by (simp add: to_be_def)

lemma be_nat_nat_be: "be_nat (nat_be n k) = k mod 256 ^ n"
proof (induction n)
  case (Suc n)
  have "k mod (256 ^ n * 256) = 256 ^ n * (k div 256 ^ n mod 256) + k mod 256 ^ n"
    by (rule mod_mult2_eq)
  with Suc show ?case
    by (simp add: unat_of_nat take_bit_eq_mod algebra_simps)
qed simp

lemma nat_be_add: "nat_be n (k + j * 256 ^ n) = nat_be n k"
proof (induction n arbitrary: k j)
  case (Suc n)
  have "(k + j * 256 ^ Suc n) div 256 ^ n = k div 256 ^ n + j * 256"
    using div_mult_self1 [of "256 ^ n" k "j * 256"] by (simp add: algebra_simps)
  moreover have "(word_of_nat (k div 256 ^ n + j * 256) :: u8) = word_of_nat (k div 256 ^ n)"
    by (simp only: word_of_nat_eq_iff take_bit_eq_mod) simp
  moreover have "nat_be n (k + j * 256 ^ Suc n) = nat_be n k"
    using Suc.IH [of k "j * 256"] by (simp add: algebra_simps)
  ultimately show ?case by simp
qed simp

lemma nat_be_numeral [simp]:
  "nat_be (numeral v) k = word_of_nat (k div 256 ^ pred_numeral v) # nat_be (pred_numeral v) k"
  by (simp add: numeral_eq_Suc)

lemma nat_be_be_nat: "nat_be (length bs) (be_nat bs) = bs"
proof (induction bs)
  case (Cons b bs)
  have lt: "be_nat bs < 256 ^ length bs" by (rule be_nat_bound)
  have "nat_be (length bs) (be_nat bs + unat b * 256 ^ length bs) = bs"
    by (simp only: nat_be_add Cons.IH)
  with lt show ?case by (simp add: algebra_simps)
qed simp

lemma to_be_be: "length bs * 8 \<le> LENGTH('a::len) \<Longrightarrow> to_be (length bs) (be bs :: 'a word) = bs"
proof -
  assume "length bs * 8 \<le> LENGTH('a)"
  then have "(256::nat) ^ length bs \<le> 2 ^ LENGTH('a)"
    using power_increasing [of "length bs * 8" "LENGTH('a)" "2::nat"]
    by (simp add: power_mult mult.commute [of _ 8])
  then have "unat (be bs :: 'a word) = be_nat bs"
    using be_nat_bound [of bs] unfolding be_def unat_of_nat
    by (simp add: take_bit_eq_mod)
  then show ?thesis by (simp add: to_be_def nat_be_be_nat)
qed

lemma be_to_be: "LENGTH('a::len) \<le> n * 8 \<Longrightarrow> be (to_be n (w :: 'a word)) = w"
proof -
  assume "LENGTH('a) \<le> n * 8"
  then have "(2::nat) ^ LENGTH('a) \<le> 256 ^ n"
    using power_increasing [of "LENGTH('a)" "n * 8" "2::nat"]
    by (simp add: power_mult mult.commute [of _ 8])
  then have "unat w < 256 ^ n"
    using unsigned_less [of w, where ?'a = nat] by linarith
  then show ?thesis
    by (simp add: be_def to_be_def be_nat_nat_be)
qed

lemma be_to_be_16 [simp]: "be (to_be 2 (w :: u16)) = w"
  by (rule be_to_be) simp

lemma be_to_be_32 [simp]: "be (to_be 4 (w :: u32)) = w"
  by (rule be_to_be) simp

lemma be_to_be_64 [simp]: "be (to_be 8 (w :: u64)) = w"
  by (rule be_to_be) simp

lemma sint_nonneg:
  fixes i :: s32
  assumes "0 \<le> sint i"
  shows "sint i = int (unat i)"
proof -
  have "\<not> bit (uint i) 31" using assms by (simp add: sint_uint)
  then have "even (uint i div 2 ^ 31)" by (simp add: bit_iff_odd)
  moreover have "uint i div 2 ^ 31 < 2" "0 \<le> uint i div 2 ^ 31"
    using unsigned_less [of i, where ?'a = int] by (auto simp: pos_imp_zdiv_nonneg_iff)
  moreover have "k = 0" if "even k" "k < 2" "0 \<le> k" for k :: int
    using that by presburger
  ultimately have "uint i div 2 ^ 31 = 0" by blast
  then have "uint i < 2 ^ 31" by (simp add: div_eq_0_iff) 
  then show ?thesis using sint_uint [of i] signed_take_bit_int_eq_self [of 31 "uint i"]
    by (simp add: order_trans [of _ 0])
qed

lemma sint_small:
  fixes w :: s32
  assumes "unat w < 2 ^ 31"
  shows "sint w = int (unat w)"
proof -
  have "int (unat w) < int (2 ^ 31)" using assms by (simp only: of_nat_less_iff)
  then have "uint w < 2 ^ 31" by simp
  then show ?thesis
    using sint_uint [of w] signed_take_bit_int_eq_self [of 31 "uint w"] by (simp add: order_trans [of _ 0])
qed

lemma scast_small:
  fixes w :: s32
  assumes "unat w < 2 ^ 31"
  shows "int_to_u64 w = word_of_nat (unat w)"
proof -
  have "int (unat w) < int (2 ^ 31)" using assms by (simp only: of_nat_less_iff)
  then have "uint w < 2 ^ 31" by simp
  then have "sint w = uint w"
    using sint_uint [of w] signed_take_bit_int_eq_self [of 31 "uint w"] by (simp add: order_trans [of _ 0])
  then show ?thesis by (simp add: signed_def)
qed

section \<open>Lists\<close>

definition slice :: "nat \<Rightarrow> nat \<Rightarrow> 'a list \<Rightarrow> 'a list" where
  "slice off n xs = take n (drop off xs)"

definition splice :: "nat \<Rightarrow> 'a list \<Rightarrow> 'a list \<Rightarrow> 'a list" where
  "splice off ys xs = take off xs @ ys @ drop (off + length ys) xs"

lemma length_slice [simp]: "off + n \<le> length xs \<Longrightarrow> length (slice off n xs) = n"
  by (simp add: slice_def)

lemma length_splice [simp]: "off + length ys \<le> length xs \<Longrightarrow> length (splice off ys xs) = length xs"
  by (simp add: splice_def)

lemma slice_splice_same [simp]:
  "off + length ys \<le> length xs \<Longrightarrow> n = length ys \<Longrightarrow> slice off n (splice off ys xs) = ys"
  by (simp add: slice_def splice_def)

lemma nth_splice:
  "off + length ys \<le> length xs \<Longrightarrow> i < length xs \<Longrightarrow>
     splice off ys xs ! i = (if off \<le> i \<and> i < off + length ys then ys ! (i - off) else xs ! i)"
  by (auto simp: splice_def nth_append min_def)

lemma nth_slice: "off + n \<le> length xs \<Longrightarrow> i < n \<Longrightarrow> slice off n xs ! i = xs ! (off + i)"
  by (simp add: slice_def)

lemma slice_splice_other:
  assumes "off + length ys \<le> length xs" "off' + n \<le> length xs"
    and "off' + n \<le> off \<or> off + length ys \<le> off'"
  shows "slice off' n (splice off ys xs) = slice off' n xs"
  using assms by (intro nth_equalityI) (auto simp: nth_slice nth_splice)

lemma splice_whole [simp]: "length ys = length xs \<Longrightarrow> splice 0 ys xs = ys"
  by (simp add: splice_def)

lemma slice_whole [simp]: "slice 0 (length xs) xs = xs"
  by (simp add: slice_def)

lemma splice_append:
  "off + length xs + length ys \<le> length zs \<Longrightarrow>
     splice (off + length xs) ys (splice off xs zs) = splice off (xs @ ys) zs"
  by (rule nth_equalityI) (auto simp: nth_splice nth_append)

lemma splice_nil [simp]: "off \<le> length zs \<Longrightarrow> splice off [] zs = zs"
  by (simp add: splice_def)

lemma splice_splice_same:
  "length x = length y \<Longrightarrow> off + length y \<le> length zs \<Longrightarrow> splice off x (splice off y zs) = splice off x zs"
  by (rule nth_equalityI) (auto simp: nth_splice)

lemma list_update_splice: "i < length xs \<Longrightarrow> xs[i := x] = splice i [x] xs"
  by (simp add: splice_def upd_conv_take_nth_drop)

text \<open>
  What a device leaves in a block of memory it was given: it may rewrite the bytes, not the
  extent of the block.
\<close>

definition overlay :: "'a list \<Rightarrow> 'a list \<Rightarrow> 'a list" where
  "overlay new old = take (length old) new @ drop (length new) old"

lemma length_overlay [simp]: "length (overlay new old) = length old"
  by (simp add: overlay_def)

lemma overlay_same_length [simp]: "length new = length old \<Longrightarrow> overlay new old = new"
  by (simp add: overlay_def)

section \<open>C strings\<close>

text \<open>
  A C string literal is its list of bytes, without the terminating NUL; \<open>c_str\<close> is the
  string at the start of a byte array: the bytes before the first NUL.
\<close>

definition lit :: "string \<Rightarrow> u8 list" where
  "lit s = map (\<lambda>c. word_of_nat (of_char c)) s"

definition c_str :: "u8 list \<Rightarrow> u8 list" where
  "c_str bs = takeWhile (\<lambda>b. b \<noteq> 0) bs"

lemma length_lit [simp]: "length (lit s) = length s"
  by (simp add: lit_def)

lemma length_c_str_le: "length (c_str bs) \<le> length bs"
  by (simp add: c_str_def length_takeWhile_le)

lemma c_str_nonzero: "b \<in> set (c_str bs) \<Longrightarrow> b \<noteq> 0"
  by (auto simp: c_str_def dest: set_takeWhileD)

lemma c_str_append_nul [simp]: "0 \<notin> set bs \<Longrightarrow> c_str (bs @ 0 # xs) = bs"
  by (induction bs) (auto simp: c_str_def)

lemma c_str_id [simp]: "0 \<notin> set bs \<Longrightarrow> c_str bs = bs"
  by (auto simp: c_str_def takeWhile_eq_all_conv)

section \<open>Numberings\<close>

text \<open>A numbering of valid addresses: what a decoder takes back is told apart by the encoder.\<close>

locale coding =
  fixes enc :: "'a \<Rightarrow> 'b" and dec :: "'b \<Rightarrow> 'a" and valid :: "'a \<Rightarrow> bool"
  assumes dec_enc: "valid x \<Longrightarrow> dec (enc x) = x"
begin

lemma enc_inject: "valid x \<Longrightarrow> valid y \<Longrightarrow> enc x = enc y \<longleftrightarrow> x = y"
  using dec_enc by metis

lemma enc_distinct: "distinct (map enc xs) \<longleftrightarrow> distinct xs" if "list_all valid xs"
  using that by (induction xs) (auto simp: enc_inject list_all_iff)

end

interpretation be_code: coding "to_be n :: 'a::len word \<Rightarrow> u8 list" be "\<lambda>_. LENGTH('a) \<le> n * 8" for n
  by unfold_locales (rule be_to_be)

end
