(* ===== verification/Machine.thy ===== *)
theory Machine
  imports Prelude
begin

text \<open>
  The machine the boot loader runs on: its global variables and buffers, the guest's
  absolute storage, and the hardware (the CPU's I/O instructions, the service processor,
  the hypervisor) as the record \<open>hw\<close> of functions that the model takes as a parameter.

  A C pointer is symbolic: an absolute storage address (\<open>Phys\<close>), an offset into one of
  the loader's data buffers (\<open>Buf\<close>), or into one of the request blocks the drivers build
  for a device (\<open>Scr\<close>). An access that leaves its buffer, and a division by zero, stop the
  run with \<open>Bad\<close>; C leaves them undefined.

  A computation maps a state to \<open>None\<close> (it loops for ever), or to a result and a state:
  \<open>Ret\<close> of the value returned, or \<open>Stop\<close> where control does not come back to the caller:
  \<open>Halt\<close> is \<open>panic\<close> (the message, then a disabled wait), \<open>NormalReset\<close> is the diagnose
  call with which \<open>jump_to_IPL_code\<close> hands the machine over to the loaded system.
\<close>

section \<open>Pointers and buffers\<close>

datatype buf = Sec | Bprs | S2 | TmpSec | VConfig | VSenseId
  | LunData | InqStd | EvpdPages | EvpdBl | CapData | PrefixPage | CfgBuf

datatype scr = OutHdr | BlkStatus | ScsiReq | ScsiResp | Sccb
  | FeatDesc | VqInfoBlk | VqConfigBlk | StatusByte | SenseIdBlk | SenseBlk | ChscPage | TxHdr

datatype ptr = Phys u64 | Buf buf nat | Scr scr nat

fun buf_size :: "buf \<Rightarrow> nat" where
  "buf_size Sec = 16384"
| "buf_size Bprs = 8192"
| "buf_size S2 = 12288"
| "buf_size TmpSec = 4096"
| "buf_size VConfig = 36"
| "buf_size VSenseId = 256"
| "buf_size LunData = 520"
| "buf_size InqStd = 256"
| "buf_size EvpdPages = 32"
| "buf_size EvpdBl = 64"
| "buf_size CapData = 256"
| "buf_size PrefixPage = 8192"
| "buf_size CfgBuf = 2048"

fun scr_size :: "scr \<Rightarrow> nat" where
  "scr_size OutHdr = 16"
| "scr_size BlkStatus = 1"
| "scr_size ScsiReq = 51"
| "scr_size ScsiResp = 108"
| "scr_size Sccb = 4096"
| "scr_size FeatDesc = 5"
| "scr_size VqInfoBlk = 16"
| "scr_size VqConfigBlk = 4"
| "scr_size StatusByte = 1"
| "scr_size SenseIdBlk = 256"
| "scr_size SenseBlk = 32"
| "scr_size ChscPage = 4096"
| "scr_size TxHdr = 10"

fun ptr_add :: "ptr \<Rightarrow> nat \<Rightarrow> ptr" where
  "ptr_add (Phys a) n = Phys (a + word_of_nat n)"
| "ptr_add (Buf b i) n = Buf b (i + n)"
| "ptr_add (Scr b i) n = Scr b (i + n)"

section \<open>Channel subsystem structures (cio.h)\<close>

record schid =
  cssid :: u8
  sch_m :: bool
  ssid :: "2 word"
  sch_one :: bool
  sch_no :: u16

text \<open>The 16 bits \<open>sch_id\<close> of the union: the bit fields, most significant first.\<close>

definition sch_id :: "schid \<Rightarrow> u16" where
  "sch_id i = push_bit 8 (ucast (cssid i)) OR push_bit 3 (of_bool (sch_m i))
     OR push_bit 1 (ucast (ssid i)) OR of_bool (sch_one i)"

record pmcw =
  ena :: bool
  dnv :: bool
  pmcw_dev :: u16

record schib =
  schib_pmcw :: pmcw

record scsw =
  ctrl :: u16
  scsw_cpa :: u32
  dstat :: u8
  cstat :: u8

record irb =
  irb_scsw :: scsw

text \<open>A format-1 channel command word; its data address is a pointer of the model.\<close>

record ccw1 =
  cmd_code :: u8
  ccw_flags :: u8
  ccw_count :: u16
  cda :: ptr

text \<open>
  The channel program address of an operation request block: the address of a format-1
  CCW the caller holds in a local variable, or an absolute address.
\<close>

datatype cpa = Ccw1At ccw1 | CcwAddr u32

record cmd_orb =
  orb_fmt :: nat
  orb_pfch :: bool
  orb_c64 :: bool
  orb_lpm :: u8
  orb_cpa :: cpa

section \<open>Virtio structures (virtio.h)\<close>

record vring_desc =
  d_addr :: ptr
  d_len :: u32
  d_flags :: u16
  d_next :: u16

text \<open>The part of a ring that lies in \<open>ring_area\<close>, shared with the host.\<close>

record ring_mem =
  rm_desc :: "vring_desc list"
  avail_flags :: u16
  avail_idx :: u16
  avail_ring :: "u16 list"
  used_flags :: u16
  used_idx :: u16
  used_ring :: "(u32 \<times> u32) list"

text \<open>The driver's own \<open>VRing\<close>; the three pointers are the addresses of the shared parts.\<close>

record vring =
  vr_num :: u32
  next_idx :: s32
  vr_used_idx :: s32
  vr_desc :: u64
  vr_avail :: u64
  vr_used :: u64
  vr_schid :: schid
  vr_cookie :: u64
  vr_id :: s32

datatype gdn = GDN_NONE | GDN_DASD | GDN_CDROM | GDN_SCSI

record scsi_device =
  sd_channel :: u16
  sd_target :: u16
  sd_lun :: u32

record vdev =
  nr_vqs :: nat
  cmd_vr_idx :: nat
  wait_reply_timeout :: u64
  guessed_disk_nature :: gdn
  vd_schid :: schid
  is_cdrom :: bool
  scsi_block_size :: s32
  blk_factor :: s32
  scsi_last_block :: u64
  scsi_dev :: scsi_device
  scsi_device_selected :: bool
  selected_scsi_device :: scsi_device
  netboot_start_addr :: u64
  max_transfer :: u32
  guest_features :: "u32 list"

section \<open>Boot parameters (iplb.h)\<close>

datatype ipl_type = IPL_CCW | IPL_QEMU_SCSI | IPL_OTHER u8

record iplb =
  pbt :: ipl_type
  iplb_ssid :: u8
  iplb_devno :: u16
  iplb_lun :: u32
  iplb_target :: u16
  iplb_channel :: u16

record qipl =
  qipl_flags :: u8
  qipl_netboot_start_addr :: u64
  boot_menu_timeout :: u32

section \<open>The state\<close>

record 'd io =
  dev :: 'd
  scr :: "scr \<Rightarrow> u8 list"
  rmem :: "ring_mem list"
  vrings :: "vring list"

record 'd machine =
  mem :: "u64 \<Rightarrow> u8"
  bufs :: "buf \<Rightarrow> u8 list"
  vd :: vdev
  menu_flag :: u8
  menu_timeout :: u64
  loadparm_str :: "u8 list"
  the_iplb :: iplb
  the_qipl :: qipl
  have_iplb :: bool
  the_cutype :: u16
  blk_schid :: schid
  save_psw :: u64
  ipl_continue :: u64
  io :: "'d io"

text \<open>What the hardware sees of the state when an instruction hands control to it.\<close>

record 'd plat =
  p_mem :: "u64 \<Rightarrow> u8"
  p_bufs :: "buf \<Rightarrow> u8 list"
  p_scr :: "scr \<Rightarrow> u8 list"
  p_rmem :: "ring_mem list"
  p_dev :: 'd

text \<open>
  The hardware: inline assembly and \<open>start.S\<close>. Each instruction returns its condition code.
  \<open>servc\<close> is the service call together with \<open>consume_sclp_int\<close>. \<open>junk n\<close> is what an
  uninitialised local array of \<open>n\<close> bytes holds, \<open>ring_area\<close> and \<open>iplb_addr\<close> the
  addresses of these objects; \<open>set_prefix b\<close> makes \<open>prefix_page\<close> (or page 0) the prefix area.
\<close>

record 'd hw =
  stck :: "'d \<Rightarrow> u64 \<times> 'd"
  servc :: "u32 \<Rightarrow> u8 list \<Rightarrow> 'd \<Rightarrow> nat \<times> u8 list \<times> 'd"
  ext_int_code :: "'d \<Rightarrow> u16 \<times> 'd"
  sckc :: "u64 \<Rightarrow> 'd \<Rightarrow> unit \<times> 'd"
  clock_int :: "bool \<Rightarrow> 'd \<Rightarrow> unit \<times> 'd"
  stsch :: "schid \<Rightarrow> 'd \<Rightarrow> (int \<times> schib) \<times> 'd"
  msch :: "schid \<Rightarrow> schib \<Rightarrow> 'd \<Rightarrow> int \<times> 'd"
  ssch :: "schid \<Rightarrow> cmd_orb \<Rightarrow> 'd plat \<Rightarrow> int \<times> 'd plat"
  tsch :: "schid \<Rightarrow> 'd plat \<Rightarrow> (int \<times> irb) \<times> 'd plat"
  consume_io_int :: "'d plat \<Rightarrow> unit \<times> 'd plat"
  yield_cpu :: "'d plat \<Rightarrow> unit \<times> 'd plat"
  hypercall :: "u64 \<Rightarrow> u64 \<Rightarrow> u64 \<Rightarrow> u64 \<Rightarrow> 'd plat \<Rightarrow> u64 \<times> 'd plat"
  set_iplb :: "iplb \<Rightarrow> 'd \<Rightarrow> bool \<times> 'd"
  store_iplb :: "'d \<Rightarrow> (bool \<times> iplb) \<times> 'd"
  chsc :: "u8 list \<Rightarrow> 'd \<Rightarrow> int \<times> u8 list \<times> 'd"
  psw_entry :: u64
  junk :: "nat \<Rightarrow> u8 list"
  ring_area :: u64
  iplb_addr :: u32
  set_prefix :: "bool \<Rightarrow> 'd \<Rightarrow> unit \<times> 'd"

section \<open>Computations\<close>

datatype exit = Halt "u8 list" | NormalReset | Bad string

datatype 'a result = Ret 'a | Stop exit

type_synonym ('d, 'a) fw = "'d machine \<Rightarrow> ('a result \<times> 'd machine) option"

definition ret :: "'a \<Rightarrow> ('d, 'a) fw" where
  "ret x s = Some (Ret x, s)"

definition stop :: "exit \<Rightarrow> ('d, 'a) fw" where
  "stop e s = Some (Stop e, s)"

definition bnd :: "('d, 'a) fw \<Rightarrow> ('a \<Rightarrow> ('d, 'b) fw) \<Rightarrow> ('d, 'b) fw" where
  "bnd m f s = (case m s of
     None \<Rightarrow> None
   | Some (r, s') \<Rightarrow> (case r of Ret x \<Rightarrow> f x s' | Stop e \<Rightarrow> Some (Stop e, s')))"

abbreviation seq :: "('d, 'a) fw \<Rightarrow> ('d, 'b) fw \<Rightarrow> ('d, 'b) fw" where
  "seq m n \<equiv> bnd m (\<lambda>_. n)"

definition whenM :: "bool \<Rightarrow> ('d, unit) fw \<Rightarrow> ('d, unit) fw" where
  "whenM b m = (if b then m else ret ())"

definition gets :: "('d machine \<Rightarrow> 'a) \<Rightarrow> ('d, 'a) fw" where
  "gets f s = Some (Ret (f s), s)"

definition modify :: "('d machine \<Rightarrow> 'd machine) \<Rightarrow> ('d, unit) fw" where
  "modify f s = Some (Ret (), f s)"

definition to_plat :: "'d machine \<Rightarrow> 'd plat" where
  "to_plat s = \<lparr>p_mem = mem s, p_bufs = bufs s, p_scr = scr (io s), p_rmem = rmem (io s),
     p_dev = dev (io s)\<rparr>"

text \<open>The hardware may rewrite every byte it can address, not the extent of a buffer.\<close>

definition from_plat :: "'d plat \<Rightarrow> 'd machine \<Rightarrow> 'd machine" where
  "from_plat p s = s\<lparr>mem := p_mem p, bufs := (\<lambda>b. overlay (p_bufs p b) (bufs s b)),
     io := (io s)\<lparr>scr := (\<lambda>b. overlay (p_scr p b) (scr (io s) b)), rmem := p_rmem p, dev := p_dev p\<rparr>\<rparr>"

definition plat_op :: "('d plat \<Rightarrow> 'a \<times> 'd plat) \<Rightarrow> ('d, 'a) fw" where
  "plat_op f s = (case f (to_plat s) of (x, p) \<Rightarrow> Some (Ret x, from_plat p s))"

definition dev_op :: "('d \<Rightarrow> 'a \<times> 'd) \<Rightarrow> ('d, 'a) fw" where
  "dev_op f s = (case f (dev (io s)) of (x, d) \<Rightarrow> Some (Ret x, s\<lparr>io := (io s)\<lparr>dev := d\<rparr>\<rparr>))"

section \<open>Memory access\<close>

definition mem_get :: "(u64 \<Rightarrow> u8) \<Rightarrow> u64 \<Rightarrow> nat \<Rightarrow> u8 list" where
  "mem_get m a n = map (\<lambda>i. m (a + word_of_nat i)) [0..<n]"

definition mem_put :: "u64 \<Rightarrow> u8 list \<Rightarrow> (u64 \<Rightarrow> u8) \<Rightarrow> (u64 \<Rightarrow> u8)" where
  "mem_put a bs m x = (if unat (x - a) < length bs then bs ! unat (x - a) else m x)"

fun load :: "ptr \<Rightarrow> nat \<Rightarrow> ('d, u8 list) fw" where
  "load (Phys a) n s = Some (Ret (mem_get (mem s) a n), s)"
| "load (Buf b i) n s =
     (if i + n \<le> length (bufs s b) then Some (Ret (slice i n (bufs s b)), s)
      else Some (Stop (Bad ''buffer read''), s))"
| "load (Scr b i) n s =
     (if i + n \<le> length (scr (io s) b) then Some (Ret (slice i n (scr (io s) b)), s)
      else Some (Stop (Bad ''buffer read''), s))"

fun store :: "ptr \<Rightarrow> u8 list \<Rightarrow> ('d, unit) fw" where
  "store (Phys a) bs s = Some (Ret (), s\<lparr>mem := mem_put a bs (mem s)\<rparr>)"
| "store (Buf b i) bs s =
     (if i + length bs \<le> length (bufs s b)
      then Some (Ret (), s\<lparr>bufs := (bufs s)(b := splice i bs (bufs s b))\<rparr>)
      else Some (Stop (Bad ''buffer write''), s))"
| "store (Scr b i) bs s =
     (if i + length bs \<le> length (scr (io s) b)
      then Some (Ret (), s\<lparr>io := (io s)\<lparr>scr := (scr (io s))(b := splice i bs (scr (io s) b))\<rparr>\<rparr>)
      else Some (Stop (Bad ''buffer write''), s))"

definition load_u8 :: "ptr \<Rightarrow> ('d, u8) fw" where
  "load_u8 p = bnd (load p 1) (\<lambda>bs. ret (hd bs))"

definition load_u16 :: "ptr \<Rightarrow> ('d, u16) fw" where
  "load_u16 p = bnd (load p 2) (\<lambda>bs. ret (be bs))"

definition load_u32 :: "ptr \<Rightarrow> ('d, u32) fw" where
  "load_u32 p = bnd (load p 4) (\<lambda>bs. ret (be bs))"

definition load_u64 :: "ptr \<Rightarrow> ('d, u64) fw" where
  "load_u64 p = bnd (load p 8) (\<lambda>bs. ret (be bs))"

text \<open>\<open>memset\<close> and \<open>memcpy\<close> of \<open>libc.h\<close> on the model's memory.\<close>

definition memset :: "ptr \<Rightarrow> u8 \<Rightarrow> nat \<Rightarrow> ('d, unit) fw" where
  "memset p c n = store p (replicate n c)"

definition memcpy :: "ptr \<Rightarrow> ptr \<Rightarrow> nat \<Rightarrow> ('d, unit) fw" where
  "memcpy d p n = bnd (load p n) (store d)"

section \<open>Rules of the sequencing operator\<close>

named_theorems fw_simps \<open>unfolding the basic computations\<close>

lemma bnd_Ret: "m s = Some (Ret x, s') \<Longrightarrow> bnd m f s = f x s'"
  by (simp add: bnd_def)

lemma bnd_Stop: "m s = Some (Stop e, s') \<Longrightarrow> bnd m f s = Some (Stop e, s')"
  by (simp add: bnd_def)

lemma bnd_None: "m s = None \<Longrightarrow> bnd m f s = None"
  by (simp add: bnd_def)

lemma bnd_assoc: "bnd (bnd m f) g s = bnd m (\<lambda>x. bnd (f x) g) s"
  by (simp add: bnd_def split: option.splits prod.splits result.splits)

lemma bnd_ret [simp, fw_simps]: "bnd (ret x) f s = f x s"
  by (simp add: bnd_def ret_def)

lemma bnd_gets [simp, fw_simps]: "bnd (gets g) f s = f (g s) s"
  by (simp add: bnd_def gets_def)

lemma bnd_modify [simp, fw_simps]: "bnd (modify g) f s = f () (g s)"
  by (simp add: bnd_def modify_def)

lemma bnd_stop [simp, fw_simps]: "bnd (stop e) f s = stop e s"
  by (simp add: bnd_def stop_def)

lemma bnd_whenM [simp, fw_simps]: "bnd (whenM b m) f s = (if b then bnd m f s else f () s)"
  by (simp add: whenM_def)

lemma whenM_simps [simp]: "whenM True m = m" "whenM False m = ret ()"
  by (simp_all add: whenM_def)

lemma bnd_if: "bnd (if b then m else n) f s = (if b then bnd m f s else bnd n f s)"
  by simp

lemma bnd_cases:
  assumes "bnd m f s = Some (r, t)"
  obtains (ret) x s' where "m s = Some (Ret x, s')" "f x s' = Some (r, t)"
  | (stop) e where "m s = Some (Stop e, t)" "r = Stop e"
  using assms by (auto simp: bnd_def split: option.splits result.splits prod.splits)

lemma bnd_eq_Ret:
  "bnd m f s = Some (Ret y, t) \<longleftrightarrow>
     (\<exists>x s'. m s = Some (Ret x, s') \<and> f x s' = Some (Ret y, t))"
  by (auto simp: bnd_def split: option.splits result.splits prod.splits)

lemma ret_eq [simp, fw_simps]: "ret x s = Some (r, t) \<longleftrightarrow> r = Ret x \<and> t = s"
  by (auto simp: ret_def)

lemma stop_eq [simp, fw_simps]: "stop e s = Some (r, t) \<longleftrightarrow> r = Stop e \<and> t = s"
  by (auto simp: stop_def)

lemma gets_eq [simp, fw_simps]: "gets f s = Some (r, t) \<longleftrightarrow> r = Ret (f s) \<and> t = s"
  by (auto simp: gets_def)

lemma modify_eq [simp, fw_simps]: "modify f s = Some (r, t) \<longleftrightarrow> r = Ret () \<and> t = f s"
  by (auto simp: modify_def)

lemma plat_op_eq: "plat_op f s = Some (Ret (fst (f (to_plat s))), from_plat (snd (f (to_plat s))) s)"
  by (simp add: plat_op_def split: prod.splits)

lemma from_to_plat [simp]: "from_plat (to_plat s) s = s"
  by (simp add: from_plat_def to_plat_def)

lemma dev_op_eq:
  "dev_op f s = Some (Ret (fst (f (dev (io s)))), s\<lparr>io := (io s)\<lparr>dev := snd (f (dev (io s)))\<rparr>\<rparr>)"
  by (simp add: dev_op_def split: prod.splits)

lemma seq_stop [simp]: "bnd (stop e) f = stop e"
  by (rule ext) (simp add: stop_def)

lemma bnd_assoc_fun: "bnd (bnd m f) g = bnd m (\<lambda>x. bnd (f x) g)"
  by (rule ext) (rule bnd_assoc)

lemma bnd_plat_op: "bnd (plat_op f) g s = g (fst (f (to_plat s))) (from_plat (snd (f (to_plat s))) s)"
  by (simp add: bnd_def plat_op_eq)

lemma bnd_dev_op:
  "bnd (dev_op f) g s = g (fst (f (dev (io s)))) (s\<lparr>io := (io s)\<lparr>dev := snd (f (dev (io s)))\<rparr>\<rparr>)"
  by (simp add: bnd_def dev_op_eq)

text \<open>Running a program: flatten the sequence, then step.\<close>

lemmas run_simps = bnd_assoc bnd_plat_op bnd_dev_op plat_op_eq dev_op_eq

text \<open>
  Monotonicity, so that a loop can be defined by \<open>partial_function (option)\<close> through
  \<open>bnd\<close>.
\<close>

lemma mono_optionI:
  fixes F :: "('a \<Rightarrow> 'b option) \<Rightarrow> 'c option"
  assumes "\<And>f g y. option.le_fun f g \<Longrightarrow> F f = Some y \<Longrightarrow> F g = Some y"
  shows "mono_option F"
proof (rule monotoneI)
  fix f g :: "'a \<Rightarrow> 'b option"
  assume le: "option.le_fun f g"
  show "option_ord (F f) (F g)"
    using assms [OF le] by (cases "F f") (auto simp: flat_ord_def)
qed

lemma mono_optionD:
  fixes F :: "('a \<Rightarrow> 'b option) \<Rightarrow> 'c option"
  assumes "mono_option F" "option.le_fun f g" "F f = Some y"
  shows "F g = Some y"
proof -
  have "option_ord (F f) (F g)" using assms(1,2) unfolding monotone_def by blast
  with assms(3) show ?thesis by (simp add: flat_ord_def)
qed

lemma bnd_mono [partial_function_mono]:
  assumes "\<And>s. mono_option (\<lambda>f. F f s)" "\<And>x s. mono_option (\<lambda>f. G f x s)"
  shows "mono_option (\<lambda>f. bnd (F f) (G f) s)"
proof (rule mono_optionI)
  fix f g y
  assume le: "option.le_fun f g" and eq: "bnd (F f) (G f) s = Some y"
  from eq obtain r t where r: "bnd (F f) (G f) s = Some (r, t)" "y = (r, t)" by (cases y) auto
  from r(1) show "bnd (F g) (G g) s = Some y"
  proof (cases rule: bnd_cases)
    case (ret x s')
    then show ?thesis
      using mono_optionD [OF assms(1) le ret(1)] mono_optionD [OF assms(2) le ret(2)] r(2)
      by (simp add: bnd_def)
  next
    case (stop e)
    then show ?thesis
      using mono_optionD [OF assms(1) le stop(1)] r(2) by (simp add: bnd_def)
  qed
qed

lemma whenM_mono [partial_function_mono]:
  "(\<And>s. mono_option (\<lambda>f. F f s)) \<Longrightarrow> mono_option (\<lambda>f. whenM b (F f) s)"
  by (cases b) (auto simp: whenM_def ret_def intro: monotoneI option.leq_refl)

lemma if_app_mono [partial_function_mono]:
  "mono_option (\<lambda>f. F f s) \<Longrightarrow> mono_option (\<lambda>f. G f s) \<Longrightarrow>
     mono_option (\<lambda>f. (if b then F f else G f) s)"
  by (cases b) simp_all

section \<open>Contracts\<close>

text \<open>
  \<open>triple P m Q X\<close>: from a state with \<open>P\<close>, a run of \<open>m\<close> that ends returns with \<open>Q\<close> or
  stops with \<open>X\<close>. That a run ends is a separate fact (the run is not \<open>None\<close>).
\<close>

definition triple ::
    "('d machine \<Rightarrow> bool) \<Rightarrow> ('d, 'a) fw \<Rightarrow> ('a \<Rightarrow> 'd machine \<Rightarrow> bool) \<Rightarrow>
      (exit \<Rightarrow> 'd machine \<Rightarrow> bool) \<Rightarrow> bool" where
  "triple P m Q X \<longleftrightarrow> (\<forall>s r t. P s \<longrightarrow> m s = Some (r, t) \<longrightarrow>
     (case r of Ret x \<Rightarrow> Q x t | Stop e \<Rightarrow> X e t))"

named_theorems wp \<open>contract rules, applied backwards\<close>

lemma tripleI:
  assumes "\<And>s x t. P s \<Longrightarrow> m s = Some (Ret x, t) \<Longrightarrow> Q x t"
    and "\<And>s e t. P s \<Longrightarrow> m s = Some (Stop e, t) \<Longrightarrow> X e t"
  shows "triple P m Q X"
  using assms by (auto simp: triple_def split: result.splits)

lemma triple_loopI:
  assumes "\<And>s y. m s = Some y \<Longrightarrow> P s \<longrightarrow> (case fst y of Ret x \<Rightarrow> Q x (snd y) | Stop e \<Rightarrow> X e (snd y))"
  shows "triple P m Q X"
  unfolding triple_def using assms by (metis fst_conv snd_conv)

lemma triple_RetD: "triple P m Q X \<Longrightarrow> P s \<Longrightarrow> m s = Some (Ret x, t) \<Longrightarrow> Q x t"
  by (fastforce simp: triple_def)

lemma triple_StopD: "triple P m Q X \<Longrightarrow> P s \<Longrightarrow> m s = Some (Stop e, t) \<Longrightarrow> X e t"
  by (fastforce simp: triple_def)

lemma triple_pre: "triple P' m Q X \<Longrightarrow> (\<And>s. P s \<Longrightarrow> P' s) \<Longrightarrow> triple P m Q X"
  unfolding triple_def by blast

lemma triple_post:
  "triple P m Q' X' \<Longrightarrow> (\<And>x s. Q' x s \<Longrightarrow> Q x s) \<Longrightarrow> (\<And>e s. X' e s \<Longrightarrow> X e s) \<Longrightarrow>
     triple P m Q X"
  by (fastforce simp: triple_def split: result.splits)

lemma triple_bnd [wp]:
  "triple P m R X \<Longrightarrow> (\<And>x. triple (R x) (f x) Q X) \<Longrightarrow> triple P (bnd m f) Q X"
  by (fastforce simp: triple_def elim!: bnd_cases split: result.splits)

lemma triple_ret [wp]: "triple (Q x) (ret x) Q X"
  by (simp add: triple_def ret_def)

lemma triple_stop [wp]: "triple (X e) (stop e) Q X"
  by (simp add: triple_def stop_def)

lemma triple_gets [wp]: "triple (\<lambda>s. Q (f s) s) (gets f) Q X"
  by (simp add: triple_def gets_def)

lemma triple_modify [wp]: "triple (\<lambda>s. Q () (f s)) (modify f) Q X"
  by (simp add: triple_def modify_def)

lemma triple_if [wp]:
  "(b \<Longrightarrow> triple P m Q X) \<Longrightarrow> (\<not> b \<Longrightarrow> triple P n Q X) \<Longrightarrow>
     triple P (if b then m else n) Q X"
  by simp

lemma triple_whenM [wp]:
  "(b \<Longrightarrow> triple P m Q X) \<Longrightarrow> (\<not> b \<Longrightarrow> (\<And>s. P s \<Longrightarrow> Q () s)) \<Longrightarrow> triple P (whenM b m) Q X"
  by (auto simp: whenM_def triple_def ret_def)

lemma triple_conj:
  "triple P m Q X \<Longrightarrow> triple P' m Q' X' \<Longrightarrow>
     triple (\<lambda>s. P s \<and> P' s) m (\<lambda>x s. Q x s \<and> Q' x s) (\<lambda>e s. X e s \<and> X' e s)"
  by (fastforce simp: triple_def split: result.splits)

section \<open>A machine at power-on\<close>

text \<open>
  The state \<open>start.S\<close> leaves: buffers in the zeroed bss section, \<open>vdev\<close> initialised; and hardware on which
  no device answers. Concrete runs are built from these two by updating fields.
\<close>

definition blank_vdev :: vdev where
  "blank_vdev = \<lparr>nr_vqs = 1, cmd_vr_idx = 0, wait_reply_timeout = 30, guessed_disk_nature = GDN_NONE,
     vd_schid = \<lparr>cssid = 0, sch_m = False, ssid = 0, sch_one = True, sch_no = 0\<rparr>, is_cdrom = False,
     scsi_block_size = 512, blk_factor = 1, scsi_last_block = 0,
     scsi_dev = \<lparr>sd_channel = 0, sd_target = 0, sd_lun = 0\<rparr>, scsi_device_selected = False,
     selected_scsi_device = \<lparr>sd_channel = 0, sd_target = 0, sd_lun = 0\<rparr>, netboot_start_addr = 0,
     max_transfer = 0, guest_features = [0, 0]\<rparr>"

definition blank_ring :: ring_mem where
  "blank_ring = \<lparr>rm_desc = [], avail_flags = 0, avail_idx = 0, avail_ring = [], used_flags = 0,
     used_idx = 0, used_ring = []\<rparr>"

definition blank_vring :: vring where
  "blank_vring = \<lparr>vr_num = 0, next_idx = 0, vr_used_idx = 0, vr_desc = 0, vr_avail = 0, vr_used = 0,
     vr_schid = vd_schid blank_vdev, vr_cookie = 0, vr_id = 0\<rparr>"

definition blank :: "'d \<Rightarrow> 'd machine" where
  "blank d = \<lparr>mem = (\<lambda>_. 0), bufs = (\<lambda>b. replicate (buf_size b) 0), vd = blank_vdev,
     menu_flag = 0, menu_timeout = 0, loadparm_str = replicate 9 0,
     the_iplb = \<lparr>pbt = IPL_OTHER 0, iplb_ssid = 0, iplb_devno = 0, iplb_lun = 0, iplb_target = 0,
       iplb_channel = 0\<rparr>,
     the_qipl = \<lparr>qipl_flags = 0, qipl_netboot_start_addr = 0, boot_menu_timeout = 0\<rparr>,
     have_iplb = False, the_cutype = 0, blk_schid = vd_schid blank_vdev, save_psw = 0, ipl_continue = 0,
     io = \<lparr>dev = d, scr = (\<lambda>b. replicate (scr_size b) 0), rmem = replicate 3 blank_ring,
       vrings = replicate 3 blank_vring\<rparr>\<rparr>"

lemma blank_bufs [simp]: "bufs (blank d) b = replicate (buf_size b) 0"
  by (simp add: blank_def)

lemma blank_scr [simp]: "scr (io (blank d)) b = replicate (scr_size b) 0"
  by (simp add: blank_def)

lemma blank_rings [simp]:
  "rmem (io (blank d)) = replicate 3 blank_ring" "vrings (io (blank d)) = replicate 3 blank_vring"
  by (simp_all add: blank_def)

definition no_hw :: "'d hw" where
  "no_hw = \<lparr>stck = (\<lambda>d. (0, d)), servc = (\<lambda>_ b d. (3, b, d)), ext_int_code = (\<lambda>d. (0, d)),
     sckc = (\<lambda>_ d. ((), d)), clock_int = (\<lambda>_ d. ((), d)),
     stsch = (\<lambda>_ d. ((3, \<lparr>schib_pmcw = \<lparr>ena = False, dnv = False, pmcw_dev = 0\<rparr>\<rparr>), d)),
     msch = (\<lambda>_ _ d. (3, d)), ssch = (\<lambda>_ _ p. (3, p)),
     tsch = (\<lambda>_ p. ((3, \<lparr>irb_scsw = \<lparr>ctrl = 0, scsw_cpa = 0, dstat = 0, cstat = 0\<rparr>\<rparr>), p)),
     consume_io_int = (\<lambda>p. ((), p)), yield_cpu = (\<lambda>p. ((), p)), hypercall = (\<lambda>_ _ _ _ p. (0, p)),
     set_iplb = (\<lambda>_ d. (False, d)),
     store_iplb = (\<lambda>d. ((False, \<lparr>pbt = IPL_OTHER 0, iplb_ssid = 0, iplb_devno = 0, iplb_lun = 0,
       iplb_target = 0, iplb_channel = 0\<rparr>), d)),
     chsc = (\<lambda>b d. (3, b, d)), psw_entry = 0, junk = (\<lambda>n. replicate n 0), ring_area = 0,
     iplb_addr = 0, set_prefix = (\<lambda>_ d. ((), d))\<rparr>"

section \<open>Invariants of the state\<close>

text \<open>\<open>keeps I m\<close>: however a run of \<open>m\<close> ends, the invariant \<open>I\<close> still holds.\<close>

definition keeps :: "('d machine \<Rightarrow> bool) \<Rightarrow> ('d, 'a) fw \<Rightarrow> bool" where
  "keeps I m \<longleftrightarrow> (\<forall>s r t. I s \<longrightarrow> m s = Some (r, t) \<longrightarrow> I t)"

named_theorems keeps \<open>an operation keeps an invariant\<close>

lemma keepsI: "(\<And>s r t. I s \<Longrightarrow> m s = Some (r, t) \<Longrightarrow> I t) \<Longrightarrow> keeps I m"
  by (simp add: keeps_def)

lemma keepsD: "keeps I m \<Longrightarrow> I s \<Longrightarrow> m s = Some (r, t) \<Longrightarrow> I t"
  unfolding keeps_def by blast

lemma keeps_ret [keeps]: "keeps I (ret x)"
  by (simp add: keeps_def)

lemma keeps_stop [keeps]: "keeps I (stop e)"
  by (simp add: keeps_def)

lemma keeps_gets [keeps]: "keeps I (gets f)"
  by (simp add: keeps_def)

lemma keeps_bnd [keeps]: "keeps I m \<Longrightarrow> (\<And>x. keeps I (f x)) \<Longrightarrow> keeps I (bnd m f)"
  unfolding keeps_def by (blast elim!: bnd_cases)

lemma keeps_whenM [keeps]: "(b \<Longrightarrow> keeps I m) \<Longrightarrow> keeps I (whenM b m)"
  by (simp add: whenM_def keeps_ret)

lemma keeps_if [keeps]: "(b \<Longrightarrow> keeps I m) \<Longrightarrow> (\<not> b \<Longrightarrow> keeps I n) \<Longrightarrow> keeps I (if b then m else n)"
  by simp

lemma keeps_option [keeps]:
  "(x = None \<Longrightarrow> keeps I m) \<Longrightarrow> (\<And>y. x = Some y \<Longrightarrow> keeps I (f y)) \<Longrightarrow>
     keeps I (case x of None \<Rightarrow> m | Some y \<Rightarrow> f y)"
  by (cases x) simp_all

lemma keeps_prod [keeps]: "(\<And>a b. x = (a, b) \<Longrightarrow> keeps I (f a b)) \<Longrightarrow> keeps I (case x of (a, b) \<Rightarrow> f a b)"
  by (cases x) simp

lemma keeps_Let [keeps]: "(\<And>y. keeps I (f y)) \<Longrightarrow> keeps I (let y = x in f y)"
  by simp

lemma keeps_modify: "(\<And>s. I s \<Longrightarrow> I (f s)) \<Longrightarrow> keeps I (modify f)"
  by (simp add: keeps_def)

text \<open>\<open>ends m\<close>: no run of \<open>m\<close> loops for ever.\<close>

definition ends :: "('d, 'a) fw \<Rightarrow> bool" where
  "ends m \<longleftrightarrow> (\<forall>s. m s \<noteq> None)"

named_theorems ends \<open>an operation always ends\<close>

lemma endsI: "(\<And>s. \<exists>y. m s = Some y) \<Longrightarrow> ends m"
  by (auto simp: ends_def)

lemma endsD: "ends m \<Longrightarrow> \<exists>r t. m s = Some (r, t)"
  unfolding ends_def by (metis not_None_eq surj_pair)

lemma ends_ret [ends]: "ends (ret x)"
  by (simp add: ends_def ret_def)

lemma ends_stop [ends]: "ends (stop e)"
  by (simp add: ends_def stop_def)

lemma ends_gets [ends]: "ends (gets f)"
  by (simp add: ends_def gets_def)

lemma ends_modify [ends]: "ends (modify f)"
  by (simp add: ends_def modify_def)

lemma ends_plat_op [ends]: "ends (plat_op f)"
  by (simp add: ends_def plat_op_def split: prod.splits)

lemma ends_dev_op [ends]: "ends (dev_op f)"
  by (simp add: ends_def dev_op_def split: prod.splits)

lemma ends_bnd [ends]: "ends m \<Longrightarrow> (\<And>x. ends (f x)) \<Longrightarrow> ends (bnd m f)"
  by (auto simp: ends_def bnd_def split: option.splits result.splits)

lemma ends_bnd_Ret:
  "ends m \<Longrightarrow> (\<And>s x t. m s = Some (Ret x, t) \<Longrightarrow> ends (f x)) \<Longrightarrow> ends (bnd m f)"
  by (auto simp: ends_def bnd_def split: option.splits result.splits)

lemma ends_whenM [ends]: "(b \<Longrightarrow> ends m) \<Longrightarrow> ends (whenM b m)"
  by (simp add: whenM_def ends_ret)

lemma ends_if [ends]: "(b \<Longrightarrow> ends m) \<Longrightarrow> (\<not> b \<Longrightarrow> ends n) \<Longrightarrow> ends (if b then m else n)"
  by simp

lemma ends_option [ends]:
  "(x = None \<Longrightarrow> ends m) \<Longrightarrow> (\<And>y. x = Some y \<Longrightarrow> ends (f y)) \<Longrightarrow>
     ends (case x of None \<Rightarrow> m | Some y \<Rightarrow> f y)"
  by (cases x) simp_all

lemma ends_prod [ends]: "(\<And>a b. x = (a, b) \<Longrightarrow> ends (f a b)) \<Longrightarrow> ends (case x of (a, b) \<Rightarrow> f a b)"
  by (cases x) simp

lemma ends_Let [ends]: "(\<And>y. ends (f y)) \<Longrightarrow> ends (let y = x in f y)"
  by simp

lemma ends_load [ends]: "ends (load p n)"
  by (rule endsI, cases p) auto

lemma ends_store [ends]: "ends (store p bs)"
  by (rule endsI, cases p) auto

lemma ends_load_u8 [ends]: "ends (load_u8 p)"
  unfolding load_u8_def by (intro ends)

lemma ends_load_u16 [ends]: "ends (load_u16 p)"
  unfolding load_u16_def by (intro ends)

lemma ends_load_u32 [ends]: "ends (load_u32 p)"
  unfolding load_u32_def by (intro ends)

lemma ends_load_u64 [ends]: "ends (load_u64 p)"
  unfolding load_u64_def by (intro ends)

lemma ends_memset [ends]: "ends (memset p c n)"
  unfolding memset_def by (intro ends)

lemma ends_memcpy [ends]: "ends (memcpy d p n)"
  unfolding memcpy_def by (intro ends)

text \<open>Every buffer has its declared size.\<close>

definition sized :: "'d machine \<Rightarrow> bool" where
  "sized s \<longleftrightarrow> (\<forall>b. length (bufs s b) = buf_size b) \<and> (\<forall>b. length (scr (io s) b) = scr_size b)"

lemma sized_bufs: "sized s \<Longrightarrow> length (bufs s b) = buf_size b"
  by (simp add: sized_def)

lemma sized_scr: "sized s \<Longrightarrow> length (scr (io s) b) = scr_size b"
  by (simp add: sized_def)

lemma sized_modify [keeps]:
  "(\<And>s. bufs (f s) = bufs s) \<Longrightarrow> (\<And>s. scr (io (f s)) = scr (io s)) \<Longrightarrow> keeps sized (modify f)"
  by (simp add: keeps_def sized_def)

lemma sized_plat_op [keeps]: "keeps sized (plat_op f)"
  by (auto simp: keeps_def sized_def plat_op_def from_plat_def split: prod.splits)

lemma sized_dev_op [keeps]: "keeps sized (dev_op f)"
  by (auto simp: keeps_def sized_def dev_op_def split: prod.splits)

lemma load_state: "load p n s = Some (r, t) \<Longrightarrow> t = s"
  by (cases p) (auto split: if_splits)

lemma keeps_load [keeps]: "keeps I (load p n)"
  by (auto simp: keeps_def dest: load_state)

lemma sized_store [keeps]: "keeps sized (store p bs)"
  by (cases p) (auto simp: keeps_def sized_def split: if_splits)

lemma keeps_load_u8 [keeps]: "keeps I (load_u8 p)"
  unfolding load_u8_def by (intro keeps)

lemma keeps_load_u16 [keeps]: "keeps I (load_u16 p)"
  unfolding load_u16_def by (intro keeps)

lemma keeps_load_u32 [keeps]: "keeps I (load_u32 p)"
  unfolding load_u32_def by (intro keeps)

lemma keeps_load_u64 [keeps]: "keeps I (load_u64 p)"
  unfolding load_u64_def by (intro keeps)

lemma sized_memset [keeps]: "keeps sized (memset p c n)"
  unfolding memset_def by (intro keeps)

lemma sized_memcpy [keeps]: "keeps sized (memcpy d p n)"
  unfolding memcpy_def by (intro keeps)

lemma sized_blank [simp]: "sized (blank d)"
  by (simp add: sized_def)

section \<open>Memory lemmas\<close>

lemma length_mem_get [simp]: "length (mem_get m a n) = n"
  by (simp add: mem_get_def)

lemma be_zero [simp]: "be (replicate n 0) = 0"
proof -
  have "be_nat (replicate n 0) = 0" by (induction n) simp_all
  then show ?thesis by (simp add: be_def)
qed

lemma mem_get_blank [simp]: "mem_get (mem (blank d)) a n = replicate n 0"
  by (simp add: blank_def mem_get_def map_replicate_const)

lemma mem_get_put_same:
  assumes "length bs < 2 ^ 64"
  shows "mem_get (mem_put a bs m) a (length bs) = bs"
  using assms by (intro nth_equalityI) (auto simp: mem_get_def mem_put_def unat_of_nat take_bit_eq_mod)

lemma mem_put_other: "\<not> unat (x - a) < length bs \<Longrightarrow> mem_put a bs m x = m x"
  by (simp add: mem_put_def)

lemma mem_get_put_other:
  assumes "\<And>i. i < n \<Longrightarrow> \<not> unat (b + word_of_nat i - a) < length bs"
  shows "mem_get (mem_put a bs m) b n = mem_get m b n"
  using assms by (auto simp: mem_get_def mem_put_def)

lemma unat_diff_wrap:
  fixes x a :: u64
  shows "unat (x - a) = (if unat a \<le> unat x then unat x - unat a else unat x + 2 ^ 64 - unat a)"
  using unsigned_less [of a, where ?'a = nat] by (auto simp: unat_sub_if_size word_size)

lemma unat_add_small:
  fixes b :: u64
  assumes "unat b + i < 2 ^ 64"
  shows "unat (b + word_of_nat i) = unat b + i"
  using assms by (simp add: unat_word_ariths unat_of_nat take_bit_eq_mod)

lemma mem_get_put_disjoint:
  assumes "unat b + n \<le> unat a \<or> unat a + length bs \<le> unat b"
    and "unat a + length bs \<le> 2 ^ 64" "unat b + n \<le> 2 ^ 64"
  shows "mem_get (mem_put a bs m) b n = mem_get m b n"
proof (rule mem_get_put_other)
  fix i
  assume i: "i < n"
  with assms(3) have "unat (b + word_of_nat i) = unat b + i" by (intro unat_add_small) simp
  then show "\<not> unat (b + word_of_nat i - a) < length bs"
    using assms i unfolding unat_diff_wrap by auto
qed

lemma mem_get_put_to_be:
  "k \<le> 8 \<Longrightarrow> mem_get (mem_put b (to_be k w) m) b k = to_be k w"
  using mem_get_put_same [of "to_be k w" b m] by simp

lemma nat_be_zero: "nat_be n 0 = replicate n 0"
  by (induction n) simp_all

lemma to_be_zero: "to_be n 0 = replicate n 0"
  by (simp add: to_be_def nat_be_zero)

lemma bnd_load_store_Phys [simp]:
  "bnd (store (Phys a) bs) f s = f () (s\<lparr>mem := mem_put a bs (mem s)\<rparr>)"
  "bnd (load (Phys a) n) g s = g (mem_get (mem s) a n) s"
  by (simp_all add: bnd_def)

lemma bnd_load_words_Phys [simp]:
  "bnd (load_u8 (Phys a)) f1 s = f1 (hd (mem_get (mem s) a 1)) s"
  "bnd (load_u16 (Phys a)) f2 s = f2 (be (mem_get (mem s) a 2)) s"
  "bnd (load_u32 (Phys a)) f4 s = f4 (be (mem_get (mem s) a 4)) s"
  "bnd (load_u64 (Phys a)) f8 s = f8 (be (mem_get (mem s) a 8)) s"
  by (simp_all add: load_u8_def load_u16_def load_u32_def load_u64_def bnd_assoc)

lemma mem_put_at:
  assumes "unat a + length bs \<le> 2 ^ 64"
  shows "mem_put a bs m x =
    (if unat a \<le> unat x \<and> unat x < unat a + length bs then bs ! (unat x - unat a) else m x)"
  using assms unsigned_less [of x, where ?'a = nat] unfolding mem_put_def unat_diff_wrap by auto

lemma nth_mem_get [simp]: "i < n \<Longrightarrow> mem_get m a n ! i = m (a + word_of_nat i)"
  by (simp add: mem_get_def)

lemma mem_put_single: "mem_put a [b] m = m(a := b)"
proof
  fix x
  have "unat (x - a) < 1 \<longleftrightarrow> x = a" by (simp add: unat_eq_0)
  then show "mem_put a [b] m x = (m(a := b)) x" by (simp add: mem_put_def)
qed

lemma mem_get_Suc: "mem_get m a (Suc n) = m a # mem_get m (a + 1) n"
  by (simp add: mem_get_def upt_conv_Cons map_Suc_upt [symmetric] ac_simps del: upt_Suc)

lemma mem_get_numeral: "mem_get m a (numeral v) = m a # mem_get m (a + 1) (pred_numeral v)"
  by (simp add: numeral_eq_Suc mem_get_Suc)

lemma mem_get_0: "mem_get m a 0 = []"
  by (simp add: mem_get_def)

text \<open>Reading single bytes of a memory written at fixed addresses.\<close>

lemmas byte_simps = mem_get_0 mem_get_Suc mem_get_numeral mem_put_at to_be_def be_def

lemma to_be_be_get: "to_be 4 (be (mem_get m a 4) :: u32) = mem_get m a 4"
  using to_be_be [of "mem_get m a 4", where ?'a = 32] by simp

lemma mem_get_put_get: "k \<le> 16 \<Longrightarrow> mem_get (mem_put b (mem_get m' a k) m) b k = mem_get m' a k"
  using mem_get_put_same [of "mem_get m' a k" b m] by simp

lemma mem_put_same: "length x = length y \<Longrightarrow> mem_put a x (mem_put a y m) = mem_put a x m"
  by (rule ext) (simp add: mem_put_def)

lemma mem_put_append:
  assumes "length x + length y \<le> 2 ^ 64"
  shows "mem_put (a + word_of_nat (length x)) y (mem_put a x m) = mem_put a (x @ y) m"
proof
  fix z
  let ?d = "unat (z - a)"
  have e: "z - (a + word_of_nat (length x)) = (z - a) - word_of_nat (length x)" by simp
  show "mem_put (a + word_of_nat (length x)) y (mem_put a x m) z = mem_put a (x @ y) m z"
  proof (cases "length x < 2 ^ 64")
    case True
    then have k: "unat (word_of_nat (length x) :: u64) = length x" by (simp add: unat_of_nat take_bit_nat_eq_self)
    have d: "unat (z - a - word_of_nat (length x)) = (if length x \<le> ?d then ?d - length x else ?d + 2 ^ 64 - length x)"
      unfolding unat_diff_wrap [of "z - a"] k ..
    show ?thesis
    proof (cases "length x \<le> ?d")
      case True
      then show ?thesis by (simp add: mem_put_def e d nth_append less_diff_conv2)
    next
      case False
      then have "\<not> ?d + 2 ^ 64 - length x < length y" using assms by simp
      with False show ?thesis by (simp add: mem_put_def e d nth_append)
    qed
  next
    case False
    with assms have "length y = 0" by linarith
    then show ?thesis by (simp add: mem_put_def)
  qed
qed

lemma mem_get_add: "mem_get m a (p + q) = mem_get m a p @ mem_get m (a + word_of_nat p) q"
  by (rule nth_equalityI) (auto simp: nth_append add.assoc of_nat_diff)

lemma store_load_Buf:
  assumes "store (Buf b i) bs s = Some (Ret (), t)"
  shows "load (Buf b i) (length bs) t = Some (Ret bs, t)"
  using assms by (auto split: if_splits)

end
