(* ===== verification/Libc.thy ===== *)
theory Libc
  imports Machine
begin

text \<open>
  The pure helpers of the loader: \<open>libc.h\<close>, \<open>libc.c\<close>, \<open>bswap.h\<close> and the
  formatting functions of \<open>s390-ccw.h\<close>. A byte array is a list; a C string argument is
  an array read up to its NUL (the end of the list reads as the NUL, every caller passes a
  terminated array). Functions that may trip an \<open>IPL_assert\<close> return \<open>Inl\<close> of its message.
\<close>

section \<open>libc.h\<close>

text \<open>\<open>memcmp\<close> of two blocks of the same length.\<close>

fun memcmp :: "u8 list \<Rightarrow> u8 list \<Rightarrow> int" where
  "memcmp (a # p) (b # q) = (if a \<noteq> b then (if b < a then 1 else -1) else memcmp p q)"
| "memcmp _ _ = 0"

text \<open>\<open>None\<close>: no NUL before the end of the array.\<close>

fun strlen :: "u8 list \<Rightarrow> nat option" where
  "strlen [] = None"
| "strlen (b # bs) = (if b = 0 then Some 0 else map_option Suc (strlen bs))"

text \<open>\<open>None\<close>: one of the arrays is left.\<close>

definition strcat :: "u8 list \<Rightarrow> u8 list \<Rightarrow> u8 list option" where
  "strcat dest src = (case (strlen dest, strlen src) of
     (Some n, Some m) \<Rightarrow>
       (if n + Suc m \<le> length dest then Some (splice n (take (Suc m) src) dest) else None)
   | _ \<Rightarrow> None)"

definition isdigit :: "u8 \<Rightarrow> bool" where
  "isdigit c \<longleftrightarrow> 48 \<le> c \<and> c \<le> 57"

section \<open>libc.c\<close>

fun atoui_skip :: "u8 list \<Rightarrow> u8 list" where
  "atoui_skip [] = []"
| "atoui_skip (b # bs) = (if b = 32 then atoui_skip bs else b # bs)"

fun atoui_loop :: "s32 \<Rightarrow> u8 list \<Rightarrow> s32" where
  "atoui_loop val [] = val"
| "atoui_loop val (b # bs) =
     (if b = 0 then val
      else if \<not> isdigit b then val
      else atoui_loop (val * 10 + ucast b - 48) bs)"

text \<open>The argument \<open>None\<close> is the null pointer. The accumulator is an \<open>int\<close>, and wraps.\<close>

definition atoui :: "u8 list option \<Rightarrow> u64" where
  "atoui str = (case str of
     None \<Rightarrow> 0
   | Some bs \<Rightarrow> (if bs = [] \<or> hd bs = 0 then 0 else int_to_u64 (atoui_loop 0 (atoui_skip bs))))"

function uitoa_count :: "u64 \<Rightarrow> nat \<Rightarrow> nat" where
  "uitoa_count tmp num_idx =
     (if tmp div 10 \<noteq> 0 then uitoa_count (tmp div 10) (Suc num_idx) else num_idx)"
  by pat_completeness auto
termination
proof (relation "measure (\<lambda>(tmp, _). unat tmp)")
  fix tmp :: u64 and num_idx :: nat
  assume "tmp div 10 \<noteq> 0"
  then have "unat (tmp div 10) \<noteq> 0" by (simp only: unat_eq_zero not_False_eq_True)
  then have "unat tmp div 10 \<noteq> 0" by (simp add: unat_div)
  then show "((tmp div 10, Suc num_idx), tmp, num_idx) \<in> measure (\<lambda>(tmp, _). unat tmp)"
    by (simp add: unat_div)
qed simp

declare uitoa_count.simps [simp del]

fun uitoa_digits :: "nat \<Rightarrow> u64 \<Rightarrow> u8 list \<Rightarrow> u8 list" where
  "uitoa_digits 0 num str = str"
| "uitoa_digits (Suc i) num str =
     uitoa_digits i (num div 10) (str[i := ucast (num mod 10) + 48])"

definition uitoa :: "u64 \<Rightarrow> u8 list option \<Rightarrow> nat \<Rightarrow> string + u8 list" where
  "uitoa num str len = (case str of
     None \<Rightarrow> Inl ''uitoa: no space allocated to store string''
   | Some a \<Rightarrow>
       (let num_idx = uitoa_count num 1 in
        if \<not> num_idx < len then Inl ''uitoa: array too small for conversion''
        else Inr (uitoa_digits num_idx num (a[num_idx := 0]))))"

section \<open>bswap.h\<close>

definition bswap16 :: "u16 \<Rightarrow> u16" where
  "bswap16 x = push_bit 8 (x AND 0x00ff) OR drop_bit 8 (x AND 0xff00)"

definition bswap32 :: "u32 \<Rightarrow> u32" where
  "bswap32 x = push_bit 24 (x AND 0x000000ff) OR push_bit 8 (x AND 0x0000ff00)
     OR drop_bit 8 (x AND 0x00ff0000) OR drop_bit 24 (x AND 0xff000000)"

definition bswap64 :: "u64 \<Rightarrow> u64" where
  "bswap64 x = push_bit 56 (x AND 0x00000000000000ff) OR push_bit 40 (x AND 0x000000000000ff00)
     OR push_bit 24 (x AND 0x0000000000ff0000) OR push_bit 8 (x AND 0x00000000ff000000)
     OR drop_bit 8 (x AND 0x000000ff00000000) OR drop_bit 24 (x AND 0x0000ff0000000000)
     OR drop_bit 40 (x AND 0x00ff000000000000) OR drop_bit 56 (x AND 0xff00000000000000)"

section \<open>Formatting (s390-ccw.h)\<close>

definition hex_digits :: "u8 list" where
  "hex_digits = lit ''0123456789abcdef''"

definition fill_hex :: "nat \<Rightarrow> u8 \<Rightarrow> u8 list \<Rightarrow> u8 list" where
  "fill_hex off val out =
     (out[off := hex_digits ! unat (drop_bit 4 val AND 0xf)])
         [Suc off := hex_digits ! unat (val AND 0xf)]"

fun fill_hex_val :: "nat \<Rightarrow> u8 list \<Rightarrow> u8 list \<Rightarrow> u8 list" where
  "fill_hex_val off [] out = out"
| "fill_hex_val off (v # vs) out = fill_hex_val (off + 2) vs (fill_hex off v out)"

definition ebc2asc :: "u8 list" where
  "ebc2asc =
     lit ''................................'' @ lit ''................................'' @
     lit '' ...........<(+|&.........!$*);.'' @
     lit ''-/.........,%_>?.........`:#@'' @ [0x27] @ lit ''='' @ [0x22] @
     lit ''.abcdefghi.......jklmnopqr......'' @ lit ''..stuvwxyz......................'' @
     lit ''.ABCDEFGHI.......JKLMNOPQR......'' @ lit ''..STUVWXYZ......0123456789......''"

definition ebcdic_to_ascii :: "u8 list \<Rightarrow> u8 list" where
  "ebcdic_to_ascii src = map (\<lambda>c. ebc2asc ! unat c) src"

definition MIN_NON_ZERO :: "u32 \<Rightarrow> u32 \<Rightarrow> u32" where
  "MIN_NON_ZERO a b = (if a = 0 then b else if b = 0 then a else if a < b then a else b)"

section \<open>Lemmas\<close>

subsection \<open>memcmp and strings\<close>

lemma memcmp_0_iff: "length p = length q \<Longrightarrow> memcmp p q = 0 \<longleftrightarrow> p = q"
  by (induction p q rule: memcmp.induct) auto

lemma memcmp_swap: "length p = length q \<Longrightarrow> memcmp q p = - memcmp p q"
  by (induction p q rule: memcmp.induct) auto

lemma memcmp_range: "memcmp p q \<in> {-1, 0, 1}"
  by (induction p q rule: memcmp.induct) auto

lemma strlen_c_str: "strlen bs = (if 0 \<in> set bs then Some (length (c_str bs)) else None)"
  by (induction bs) (auto simp: c_str_def)

lemma take_length_c_str: "take (length (c_str bs)) bs = c_str bs"
  unfolding c_str_def by (rule takeWhile_eq_take [symmetric])

lemma nth_length_c_str: "0 \<in> set bs \<Longrightarrow> bs ! length (c_str bs) = 0 \<and> length (c_str bs) < length bs"
  unfolding c_str_def by (induction bs) auto

lemma strcat_text:
  assumes "0 \<in> set dest" "0 \<notin> set t" "length (c_str dest) + length t < length dest"
  shows "\<exists>d. strcat dest (t @ [0]) = Some d \<and> c_str d = c_str dest @ t \<and> length d = length dest \<and> 0 \<in> set d"
proof -
  let ?n = "length (c_str dest)"
  let ?d = "splice ?n (t @ [0]) dest"
  have "strlen (t @ [0]) = Some (length t)" using assms(2) by (simp add: strlen_c_str)
  then have "strcat dest (t @ [0]) = Some ?d"
    using assms by (simp add: strcat_def strlen_c_str)
  moreover have "?d = (c_str dest @ t) @ 0 # drop (?n + length t + 1) dest"
    by (simp add: splice_def take_length_c_str)
  then have "c_str ?d = c_str dest @ t"
    using c_str_append_nul [of "c_str dest @ t"] assms(2) c_str_nonzero [of 0 dest] by auto
  moreover have "length ?d = length dest" using assms(3) by simp
  moreover have "0 \<in> set ?d" by (simp add: splice_def)
  ultimately show ?thesis by blast
qed

subsection \<open>Decimal digits\<close>

fun dec :: "nat \<Rightarrow> u8 list" where
  "dec n = (if n < 10 then [word_of_nat (n + 48)] else dec (n div 10) @ [word_of_nat (n mod 10 + 48)])"

declare dec.simps [simp del]

lemma dec_small: "n < 10 \<Longrightarrow> dec n = [word_of_nat (n + 48)]"
  by (subst dec.simps) simp

lemma dec_step: "10 \<le> n \<Longrightarrow> dec n = dec (n div 10) @ [word_of_nat (n mod 10 + 48)]"
  by (subst dec.simps) simp

lemma uitoa_count_dec: "uitoa_count n k = k + length (dec (unat n)) - 1"
proof (induction n k rule: uitoa_count.induct)
  case (1 n k)
  have zero: "n div 10 = 0 \<longleftrightarrow> unat n < 10"
    by (simp add: unat_div div_eq_0_iff flip: unat_eq_zero)
  show ?case
  proof (cases "n div 10 = 0")
    case True
    with zero have "length (dec (unat n)) = 1" by (subst dec.simps) simp
    with True show ?thesis by (subst uitoa_count.simps) simp
  next
    case False
    with zero have "length (dec (unat n)) = Suc (length (dec (unat n div 10)))"
      by (simp add: dec_step)
    moreover have "length (dec (unat n div 10)) > 0" by (subst dec.simps) simp
    ultimately show ?thesis
      using 1 False by (subst uitoa_count.simps) (simp add: unat_div)
  qed
qed

lemma length_uitoa_digits [simp]: "length (uitoa_digits i n a) = length a"
  by (induction i arbitrary: n a) auto

lemma digit_byte: "(ucast ((n::u64) mod 10) :: u8) + 48 = word_of_nat (unat n mod 10 + 48)"
proof -
  have "(ucast (n mod 10) :: u8) = word_of_nat (unat (n mod 10))" by simp
  also have "unat (n mod 10) = unat n mod 10" by (simp add: unat_mod)
  finally show ?thesis by simp
qed

lemma uitoa_digits_dec:
  "unat n = m \<Longrightarrow> length (dec m) \<le> length a \<Longrightarrow>
     uitoa_digits (length (dec m)) n a = dec m @ drop (length (dec m)) a"
proof (induction m arbitrary: n a rule: dec.induct)
  case (1 m)
  show ?case
  proof (cases "m < 10")
    case True
    with "1.prems" show ?thesis
      by (cases a) (simp_all add: dec_small digit_byte)
  next
    case False
    let ?k = "length (dec (m div 10))"
    have len: "length (dec m) = Suc ?k" using False by (simp add: dec_step)
    have "uitoa_digits ?k (n div 10) (a[?k := word_of_nat (m mod 10 + 48)]) =
        dec (m div 10) @ drop ?k (a[?k := word_of_nat (m mod 10 + 48)])"
      using False "1.prems" len by (intro "1.IH") (auto simp: unat_div)
    moreover have "drop ?k (a[?k := word_of_nat (m mod 10 + 48)]) =
        word_of_nat (m mod 10 + 48) # drop (Suc ?k) a"
      using "1.prems" len by (simp add: drop_update_swap flip: Cons_nth_drop_Suc)
    ultimately show ?thesis
      using False "1.prems"(1) by (simp add: len digit_byte) (simp add: dec_step)
  qed
qed

lemma uitoa_eq:
  assumes "len \<le> length a"
  shows "uitoa num (Some a) len =
    (if length (dec (unat num)) < len
     then Inr (dec (unat num) @ 0 # drop (Suc (length (dec (unat num)))) a)
     else Inl ''uitoa: array too small for conversion'')"
proof -
  let ?k = "length (dec (unat num))"
  have pos: "0 < ?k" by (subst dec.simps) simp
  then have idx: "uitoa_count num 1 = ?k" by (simp add: uitoa_count_dec)
  have "uitoa_digits ?k num (a[?k := 0]) = dec (unat num) @ 0 # drop (Suc ?k) a" if "?k < len"
    using assms that uitoa_digits_dec [of num "unat num" "a[?k := 0]"]
    by (simp add: drop_update_swap flip: Cons_nth_drop_Suc)
  with idx show ?thesis by (simp add: uitoa_def)
qed

lemma isdigit_dec: "b \<in> set (dec n) \<Longrightarrow> isdigit b \<and> b \<noteq> 0 \<and> b \<noteq> 32"
proof (induction n rule: dec.induct)
  case (1 n)
  have digit: "isdigit (word_of_nat (d + 48)) \<and> (word_of_nat (d + 48) :: u8) \<noteq> 0 \<and>
      (word_of_nat (d + 48) :: u8) \<noteq> 32" if "d < 10" for d :: nat
  proof -
    have "d \<in> {0, 1, 2, 3, 4, 5, 6, 7, 8, 9}" using that by auto
    then show ?thesis by (auto simp: isdigit_def)
  qed
  show ?case
  proof (cases "n < 10")
    case True
    with "1.prems" digit [of n] show ?thesis by (simp add: dec_small)
  next
    case False
    then have "set (dec n) = insert (word_of_nat (n mod 10 + 48)) (set (dec (n div 10)))"
      by (subst dec_step) auto
    with "1.prems" consider "b = word_of_nat (n mod 10 + 48)" | "b \<in> set (dec (n div 10))" by blast
    then show ?thesis
    proof cases
      case 1
      then show ?thesis using digit [of "n mod 10"] by simp
    next
      case 2
      with False show ?thesis by (intro "1.IH")
    qed
  qed
qed

lemma atoui_loop_dec:
  "atoui_loop v (dec n @ rest) = atoui_loop (v * 10 ^ length (dec n) + word_of_nat n) rest"
proof (induction n arbitrary: v rest rule: dec.induct)
  case (1 n)
  have step: "atoui_loop v (word_of_nat (d + 48) # rest) = atoui_loop (v * 10 + word_of_nat d) rest"
    if "d < 10" for d v rest
  proof -
    have "d \<in> {0, 1, 2, 3, 4, 5, 6, 7, 8, 9}" using that by auto
    then show ?thesis by (auto simp: isdigit_def) (simp_all only: add.commute)
  qed
  show ?case
  proof (cases "n < 10")
    case True
    then have "dec n = [word_of_nat (n + 48)]" by (rule dec_small)
    then show ?thesis by (simp only: append_Cons append_Nil step [OF True]) simp
  next
    case False
    then have dec: "dec n = dec (n div 10) @ [word_of_nat (n mod 10 + 48)]"
      by (intro dec_step) simp
    have n: "(word_of_nat n :: u32) = 10 * word_of_nat (n div 10) + word_of_nat (n mod 10)"
      by (metis mult_div_mod_eq of_nat_add of_nat_mult of_nat_numeral)
    have "atoui_loop v (dec n @ rest) =
        atoui_loop ((v * 10 ^ length (dec (n div 10)) + word_of_nat (n div 10)) * 10
          + word_of_nat (n mod 10)) rest"
      by (simp only: dec append_assoc append_Cons append_Nil 1 [OF False] step [of "n mod 10"]
          mod_less_divisor zero_less_numeral)
    also have "\<dots> = atoui_loop (v * 10 ^ length (dec n) + word_of_nat n) rest"
      by (simp only: n dec length_append list.size) (simp add: algebra_simps)
    finally show ?thesis .
  qed
qed

lemma atoui_skip_spaces: "atoui_skip (replicate k 32 @ bs) = atoui_skip bs"
  by (induction k) auto

lemma atoui_loop_stop: "bs = [] \<or> hd bs = 0 \<or> \<not> isdigit (hd bs) \<Longrightarrow> atoui_loop v bs = v"
  by (cases bs) auto

lemma atoui_dec:
  assumes "rest = [] \<or> hd rest = 0 \<or> \<not> isdigit (hd rest)"
  shows "atoui (Some (replicate k 32 @ dec n @ rest)) = int_to_u64 (word_of_nat n :: s32)"
proof -
  obtain d ds where d: "dec n = d # ds" by (cases "dec n") (simp_all, subst (asm) dec.simps, simp split: if_splits)
  then have "isdigit d \<and> d \<noteq> 0 \<and> d \<noteq> 32" using isdigit_dec [of d n] by simp
  then have "atoui_skip (dec n @ rest) = dec n @ rest" by (simp add: d)
  moreover have "replicate k 32 @ dec n @ rest \<noteq> [] \<and> hd (replicate k 32 @ dec n @ rest) \<noteq> 0"
    using \<open>isdigit d \<and> d \<noteq> 0 \<and> d \<noteq> 32\<close> by (cases k) (simp_all add: d)
  moreover have "dec n \<noteq> []" by (simp add: d)
  ultimately show ?thesis
    using assms by (simp add: atoui_def atoui_skip_spaces atoui_loop_dec atoui_loop_stop)
qed

subsection \<open>Byte order\<close>

lemma bswap16_bits: "bit (bswap16 x) n \<longleftrightarrow> n < 16 \<and> bit x (if n < 8 then 8 + n else n - 8)"
proof -
  have m: "(0x00ff :: u16) = mask 8" "(0xff00 :: u16) = push_bit 8 (mask 8)"
    by (simp_all add: mask_eq_exp_minus_1 push_bit_eq_mult)
  show ?thesis unfolding bswap16_def m by (auto simp: bit_simps)
qed

lemma bswap32_bits:
  "bit (bswap32 x) n \<longleftrightarrow> n < 32 \<and> bit x (if n < 8 then 24 + n else if n < 16 then 8 + n
     else if n < 24 then n - 8 else n - 24)"
proof -
  have m: "(0x000000ff :: u32) = mask 8" "(0x0000ff00 :: u32) = push_bit 8 (mask 8)"
    "(0x00ff0000 :: u32) = push_bit 16 (mask 8)" "(0xff000000 :: u32) = push_bit 24 (mask 8)"
    by (simp_all add: mask_eq_exp_minus_1 push_bit_eq_mult)
  show ?thesis unfolding bswap32_def m by (auto simp: bit_simps)
qed

lemma bswap64_bits:
  "bit (bswap64 x) n \<longleftrightarrow> n < 64 \<and> bit x (if n < 8 then 56 + n else if n < 16 then 40 + n
     else if n < 24 then 24 + n else if n < 32 then 8 + n else if n < 40 then n - 8
     else if n < 48 then n - 24 else if n < 56 then n - 40 else n - 56)"
proof -
  have m: "(0x00000000000000ff :: u64) = mask 8" "(0x000000000000ff00 :: u64) = push_bit 8 (mask 8)"
    "(0x0000000000ff0000 :: u64) = push_bit 16 (mask 8)" "(0x00000000ff000000 :: u64) = push_bit 24 (mask 8)"
    "(0x000000ff00000000 :: u64) = push_bit 32 (mask 8)" "(0x0000ff0000000000 :: u64) = push_bit 40 (mask 8)"
    "(0x00ff000000000000 :: u64) = push_bit 48 (mask 8)" "(0xff00000000000000 :: u64) = push_bit 56 (mask 8)"
    by (simp_all add: mask_eq_exp_minus_1 push_bit_eq_mult)
  have "n < 8 \<or> 8 \<le> n \<and> n < 16 \<or> 16 \<le> n \<and> n < 24 \<or> 24 \<le> n \<and> n < 32 \<or> 32 \<le> n \<and> n < 40
      \<or> 40 \<le> n \<and> n < 48 \<or> 48 \<le> n \<and> n < 56 \<or> 56 \<le> n \<and> n < 64 \<or> 64 \<le> n" by linarith
  then show ?thesis unfolding bswap64_def m
    by (elim disjE) (auto simp: bit_simps)
qed

lemma word_of_nat_drop_unat:
  "(word_of_nat (drop_bit k (unat w)) :: 'b::len word) = ucast (drop_bit k (w :: 'a::len word))"
  by (rule bit_word_eqI) (auto simp: bit_simps bit_of_nat_iff_bit)

lemma nth_to_be:
  fixes w :: "'a::len word"
  assumes "i < n"
  shows "to_be n w ! i = ucast (drop_bit (8 * (n - 1 - i)) w)"
proof -
  have "nat_be n k ! i = word_of_nat (k div 256 ^ (n - 1 - i))" for k
    using assms
  proof (induction n arbitrary: i)
    case (Suc n)
    then show ?case by (cases i) auto
  qed simp
  moreover have "(256::nat) ^ (n - 1 - i) = 2 ^ (8 * (n - 1 - i))" by (simp add: power_mult)
  ultimately show ?thesis
    by (simp add: to_be_def flip: drop_bit_eq_div)
      (simp add: unsigned_drop_bit_eq word_of_nat_drop_unat)
qed


lemma to_be_bswap16: "to_be 2 (bswap16 x) = rev (to_be 2 x)"
proof (rule nth_equalityI)
  fix i assume "i < length (to_be 2 (bswap16 x))"
  then have "i = 0 \<or> i = 1" by auto
  then show "to_be 2 (bswap16 x) ! i = rev (to_be 2 x) ! i"
    by (elim disjE) (auto simp: rev_nth nth_to_be bswap16_bits bit_simps intro!: bit_word_eqI)
qed simp

lemma to_be_bswap32: "to_be 4 (bswap32 x) = rev (to_be 4 x)"
proof (rule nth_equalityI)
  fix i assume "i < length (to_be 4 (bswap32 x))"
  then have "i = 0 \<or> i = 1 \<or> i = 2 \<or> i = 3" by auto
  then show "to_be 4 (bswap32 x) ! i = rev (to_be 4 x) ! i"
    by (elim disjE) (auto simp: rev_nth nth_to_be bswap32_bits bit_simps intro!: bit_word_eqI)
qed simp

lemma to_be_bswap64: "to_be 8 (bswap64 x) = rev (to_be 8 x)"
proof (rule nth_equalityI)
  fix i assume "i < length (to_be 8 (bswap64 x))"
  then have "i = 0 \<or> i = 1 \<or> i = 2 \<or> i = 3 \<or> i = 4 \<or> i = 5 \<or> i = 6 \<or> i = 7" by auto
  then show "to_be 8 (bswap64 x) ! i = rev (to_be 8 x) ! i"
    by (elim disjE) (auto simp: rev_nth nth_to_be bswap64_bits bit_simps intro!: bit_word_eqI)
qed simp


lemma sint_int_to_u64: "sint (int_to_u64 (word_of_nat n :: s32)) = signed_take_bit 31 (int n)"
  by (subst signed_scast_eq) (simp add: signed_of_nat)

lemma int_to_u64_small: "unat (num :: u64) < 2 ^ 31 \<Longrightarrow> int_to_u64 (word_of_nat (unat num) :: s32) = num"
proof -
  assume "unat num < 2 ^ 31"
  then have "int (unat num) < int (2 ^ 31)" by (simp only: of_nat_less_iff)
  then have b: "int (unat num) < 2 ^ 31" by simp
  have c: "- (2 ^ 31) \<le> int (unat num)" by (rule order_trans [of _ 0]) simp_all
  have "sint (int_to_u64 (word_of_nat (unat num) :: s32)) = int (unat num)"
    unfolding sint_int_to_u64 by (rule signed_take_bit_int_eq_self) (use b c in simp_all)
  moreover have "sint num = int (unat num)"
    using b c by (simp add: sint_uint signed_take_bit_int_eq_self)
  ultimately show ?thesis by (metis signed_word_eqI)
qed

lemma be_inj: "to_be n x = to_be n y \<Longrightarrow> LENGTH('a) \<le> n * 8 \<Longrightarrow> x = (y :: 'a::len word)"
  by (metis be_to_be)

lemma memcmp_be_nat:
  "length p = length q \<Longrightarrow> memcmp p q = sgn (int (be_nat p) - int (be_nat q))"
proof (induction p q rule: list_induct2)
  case (Cons a p b q)
  have step: "unat b * 256 ^ length q + be_nat q < unat a * 256 ^ length p + be_nat p"
    if "unat b < unat a" "length p = length q" for a b :: u8 and p q :: "u8 list"
  proof -
    have "be_nat q < 256 ^ length q" by (rule be_nat_bound)
    moreover have "Suc (unat b) * 256 ^ length q \<le> unat a * 256 ^ length q"
      using that(1) by (intro mult_right_mono) simp_all
    ultimately show ?thesis using that(2) by (simp only: mult_Suc)
  qed
  consider "a = b" | "b < a" | "a < b" by force
  then show ?case
  proof cases
    case 1
    then show ?thesis using Cons by simp
  next
    case 2
    then show ?thesis using step [of b a p q] Cons.hyps
      by (auto simp: word_less_nat_alt sgn_if simp flip: of_nat_mult of_nat_add)
  next
    case 3
    then show ?thesis using step [of a b q p] Cons.hyps
      by (auto simp: word_less_nat_alt sgn_if simp flip: of_nat_mult of_nat_add)
  qed
qed simp

section \<open>Properties\<close>



text \<open>
  \<open>atoui\<close> skips leading blanks, reads the digits up to the first byte that is not one
  and ignores the rest; its result is the number modulo $2^{32}$, sign extended to 64 bits.
\<close>

lemma atoui_value:
  assumes "rest = [] \<or> hd rest = 0 \<or> \<not> isdigit (hd rest)"
  shows "sint (atoui (Some (replicate k 32 @ dec n @ rest))) = signed_take_bit 31 (int n)"
  unfolding atoui_dec [OF assms] by (rule sint_int_to_u64)

text \<open>The ten digits of $2^{32} + 1$, as an operator would type them, read as 1.\<close>

lemma atoui_value_witness:
  "dec 4294967297 = lit ''4294967297'' \<and> sint (atoui (Some (lit ''  4294967297'' @ [0]))) = 1"
proof -
  have dec: "dec 4294967297 = lit ''4294967297''"
    by (simp add: dec.simps lit_def)
  have "lit ''  4294967297'' @ [0] = replicate 2 32 @ dec 4294967297 @ [0]"
    by (simp add: dec lit_def numeral_2_eq_2)
  with atoui_value [of "[0]" 2 4294967297] dec show ?thesis by (simp add: signed_take_bit_def)
qed

text \<open>
  The byte swaps reverse the bytes of a 16, 32 or 64-bit word, so that swapping twice
  changes nothing.
\<close>

lemma bswap_reverses_bytes:
  "to_be 2 (bswap16 x) = rev (to_be 2 x) \<and> to_be 4 (bswap32 y) = rev (to_be 4 y) \<and>
   to_be 8 (bswap64 z) = rev (to_be 8 z) \<and>
   bswap16 (bswap16 x) = x \<and> bswap32 (bswap32 y) = y \<and> bswap64 (bswap64 z) = z"
proof -
  have "bswap16 (bswap16 x) = x" by (rule be_inj [of 2]) (simp_all add: to_be_bswap16)
  moreover have "bswap32 (bswap32 y) = y" by (rule be_inj [of 4]) (simp_all add: to_be_bswap32)
  moreover have "bswap64 (bswap64 z) = z" by (rule be_inj [of 8]) (simp_all add: to_be_bswap64)
  ultimately show ?thesis by (simp add: to_be_bswap16 to_be_bswap32 to_be_bswap64)
qed

text \<open>
  \<open>memcmp\<close> orders blocks of the same length as the big-endian numbers they hold; it is
  0 exactly for equal blocks.
\<close>

lemma memcmp_order:
  assumes "length p = length q"
  shows "memcmp p q = sgn (int (be_nat p) - int (be_nat q)) \<and> (memcmp p q = 0 \<longleftrightarrow> p = q)"
  using memcmp_be_nat [OF assms] memcmp_0_iff [OF assms] by simp

lemma memcmp_order_witness: "memcmp (lit ''IPL1'') (lit ''IPL2'') = -1"
  using memcmp_order [of "lit ''IPL1''" "lit ''IPL2''"] by (simp add: lit_def)

end
