(* ===== verification/Outcome.thy ===== *)
theory Outcome
  imports Machine
begin

text \<open>
  What holds of every run, whichever hardware it meets: the extents of the state never
  change, and a run that stops, stops in a state its exit promises. The promise is the
  parameter of a locale: the theories that follow show, operation by operation, that a run
  keeps any promise which says nothing of a panic and of a model error; the hand-over to
  the loaded system has to be shown to meet it once, where it is defined.
\<close>

section \<open>The extents of the state\<close>

definition shape :: "'d machine \<Rightarrow> (buf \<Rightarrow> nat) \<times> (scr \<Rightarrow> nat) \<times> nat \<times> nat" where
  "shape s = (\<lambda>b. length (bufs s b), \<lambda>b. length (scr (io s) b), length (vrings (io s)),
     length (guest_features (vd s)))"

lemma shape_sized: "shape t = shape s \<Longrightarrow> sized s \<Longrightarrow> sized t"
  by (auto simp: shape_def sized_def fun_eq_iff)

section \<open>Contracts on outcomes\<close>

definition outcome_ok :: "(exit \<Rightarrow> 'd machine \<Rightarrow> bool) \<Rightarrow> ('d, 'a) fw \<Rightarrow> bool" where
  "outcome_ok X m \<longleftrightarrow> (\<forall>s r t. m s = Some (r, t) \<longrightarrow>
     shape t = shape s \<and> (\<forall>e. r = Stop e \<longrightarrow> X e t))"

lemma outcome_okI:
  "(\<And>s r t. m s = Some (r, t) \<Longrightarrow> shape t = shape s) \<Longrightarrow>
   (\<And>s e t. m s = Some (Stop e, t) \<Longrightarrow> X e t) \<Longrightarrow> outcome_ok X m"
  unfolding outcome_ok_def by blast

lemma outcome_ok_shape: "outcome_ok X m \<Longrightarrow> m s = Some (r, t) \<Longrightarrow> shape t = shape s"
  unfolding outcome_ok_def by blast

lemma outcome_ok_Stop: "outcome_ok X m \<Longrightarrow> m s = Some (Stop e, t) \<Longrightarrow> X e t"
  unfolding outcome_ok_def by blast

text \<open>For the loops: a run of a function that calls itself through \<open>rec\<close>.\<close>

abbreviation outcome_at :: "(exit \<Rightarrow> 'd machine \<Rightarrow> bool) \<Rightarrow> 'd machine \<Rightarrow> 'a result \<times> 'd machine \<Rightarrow> bool"
  where "outcome_at X s y \<equiv> shape (snd y) = shape s \<and> (\<forall>e. fst y = Stop e \<longrightarrow> X e (snd y))"

lemma outcome_ok_loopI: "(\<And>s y. m s = Some y \<Longrightarrow> outcome_at X s y) \<Longrightarrow> outcome_ok X m"
  by (force simp: outcome_ok_def)

lemma outcome_ok_at: "m s = Some y \<Longrightarrow> outcome_ok X m \<Longrightarrow> outcome_at X s y"
  by (cases y) (simp add: outcome_ok_def)

named_theorems outcome \<open>an operation respects a contract on outcomes\<close>

lemma outcome_ret [outcome]: "outcome_ok X (ret x)"
  by (simp add: outcome_ok_def)

lemma outcome_gets [outcome]: "outcome_ok X (gets f)"
  by (simp add: outcome_ok_def)

lemma outcome_modify [outcome]: "(\<And>s. shape (f s) = shape s) \<Longrightarrow> outcome_ok X (modify f)"
  by (simp add: outcome_ok_def)

lemma outcome_plat_op [outcome]: "outcome_ok X (plat_op f)"
  by (auto simp: outcome_ok_def plat_op_def from_plat_def shape_def split: prod.splits)

lemma outcome_dev_op [outcome]: "outcome_ok X (dev_op f)"
  by (auto simp: outcome_ok_def dev_op_def shape_def split: prod.splits)

lemma outcome_bnd [outcome]: "outcome_ok X m \<Longrightarrow> (\<And>x. outcome_ok X (f x)) \<Longrightarrow> outcome_ok X (bnd m f)"
  by (auto simp: outcome_ok_def elim!: bnd_cases)

lemma outcome_bnd_at:
  "bnd m f s = Some y \<Longrightarrow> outcome_ok X m \<Longrightarrow> (\<And>x. outcome_ok X (f x)) \<Longrightarrow> outcome_at X s y"
  by (rule outcome_ok_at [where m = "bnd m f"]) (simp_all add: outcome_bnd)

lemma outcome_whenM [outcome]: "(b \<Longrightarrow> outcome_ok X m) \<Longrightarrow> outcome_ok X (whenM b m)"
  by (simp add: whenM_def outcome_ret)

lemma outcome_if [outcome]:
  "(b \<Longrightarrow> outcome_ok X m) \<Longrightarrow> (\<not> b \<Longrightarrow> outcome_ok X n) \<Longrightarrow> outcome_ok X (if b then m else n)"
  by simp

lemma outcome_option [outcome]:
  "(x = None \<Longrightarrow> outcome_ok X m) \<Longrightarrow> (\<And>y. x = Some y \<Longrightarrow> outcome_ok X (f y)) \<Longrightarrow>
     outcome_ok X (case x of None \<Rightarrow> m | Some y \<Rightarrow> f y)"
  by (cases x) simp_all

lemma outcome_sum [outcome]:
  "(\<And>y. x = Inl y \<Longrightarrow> outcome_ok X (f y)) \<Longrightarrow> (\<And>y. x = Inr y \<Longrightarrow> outcome_ok X (g y)) \<Longrightarrow>
     outcome_ok X (case x of Inl y \<Rightarrow> f y | Inr y \<Rightarrow> g y)"
  by (cases x) simp_all

lemma outcome_prod [outcome]:
  "(\<And>a b. x = (a, b) \<Longrightarrow> outcome_ok X (f a b)) \<Longrightarrow> outcome_ok X (case x of (a, b) \<Rightarrow> f a b)"
  by (cases x) simp

lemma outcome_Let [outcome]: "(\<And>y. outcome_ok X (f y)) \<Longrightarrow> outcome_ok X (let y = x in f y)"
  by simp

section \<open>The interface\<close>

locale exit_contract =
  fixes X :: "exit \<Rightarrow> 'd machine \<Rightarrow> bool"
  assumes on_halt: "X (Halt why) t" and on_bad: "X (Bad err) t"
begin

lemma stop_halt [outcome]: "outcome_ok X (stop (Halt m))"
  by (simp add: outcome_ok_def on_halt)

lemma stop_bad [outcome]: "outcome_ok X (stop (Bad m))"
  by (simp add: outcome_ok_def on_bad)

lemma load_ok [outcome]: "outcome_ok X (load p n)"
  by (cases p) (auto simp: outcome_ok_def on_bad split: if_splits)

lemma store_ok [outcome]: "outcome_ok X (store p bs)"
  by (cases p) (auto simp: outcome_ok_def on_bad shape_def fun_eq_iff split: if_splits)

lemma load_u8_ok [outcome]: "outcome_ok X (load_u8 p)"
  unfolding load_u8_def by (intro outcome)

lemma load_u16_ok [outcome]: "outcome_ok X (load_u16 p)"
  unfolding load_u16_def by (intro outcome)

lemma load_u32_ok [outcome]: "outcome_ok X (load_u32 p)"
  unfolding load_u32_def by (intro outcome)

lemma load_u64_ok [outcome]: "outcome_ok X (load_u64 p)"
  unfolding load_u64_def by (intro outcome)

lemma memset_ok [outcome]: "outcome_ok X (memset p c n)"
  unfolding memset_def by (intro outcome)

lemma memcpy_ok [outcome]: "outcome_ok X (memcpy d p n)"
  unfolding memcpy_def by (intro outcome)

end

text \<open>Two contracts every run meets up to the hand-over.\<close>

interpretation any_exit: exit_contract "\<lambda>_ _. True"
  by unfold_locales simp_all

interpretation no_reset: exit_contract "\<lambda>e _. e \<noteq> NormalReset"
  by unfold_locales simp_all

end
