(* ===== verification/Sclp.thy ===== *)
theory Sclp
  imports Libc Outcome
begin

text \<open>
  The service-processor console (\<open>sclp.h\<close>, \<open>sclp.c\<close>) and the functions of
  \<open>s390-ccw.h\<close> that print or stop. The service call control block \<open>_sccb\<close> is the request
  block \<open>Sccb\<close>; its structs are their byte offsets.
  The service call rewrites the block in place; \<open>console_step\<close> is the traffic that
  printing adds to the state of the transport.
\<close>

section \<open>sclp.h\<close>

definition SCLP_CMDW_READ_SCP_INFO :: u32 where
  "SCLP_CMDW_READ_SCP_INFO = 0x00020001"
definition SCLP_CMD_READ_EVENT_DATA :: u32 where
  "SCLP_CMD_READ_EVENT_DATA = 0x00770005"
definition SCLP_CMD_WRITE_EVENT_DATA :: u32 where
  "SCLP_CMD_WRITE_EVENT_DATA = 0x00760005"
definition SCLP_CMD_WRITE_EVENT_MASK :: u32 where
  "SCLP_CMD_WRITE_EVENT_MASK = 0x00780005"
definition SCLP_FC_NORMAL_WRITE :: u8 where
  "SCLP_FC_NORMAL_WRITE = 0"
definition SCLP_UNCONDITIONAL_READ :: u8 where
  "SCLP_UNCONDITIONAL_READ = 0"
definition SCLP_EVENT_ASCII_CONSOLE_DATA :: u8 where
  "SCLP_EVENT_ASCII_CONSOLE_DATA = 0x1a"
definition SCLP_EVENT_MASK_MSG_ASCII :: u32 where
  "SCLP_EVENT_MASK_MSG_ASCII = 0x00000040"

abbreviation (input) SCCB_SIZE :: nat where
  "SCCB_SIZE \<equiv> 4096"

text \<open>\<open>SCCB_DATA_LEN\<close>: the block less its header of 8 bytes.\<close>

abbreviation (input) SCCB_DATA_LEN :: nat where
  "SCCB_DATA_LEN \<equiv> 4088"

text \<open>Offsets into the block: \<open>SCCBHeader\<close>, \<open>WriteEventMask\<close>, \<open>EventBufferHeader\<close>,
  \<open>WriteEventData.data\<close>, \<open>ReadInfo.loadparm\<close>.\<close>

abbreviation (input) sccb_length :: ptr where
  "sccb_length \<equiv> Scr Sccb 0"
abbreviation (input) sccb_function_code :: ptr where
  "sccb_function_code \<equiv> Scr Sccb 2"
abbreviation (input) wem_mask_length :: ptr where
  "wem_mask_length \<equiv> Scr Sccb 10"
abbreviation (input) wem_cp_receive_mask :: ptr where
  "wem_cp_receive_mask \<equiv> Scr Sccb 12"
abbreviation (input) wem_cp_send_mask :: ptr where
  "wem_cp_send_mask \<equiv> Scr Sccb 16"
abbreviation (input) ebh_length :: ptr where
  "ebh_length \<equiv> Scr Sccb 8"
abbreviation (input) ebh_type :: ptr where
  "ebh_type \<equiv> Scr Sccb 10"
abbreviation (input) ebh_flags :: ptr where
  "ebh_flags \<equiv> Scr Sccb 11"
abbreviation (input) wed_data :: "nat \<Rightarrow> ptr" where
  "wed_data i \<equiv> Scr Sccb (14 + i)"
abbreviation (input) readinfo_loadparm :: ptr where
  "readinfo_loadparm \<equiv> Scr Sccb 24"

section \<open>sclp.c\<close>

text \<open>The result is 0, \<open>-EIO\<close> or \<open>-EBUSY\<close>.\<close>

definition sclp_service_call :: "'d hw \<Rightarrow> u32 \<Rightarrow> ('d, int) fw" where
  "sclp_service_call hw command s =
     (case servc hw command (scr (io s) Sccb) (dev (io s)) of (cc, sccb, d) \<Rightarrow>
        Some (Ret (if cc = 3 then -1 else if cc = 2 then -2 else 0),
          s\<lparr>io := (io s)\<lparr>scr := (scr (io s))(Sccb := overlay sccb (scr (io s) Sccb)), dev := d\<rparr>\<rparr>))"

definition sclp_set_write_mask :: "'d hw \<Rightarrow> u32 \<Rightarrow> u32 \<Rightarrow> ('d, unit) fw" where
  "sclp_set_write_mask hw receive_mask send_mask =
     seq (store sccb_length (to_be 2 (28 :: u16)))
    (seq (store wem_mask_length (to_be 2 (4 :: u16)))
    (seq (store wem_cp_receive_mask (to_be 4 receive_mask))
    (seq (store wem_cp_send_mask (to_be 4 send_mask))
    (seq (sclp_service_call hw SCLP_CMD_WRITE_EVENT_MASK)
    (ret ())))))"

definition sclp_setup :: "'d hw \<Rightarrow> ('d, unit) fw" where
  "sclp_setup hw = sclp_set_write_mask hw 0 SCLP_EVENT_MASK_MSG_ASCII"

text \<open>
  The copying loop of \<open>write\<close>: the bytes left, \<open>i\<close> and \<open>data_len\<close>; it returns the bytes
  of the string consumed and the bytes of the block filled.
\<close>

fun write_loop :: "u8 list \<Rightarrow> nat \<Rightarrow> nat \<Rightarrow> ('d, nat \<times> nat) fw" where
  "write_loop [] i data_len = ret (i, data_len)"
| "write_loop (c # p) i data_len =
     (if data_len + 1 \<ge> SCCB_DATA_LEN then ret (i, data_len)
      else bnd (if c = 10 then seq (store (wed_data data_len) [13]) (ret (Suc data_len))
                else ret data_len)
           (\<lambda>data_len. seq (store (wed_data data_len) [c])
              (write_loop p (Suc i) (Suc data_len))))"

text \<open>The result is the number of bytes written, or \<open>-EIO\<close>.\<close>

definition sclp_write :: "'d hw \<Rightarrow> int \<Rightarrow> u8 list \<Rightarrow> ('d, int) fw" where
  "sclp_write hw fd str =
     (if fd \<noteq> 1 \<and> fd \<noteq> 2 then ret (-1)
      else bnd (write_loop str 0 0) (\<lambda>(len, data_len).
        seq (store sccb_length (to_be 2 (word_of_nat (14 + data_len) :: u16)))
       (seq (store sccb_function_code [SCLP_FC_NORMAL_WRITE])
       (seq (store ebh_length (to_be 2 (word_of_nat (6 + data_len) :: u16)))
       (seq (store ebh_type [SCLP_EVENT_ASCII_CONSOLE_DATA])
       (seq (store ebh_flags [0])
       (seq (sclp_service_call hw SCLP_CMD_WRITE_EVENT_DATA)
       (ret (int len)))))))))"

definition sclp_print :: "'d hw \<Rightarrow> u8 list \<Rightarrow> ('d, unit) fw" where
  "sclp_print hw str = seq (sclp_write hw 1 str) (ret ())"

definition sclp_get_loadparm_ascii :: "'d hw \<Rightarrow> ('d, unit) fw" where
  "sclp_get_loadparm_ascii hw =
     seq (memset (Scr Sccb 0) 0 32)
    (seq (store sccb_length (to_be 2 (word_of_nat SCCB_SIZE :: u16)))
    (bnd (sclp_service_call hw SCLP_CMDW_READ_SCP_INFO) (\<lambda>rc.
     whenM (rc = 0)
       (bnd (load readinfo_loadparm 8) (\<lambda>lp.
         modify (\<lambda>s. s\<lparr>loadparm_str := splice 0 (ebcdic_to_ascii lp) (loadparm_str s)\<rparr>))))))"

text \<open>The bytes copied to \<open>str\<close> (those at offset 7 of the event buffer), and the result.\<close>

definition sclp_read :: "'d hw \<Rightarrow> nat \<Rightarrow> ('d, u8 list \<times> int) fw" where
  "sclp_read hw count0 =
     (let count = (if count0 > SCCB_SIZE - 8 then SCCB_SIZE - 8 else count0) in
      seq (store sccb_length (to_be 2 (word_of_nat SCCB_SIZE :: u16)))
     (seq (store sccb_function_code [SCLP_UNCONDITIONAL_READ])
     (seq (sclp_service_call hw SCLP_CMD_READ_EVENT_DATA)
     (bnd (load (Scr Sccb 15) count) (\<lambda>str.
      bnd (load_u16 ebh_length) (\<lambda>len. ret (str, uint len - 7)))))))"

section \<open>Printing and stopping (s390-ccw.h)\<close>

text \<open>
  \<open>disabled_wait\<close> never returns; the model keeps the message that says why the loader
  stopped.
\<close>

definition disabled_wait :: "u8 list \<Rightarrow> ('d, 'a) fw" where
  "disabled_wait why = stop (Halt why)"

definition panic :: "'d hw \<Rightarrow> u8 list \<Rightarrow> ('d, 'a) fw" where
  "panic hw string = seq (sclp_print hw string) (disabled_wait string)"

definition IPL_assert :: "'d hw \<Rightarrow> bool \<Rightarrow> u8 list \<Rightarrow> ('d, unit) fw" where
  "IPL_assert hw b message =
     whenM (\<not> b)
       (seq (sclp_print hw (10 # lit ''! ''))
       (seq (sclp_print hw message)
       (seq (sclp_print hw (lit '' !'' @ [10])) (disabled_wait message))))"

definition IPL_check :: "'d hw \<Rightarrow> bool \<Rightarrow> u8 list \<Rightarrow> ('d, unit) fw" where
  "IPL_check hw b message =
     whenM (\<not> b)
       (seq (sclp_print hw (10 # lit ''! WARNING: ''))
       (seq (sclp_print hw message)
       (sclp_print hw (lit '' !'' @ [10]))))"

definition print_int_text :: "u64 \<Rightarrow> u8 list" where
  "print_int_text addr = fill_hex_val 4 (to_be 8 addr) (lit '': 0xffffffffffffffff'' @ [10])"

definition print_int :: "'d hw \<Rightarrow> u8 list \<Rightarrow> u64 \<Rightarrow> ('d, unit) fw" where
  "print_int hw desc addr = seq (sclp_print hw desc) (sclp_print hw (print_int_text addr))"

text \<open>\<open>uitoa\<close> with its assertions.\<close>

definition uitoa_fw :: "'d hw \<Rightarrow> u64 \<Rightarrow> u8 list \<Rightarrow> ('d, u8 list) fw" where
  "uitoa_fw hw num a = (case uitoa num (Some a) (length a) of
     Inl m \<Rightarrow> seq (IPL_assert hw False (lit m)) (ret a)
   | Inr a' \<Rightarrow> ret a')"

section \<open>What reaches the console\<close>

definition set_scr :: "scr \<Rightarrow> u8 list \<Rightarrow> 'd machine \<Rightarrow> 'd machine" where
  "set_scr b v s = s\<lparr>io := (io s)\<lparr>scr := (scr (io s))(b := v)\<rparr>\<rparr>"

lemma set_scr_simps [simp]:
  "scr (io (set_scr b v s)) = (scr (io s))(b := v)"
  "dev (io (set_scr b v s)) = dev (io s)"
  "rmem (io (set_scr b v s)) = rmem (io s)"
  "vrings (io (set_scr b v s)) = vrings (io s)"
  "mem (set_scr b v s) = mem s" "bufs (set_scr b v s) = bufs s" "vd (set_scr b v s) = vd s"
  by (simp_all add: set_scr_def)

lemma set_scr_twice [simp]: "set_scr b w (set_scr b v s) = set_scr b w s"
  by (simp add: set_scr_def)

lemma set_scr_same [simp]: "set_scr b (scr (io s) b) s = s"
  by (simp add: set_scr_def)

lemma store_Scr:
  "i + length bs \<le> length (scr (io s) b) \<Longrightarrow>
     store (Scr b i) bs s = Some (Ret (), set_scr b (splice i bs (scr (io s) b)) s)"
  by (simp add: set_scr_def)

text \<open>The console gets a carriage return before every line feed.\<close>

definition crlf :: "u8 list \<Rightarrow> u8 list" where
  "crlf str = concat (map (\<lambda>c. if c = 10 then [13, 10] else [c]) str)"

lemma crlf_simps [simp]:
  "crlf [] = []"
  "crlf (c # p) = (if c = 10 then [13, 10] else [c]) @ crlf p"
  by (simp_all add: crlf_def)

lemma length_crlf_le: "length (crlf p) \<le> 2 * length p"
  by (induction p) auto

lemma write_loop_fits:
  assumes "length (scr (io s) Sccb) = 4096" "n + length (crlf p) \<le> 4082"
  shows "write_loop p i n s = Some (Ret (i + length p, n + length (crlf p)),
           set_scr Sccb (splice (14 + n) (crlf p) (scr (io s) Sccb)) s)"
  using assms
proof (induction p arbitrary: i n s)
  case Nil
  then show ?case by (simp add: ret_def)
next
  case (Cons c p)
  show ?case
  proof (cases "c = 10")
    case True
    have "bnd (if c = 10 then seq (store (wed_data n) [13]) (ret (Suc n)) else ret n)
        (\<lambda>n. seq (store (wed_data n) [c]) (write_loop p (Suc i) (Suc n))) s =
      write_loop p (Suc i) (Suc (Suc n))
        (set_scr Sccb (splice (14 + n) [13, 10] (scr (io s) Sccb)) s)"
      using True Cons.prems splice_append [of "14 + n" "[13]" "[10]" "scr (io s) Sccb"]
      by (simp add: bnd_def store_Scr ret_def del: store.simps)
    then show ?thesis
      using True Cons splice_append [of "14 + n" "[13, 10]" "crlf p" "scr (io s) Sccb"]
      by simp
  next
    case False
    have "bnd (if c = 10 then seq (store (wed_data n) [13]) (ret (Suc n)) else ret n)
        (\<lambda>n. seq (store (wed_data n) [c]) (write_loop p (Suc i) (Suc n))) s =
      write_loop p (Suc i) (Suc n) (set_scr Sccb (splice (14 + n) [c] (scr (io s) Sccb)) s)"
      using False Cons.prems by (simp add: bnd_def store_Scr ret_def del: store.simps)
    then show ?thesis
      using False Cons splice_append [of "14 + n" "[c]" "crlf p" "scr (io s) Sccb"]
      by simp
  qed
qed

lemma write_loop_overflows:
  assumes "length (scr (io s) Sccb) = 4096" "n \<le> 4082" "4082 < n + length (crlf p)"
  shows "\<exists>t. write_loop p i n s = Some (Stop (Bad ''buffer write''), t)"
  using assms
proof (induction p arbitrary: i n s)
  case (Cons c p)
  let ?b = "scr (io s) Sccb"
  show ?case
  proof (cases "n + length (crlf [c]) \<le> 4082")
    case True
    have "\<exists>t. write_loop p (Suc i) (n + length (crlf [c]))
        (set_scr Sccb (splice (14 + n) (crlf [c]) ?b) s) = Some (Stop (Bad ''buffer write''), t)"
      using True Cons.prems by (intro Cons.IH) auto
    moreover have "write_loop (c # p) i n s = write_loop p (Suc i) (n + length (crlf [c]))
        (set_scr Sccb (splice (14 + n) (crlf [c]) ?b) s)"
      using True Cons.prems splice_append [of "14 + n" "[13]" "[10]" ?b]
      by (auto simp: bnd_def store_Scr ret_def simp del: store.simps)
    ultimately show ?thesis by simp
  next
    case False
    then have "n = 4082 \<or> c = 10 \<and> n = 4081" using Cons.prems by (auto split: if_splits)
    then show ?thesis using Cons.prems by (auto simp: bnd_def ret_def)
  qed
qed simp

text \<open>The control block \<open>write\<close> hands to the service processor for a string that fits.\<close>

definition event_block :: "u8 list \<Rightarrow> u8 list \<Rightarrow> u8 list" where
  "event_block str b =
     (let n = length (crlf str) in
      splice 11 [0] (splice 10 [SCLP_EVENT_ASCII_CONSOLE_DATA]
       (splice 8 (to_be 2 (word_of_nat (6 + n) :: u16)) (splice 2 [SCLP_FC_NORMAL_WRITE]
        (splice 0 (to_be 2 (word_of_nat (14 + n) :: u16)) (splice 14 (crlf str) b))))))"

lemma length_event_block:
  "length (crlf str) \<le> 4082 \<Longrightarrow> length b = 4096 \<Longrightarrow> length (event_block str b) = 4096"
  by (simp add: event_block_def Let_def)

lemma write_eq:
  assumes "length (scr (io s) Sccb) = 4096" "length (crlf str) \<le> 4082" "fd = 1 \<or> fd = 2"
  shows "sclp_write hw fd str s =
    bnd (sclp_service_call hw SCLP_CMD_WRITE_EVENT_DATA) (\<lambda>_. ret (int (length str)))
      (set_scr Sccb (event_block str (scr (io s) Sccb)) s)"
  using assms
  by (auto simp: sclp_write_def bnd_Ret [OF write_loop_fits] bnd_Ret [OF store_Scr] event_block_def Let_def
      simp del: store.simps)

lemma event_block_fields:
  assumes "length (crlf str) \<le> 4082" "length b = 4096"
  shows "slice 0 2 (event_block str b) = to_be 2 (word_of_nat (14 + length (crlf str)) :: u16)"
    and "slice 8 2 (event_block str b) = to_be 2 (word_of_nat (6 + length (crlf str)) :: u16)"
    and "event_block str b ! 2 = SCLP_FC_NORMAL_WRITE"
    and "event_block str b ! 10 = SCLP_EVENT_ASCII_CONSOLE_DATA"
    and "slice 14 (length (crlf str)) (event_block str b) = crlf str"
  using assms by (simp_all add: event_block_def Let_def slice_splice_other nth_splice)

section \<open>Console traffic\<close>

text \<open>\<open>console_step hw i j\<close>: the transport state \<open>j\<close> is \<open>i\<close> after service calls.\<close>

inductive console_step :: "'d hw \<Rightarrow> 'd io \<Rightarrow> 'd io \<Rightarrow> bool" for hw where
  console_refl: "console_step hw i i"
| console_call: "console_step hw i j \<Longrightarrow> length b = length (scr j Sccb) \<Longrightarrow>
    servc hw command b (dev j) = (cc, b', d) \<Longrightarrow>
    console_step hw i (j\<lparr>scr := (scr j)(Sccb := overlay b' b), dev := d\<rparr>)"

lemma console_step_trans: "console_step hw j k \<Longrightarrow> console_step hw i j \<Longrightarrow> console_step hw i k"
  by (induction rule: console_step.induct) (auto intro: console_step.intros)

lemma console_step_length: "console_step hw i j \<Longrightarrow> length (scr j Sccb) = length (scr i Sccb)"
  by (induction rule: console_step.induct) auto

lemma console_step_frame:
  "console_step hw i j \<Longrightarrow> rmem j = rmem i \<and> vrings j = vrings i \<and> (\<forall>b. b \<noteq> Sccb \<longrightarrow> scr j b = scr i b)"
  by (induction rule: console_step.induct) auto

lemma service_call_ok:
  assumes "length b = length (scr (io s) Sccb)"
  shows "\<exists>r j. sclp_service_call hw c (set_scr Sccb b s) = Some (Ret r, s\<lparr>io := j\<rparr>) \<and>
    console_step hw (io s) j"
proof -
  obtain cc b' d where sv: "servc hw c b (dev (io s)) = (cc, b', d)"
    by (cases "servc hw c b (dev (io s))") auto
  then have "console_step hw (io s) ((io s)\<lparr>scr := (scr (io s))(Sccb := overlay b' b), dev := d\<rparr>)"
    using assms by (intro console_call [OF console_refl])
  with sv show ?thesis
    by (simp add: sclp_service_call_def set_scr_def) blast
qed

lemma write_ok:
  assumes "length (scr (io s) Sccb) = 4096" "length (crlf str) \<le> 4082" "fd = 1 \<or> fd = 2"
  shows "\<exists>j. sclp_write hw fd str s = Some (Ret (int (length str)), s\<lparr>io := j\<rparr>) \<and> console_step hw (io s) j"
proof -
  have "length (event_block str (scr (io s) Sccb)) = length (scr (io s) Sccb)"
    using assms by (simp add: length_event_block)
  then obtain r j where
    "sclp_service_call hw SCLP_CMD_WRITE_EVENT_DATA (set_scr Sccb (event_block str (scr (io s) Sccb)) s)
       = Some (Ret r, s\<lparr>io := j\<rparr>)" and "console_step hw (io s) j"
    using service_call_ok by blast
  with write_eq [OF assms, of hw]
  have "sclp_write hw fd str s = Some (Ret (int (length str)), s\<lparr>io := j\<rparr>)"
    by (simp only: bnd_Ret ret_def)
  with \<open>console_step hw (io s) j\<close> show ?thesis by blast
qed

lemma sclp_print_ok:
  assumes "length (scr (io s) Sccb) = 4096" "length (crlf str) \<le> 4082"
  shows "\<exists>j. sclp_print hw str s = Some (Ret (), s\<lparr>io := j\<rparr>) \<and> console_step hw (io s) j"
proof -
  obtain j where "sclp_write hw 1 str s = Some (Ret (int (length str)), s\<lparr>io := j\<rparr>)" "console_step hw (io s) j"
    using write_ok [OF assms] by blast
  then have "sclp_print hw str s = Some (Ret (), s\<lparr>io := j\<rparr>)"
    by (simp only: sclp_print_def bnd_Ret ret_def)
  with \<open>console_step hw (io s) j\<close> show ?thesis by blast
qed

lemma sclp_printE:
  assumes "length (scr (io s) Sccb) = 4096" "length (crlf str) \<le> 4082"
  obtains j where "sclp_print hw str s = Some (Ret (), s\<lparr>io := j\<rparr>)" "console_step hw (io s) j"
    "length (scr j Sccb) = 4096"
proof -
  obtain j where "sclp_print hw str s = Some (Ret (), s\<lparr>io := j\<rparr>)" "console_step hw (io s) j"
    using sclp_print_ok [OF assms] by blast
  with that [of j] assms(1) show ?thesis by (simp add: console_step_length)
qed

lemma panic_ok:
  assumes "length (scr (io s) Sccb) = 4096" "length (crlf str) \<le> 4082"
  shows "\<exists>j. panic hw str s = Some (Stop (Halt str), s\<lparr>io := j\<rparr>) \<and> console_step hw (io s) j"
proof -
  obtain j where j: "sclp_print hw str s = Some (Ret (), s\<lparr>io := j\<rparr>)" "console_step hw (io s) j"
    using sclp_print_ok [OF assms] by blast
  then have "panic hw str s = Some (Stop (Halt str), s\<lparr>io := j\<rparr>)"
    by (simp add: panic_def bnd_def j(1) disabled_wait_def stop_def)
  with j(2) show ?thesis by blast
qed

lemma IPL_assert_fails:
  assumes "length (scr (io s) Sccb) = 4096" "length (crlf m) \<le> 4082"
  shows "\<exists>j. IPL_assert hw False m s = Some (Stop (Halt m), s\<lparr>io := j\<rparr>) \<and> console_step hw (io s) j"
proof -
  obtain i where i: "sclp_print hw (10 # lit ''! '') s = Some (Ret (), s\<lparr>io := i\<rparr>)"
      "console_step hw (io s) i" "length (scr i Sccb) = 4096"
    using sclp_printE [of s "10 # lit ''! ''"] assms(1) by (auto simp: lit_def)
  obtain j where j: "sclp_print hw m (s\<lparr>io := i\<rparr>) = Some (Ret (), s\<lparr>io := j\<rparr>)"
      "console_step hw i j" "length (scr j Sccb) = 4096"
    using sclp_printE [of "s\<lparr>io := i\<rparr>" m] assms(2) i(3) by auto
  obtain k where k: "sclp_print hw (lit '' !'' @ [10]) (s\<lparr>io := j\<rparr>) = Some (Ret (), s\<lparr>io := k\<rparr>)"
      "console_step hw j k"
    using sclp_printE [of "s\<lparr>io := j\<rparr>" "lit '' !'' @ [10]"] j(3) by (auto simp: lit_def)
  have "IPL_assert hw False m s = Some (Stop (Halt m), s\<lparr>io := k\<rparr>)"
    by (simp add: IPL_assert_def whenM_def bnd_Ret i(1) bnd_Ret j(1) bnd_Ret k(1)
        disabled_wait_def stop_def)
  with i(2) j(2) k(2) show ?thesis by (blast intro: console_step_trans)
qed

lemma IPL_assert_True [simp]: "IPL_assert hw True m = ret ()"
  by (simp add: IPL_assert_def whenM_def)

lemma IPL_check_True [simp]: "IPL_check hw True m = ret ()"
  by (simp add: IPL_check_def whenM_def)

lemma IPL_assert_Ret: "IPL_assert hw b m s = Some (Ret u, t) \<Longrightarrow> b \<and> t = s"
  by (cases b)
    (auto simp: IPL_assert_def whenM_def disabled_wait_def bnd_eq_Ret ret_def)

lemma bnd_IPL_assert [simp]:
  "bnd (IPL_assert hw b m) f s = Some (Ret y, t) \<longleftrightarrow> b \<and> f () s = Some (Ret y, t)"
  by (cases b) (auto simp: bnd_eq_Ret dest: IPL_assert_Ret)

lemma panic_Ret [simp]: "panic hw m s \<noteq> Some (Ret y, t)"
  by (simp add: panic_def disabled_wait_def bnd_eq_Ret)

section \<open>Printing keeps the sizes of the buffers\<close>

lemma sized_service_call [keeps]: "keeps sized (sclp_service_call hw c)"
  by (auto simp: keeps_def sized_def sclp_service_call_def split: prod.splits)

lemma sized_write_loop [keeps]: "keeps sized (write_loop p i n)"
  by (induction p i n rule: write_loop.induct) (auto intro!: keeps)

lemma sized_write [keeps]: "keeps sized (sclp_write hw fd str)"
  unfolding sclp_write_def by (intro keeps)

lemma sized_sclp_print [keeps]: "keeps sized (sclp_print hw str)"
  unfolding sclp_print_def by (intro keeps)

lemma sized_sclp_set_write_mask [keeps]: "keeps sized (sclp_set_write_mask hw r m)"
  unfolding sclp_set_write_mask_def by (intro keeps)

lemma sized_sclp_setup [keeps]: "keeps sized (sclp_setup hw)"
  unfolding sclp_setup_def by (intro keeps)

lemma sized_sclp_get_loadparm_ascii [keeps]: "keeps sized (sclp_get_loadparm_ascii hw)"
  unfolding sclp_get_loadparm_ascii_def by (intro keeps) simp_all

lemma sized_sclp_read [keeps]: "keeps sized (sclp_read hw n)"
  unfolding sclp_read_def by (intro keeps)

lemma keeps_disabled_wait [keeps]: "keeps I (disabled_wait m)"
  unfolding disabled_wait_def by (intro keeps)

lemma sized_panic [keeps]: "keeps sized (panic hw m)"
  unfolding panic_def by (intro keeps)

lemma sized_IPL_assert [keeps]: "keeps sized (IPL_assert hw b m)"
  unfolding IPL_assert_def by (intro keeps)

lemma sized_IPL_check [keeps]: "keeps sized (IPL_check hw b m)"
  unfolding IPL_check_def by (intro keeps)

lemma sized_print_int [keeps]: "keeps sized (print_int hw m v)"
  unfolding print_int_def by (intro keeps)

lemma sized_uitoa_fw [keeps]: "keeps sized (uitoa_fw hw n a)"
  unfolding uitoa_fw_def by (cases "uitoa n (Some a) (length a)") (auto intro!: keeps)

section \<open>Printing always ends\<close>

lemma ends_service_call [ends]: "ends (sclp_service_call hw c)"
  by (rule endsI) (auto simp: sclp_service_call_def split: prod.splits)

lemma ends_write_loop [ends]: "ends (write_loop p i n)"
  by (induction p i n rule: write_loop.induct) (auto intro!: ends)

lemma ends_write [ends]: "ends (sclp_write hw fd str)"
  unfolding sclp_write_def by (intro ends)

lemma ends_sclp_print [ends]: "ends (sclp_print hw str)"
  unfolding sclp_print_def by (intro ends)

lemma ends_sclp_set_write_mask [ends]: "ends (sclp_set_write_mask hw r m)"
  unfolding sclp_set_write_mask_def by (intro ends)

lemma ends_sclp_setup [ends]: "ends (sclp_setup hw)"
  unfolding sclp_setup_def by (intro ends)

lemma ends_sclp_get_loadparm_ascii [ends]: "ends (sclp_get_loadparm_ascii hw)"
  unfolding sclp_get_loadparm_ascii_def by (intro ends)

lemma ends_sclp_read [ends]: "ends (sclp_read hw n)"
  unfolding sclp_read_def by (intro ends)

lemma ends_disabled_wait [ends]: "ends (disabled_wait m)"
  unfolding disabled_wait_def by (intro ends)

lemma ends_panic [ends]: "ends (panic hw m)"
  unfolding panic_def by (intro ends)

lemma ends_IPL_assert [ends]: "ends (IPL_assert hw b m)"
  unfolding IPL_assert_def by (intro ends)

lemma ends_IPL_check [ends]: "ends (IPL_check hw b m)"
  unfolding IPL_check_def by (intro ends)

lemma ends_print_int [ends]: "ends (print_int hw m v)"
  unfolding print_int_def by (intro ends)

lemma ends_uitoa_fw [ends]: "ends (uitoa_fw hw n a)"
  unfolding uitoa_fw_def by (cases "uitoa n (Some a) (length a)") (auto intro!: ends)

section \<open>Hexadecimal output\<close>

definition hex2 :: "u8 \<Rightarrow> u8 list" where
  "hex2 v = [hex_digits ! unat (drop_bit 4 v AND 0xf), hex_digits ! unat (v AND 0xf)]"

definition unhex_digit :: "u8 \<Rightarrow> nat" where
  "unhex_digit c = (if isdigit c then unat c - 48 else unat c - 87)"

fun unhex :: "u8 list \<Rightarrow> nat" where
  "unhex [] = 0"
| "unhex (c # cs) = unhex_digit c * 16 ^ length cs + unhex cs"

lemma fill_hex_splice:
  "Suc off < length out \<Longrightarrow> fill_hex off v out = splice off (hex2 v) out"
  using splice_append [of off "[hex_digits ! unat (drop_bit 4 v AND 0xf)]"
      "[hex_digits ! unat (v AND 0xf)]" out]
  by (simp add: fill_hex_def hex2_def list_update_splice)

lemma fill_hex_val_splice:
  "off + 2 * length vs \<le> length out \<Longrightarrow>
     fill_hex_val off vs out = splice off (concat (map hex2 vs)) out"
proof (induction vs arbitrary: off out)
  case (Cons v vs)
  have len: "length (concat (map hex2 vs)) = 2 * length vs" for vs
    by (induction vs) (auto simp: hex2_def)
  have "length (hex2 v) = 2" by (simp add: hex2_def)
  then show ?case
    using Cons splice_append [of off "hex2 v" "concat (map hex2 vs)" out] len [of vs]
    by (simp add: fill_hex_splice)
qed simp

lemma unhex_digit_hex: "k < 16 \<Longrightarrow> unhex_digit (hex_digits ! k) = k"
proof -
  assume "k < 16"
  then have "k \<in> {0,1,2,3,4,5,6,7,8,9,10,11,12,13,14,15}" by (simp add: numeral_eq_Suc less_Suc_eq)
  then show ?thesis by (auto simp: hex_digits_def lit_def unhex_digit_def isdigit_def)
qed

lemma nibbles:
  fixes v :: u8
  shows "unat (drop_bit 4 v AND 0xf) < 16" "unat (v AND 0xf) < 16"
    "16 * unat (drop_bit 4 v AND 0xf) + unat (v AND 0xf) = unat v"
proof -
  have m: "(0xf :: u8) = mask 4" by (simp add: mask_eq_exp_minus_1)
  have lo: "unat (v AND 0xf) = unat v mod 16"
    by (simp add: m take_bit_eq_mod unsigned_take_bit_eq unat_mod flip: take_bit_eq_mask)
  have "unat (drop_bit 4 v AND 0xf) = (unat v div 16) mod 16"
    by (simp add: m take_bit_eq_mod drop_bit_eq_div unsigned_take_bit_eq unsigned_drop_bit_eq
        unat_mod unat_div flip: take_bit_eq_mask)
  also have "\<dots> = unat v div 16" using unsigned_less [of v, where ?'a = nat] by simp
  finally show "unat (drop_bit 4 v AND 0xf) < 16" "unat (v AND 0xf) < 16"
    "16 * unat (drop_bit 4 v AND 0xf) + unat (v AND 0xf) = unat v"
    using lo unsigned_less [of v, where ?'a = nat] by simp_all
qed

lemma length_hex2s [simp]: "length (concat (map hex2 vs)) = 2 * length vs"
  by (induction vs) (auto simp: hex2_def)

lemma unhex_hex2s: "unhex (concat (map hex2 vs)) = be_nat vs"
proof (induction vs)
  case (Cons v vs)
  have sq: "(16::nat) ^ (2 * n) = 256 ^ n" for n by (simp add: power_mult)
  have "unhex (hex2 v @ concat (map hex2 vs)) =
      (16 * unat (drop_bit 4 v AND 0xf) + unat (v AND 0xf)) * 256 ^ length vs + be_nat vs"
    using Cons sq [of "length vs"]
    by (simp add: hex2_def [of v] unhex_digit_hex nibbles algebra_simps)
  then show ?case by (simp add: nibbles(3))
qed simp


lemma print_int_text_split:
  "print_int_text a = lit '': 0x'' @ concat (map hex2 (to_be 8 a)) @ [10]"
proof -
  have "length (concat (map hex2 (to_be 8 a))) = 16" by simp
  then show ?thesis
    by (simp add: print_int_text_def fill_hex_val_splice splice_def lit_def)
qed

section \<open>A console for concrete runs\<close>

text \<open>Hardware whose service processor appends the text of each event to a transcript.\<close>

definition console_hw :: "u8 list hw" where
  "console_hw = no_hw\<lparr>servc := (\<lambda>command b out.
     (0, b, out @ slice 14 (unat (be (slice 0 2 b) :: u16) - 14) b))\<rparr>"

text \<open>Printing changes the transport state and nothing else.\<close>

lemma keeps_io_store [keeps]: "keeps (\<lambda>u. u\<lparr>io := j\<rparr> = v) (store (Scr b i) bs)"
  by (auto simp: keeps_def split: if_splits)

lemma keeps_io_service_call [keeps]: "keeps (\<lambda>u. u\<lparr>io := j\<rparr> = v) (sclp_service_call hw c)"
  by (auto simp: keeps_def sclp_service_call_def split: prod.splits)

lemma keeps_io_write_loop [keeps]: "keeps (\<lambda>u. u\<lparr>io := j\<rparr> = v) (write_loop p i n)"
  by (induction p i n rule: write_loop.induct) (simp_all only: write_loop.simps, (intro keeps | assumption)+)

lemma keeps_io_sclp_print [keeps]: "keeps (\<lambda>u. u\<lparr>io := j\<rparr> = v) (sclp_print hw m)"
  unfolding sclp_print_def sclp_write_def by (intro keeps)

lemma sclp_print_frame:
  assumes "sclp_print hw m s = Some (r, t)"
  obtains j where "t = s\<lparr>io := j\<rparr>"
proof -
  have "t\<lparr>io := io s\<rparr> = s" using keepsD [OF keeps_io_sclp_print [of "io s" s hw m] _ assms] by simp
  then have "t = s\<lparr>io := io t\<rparr>" by (metis machine.surjective machine.update_convs(14))
  with that show thesis by blast
qed

section \<open>Outcomes\<close>

context exit_contract begin

lemma service_call_outcome [outcome]: "outcome_ok X (sclp_service_call hw c)"
  by (auto simp: sclp_service_call_def outcome_ok_def shape_def fun_eq_iff split: prod.splits)

lemma write_loop_outcome [outcome]: "outcome_ok X (write_loop p i n)"
  by (induction p i n rule: write_loop.induct) (simp_all only: write_loop.simps, (intro outcome | assumption)+)

lemma console_outcome [outcome]:
  "outcome_ok X (sclp_set_write_mask hw r m)" "outcome_ok X (sclp_setup hw)"
  "outcome_ok X (sclp_write hw fd str)" "outcome_ok X (sclp_print hw str)"
  "outcome_ok X (sclp_read hw n)" "outcome_ok X (sclp_get_loadparm_ascii hw)"
  unfolding sclp_setup_def sclp_set_write_mask_def sclp_print_def sclp_write_def sclp_read_def
    sclp_get_loadparm_ascii_def
  by (intro outcome; simp add: shape_def)+

lemma disabled_wait_outcome [outcome]: "outcome_ok X (disabled_wait why)"
  unfolding disabled_wait_def by (intro outcome)

lemma panic_outcome [outcome]: "outcome_ok X (panic hw str)"
  unfolding panic_def by (intro outcome)

lemma messages_outcome [outcome]:
  "outcome_ok X (IPL_assert hw b msg)" "outcome_ok X (IPL_check hw b msg)"
  "outcome_ok X (print_int hw desc v)"
  unfolding IPL_assert_def IPL_check_def print_int_def by (intro outcome)+

lemma uitoa_fw_outcome [outcome]: "outcome_ok X (uitoa_fw hw num a)"
  unfolding uitoa_fw_def by (intro outcome)

end

section \<open>Properties\<close>

text \<open>
  C22: for a string that fits the control block once every line feed has its carriage return,
  \<open>write\<close> makes one service call and returns the length of the string; the block it hands
  over has the ASCII console type, the two length fields count the text, and the data area
  holds the text with the carriage returns.
\<close>

theorem write_hands_over_text:
  assumes "length (scr (io s) Sccb) = 4096" "length (crlf str) \<le> 4082" "fd = 1 \<or> fd = 2"
  shows "\<exists>b. sclp_write hw fd str s =
      bnd (sclp_service_call hw SCLP_CMD_WRITE_EVENT_DATA) (\<lambda>_. ret (int (length str))) (set_scr Sccb b s)
    \<and> length b = 4096
    \<and> slice 0 2 b = to_be 2 (word_of_nat (14 + length (crlf str)) :: u16)
    \<and> slice 8 2 b = to_be 2 (word_of_nat (6 + length (crlf str)) :: u16)
    \<and> b ! 2 = SCLP_FC_NORMAL_WRITE \<and> b ! 10 = SCLP_EVENT_ASCII_CONSOLE_DATA
    \<and> slice 14 (length (crlf str)) b = crlf str"
  using write_eq [OF assms] event_block_fields [OF assms(2,1)] length_event_block [OF assms(2,1)]
  by blast

theorem write_hands_over_text_witness:
  "\<exists>b. sclp_write console_hw 1 [72, 105, 10] (blank []) =
      bnd (sclp_service_call console_hw SCLP_CMD_WRITE_EVENT_DATA) (\<lambda>_. ret 3) (set_scr Sccb b (blank []))
    \<and> slice 14 4 b = [72, 105, 13, 10]"
proof -
  have n: "length (crlf [72, 105, 10]) = 4" "int (length [72, 105, 10 :: u8]) = 3" by simp_all
  have "length (scr (io (blank [])) Sccb) = 4096" by simp
  from write_hands_over_text [of "blank []" "[72, 105, 10]" 1 console_hw, OF this]
  show ?thesis unfolding n by auto
qed

text \<open>
  C38: the guard of \<open>write\<close> against overflowing the control block compares the length of the
  data with 4088, but the data starts at offset 14: a string that needs more than 4082 bytes
  is not truncated, the copy leaves the block.
\<close>

theorem write_overflows_sccb:
  assumes "length (scr (io s) Sccb) = 4096" "4082 < length (crlf str)" "fd = 1 \<or> fd = 2"
  shows "\<exists>t. sclp_write hw fd str s = Some (Stop (Bad ''buffer write''), t)"
proof -
  obtain t where "write_loop str 0 0 s = Some (Stop (Bad ''buffer write''), t)"
    using write_loop_overflows [of s 0 str 0] assms by auto
  then show ?thesis using assms(3) by (auto simp: sclp_write_def bnd_def)
qed

theorem write_overflows_sccb_witness:
  "\<exists>t. sclp_write console_hw 1 (replicate 4083 65) (blank []) = Some (Stop (Bad ''buffer write''), t)"
proof -
  have "crlf (replicate n 65) = replicate n 65" for n by (induction n) auto
  then show ?thesis
    using write_overflows_sccb [of "blank []" "replicate 4083 65" 1 console_hw] by simp
qed

text \<open>
  \<open>print_int\<close> shows a number as \<open>: 0x\<close>, sixteen hexadecimal digits whose value is
  the number, and a line feed.
\<close>

lemma print_int_value:
  "unhex (slice 4 16 (print_int_text addr)) = unat addr \<and>
   slice 0 4 (print_int_text addr) = lit '': 0x'' \<and> length (print_int_text addr) = 21 \<and>
   last (print_int_text addr) = 10"
proof -
  have "slice 4 16 (print_int_text addr) = concat (map hex2 (to_be 8 addr))"
    by (simp add: print_int_text_split slice_def)
  moreover have "unat addr < 256 ^ 8"
    using unsigned_less [of addr, where ?'a = nat] by simp
  ultimately have "unhex (slice 4 16 (print_int_text addr)) = unat addr"
    by (simp only: unhex_hex2s to_be_def be_nat_nat_be) simp
  then show ?thesis by (simp add: print_int_text_split slice_def)
qed

text \<open>
  An assertion that holds does nothing; one that fails always stops the loader, after
  its message went to the console and with nothing else of the state changed.
\<close>

lemma IPL_assert_stops:
  assumes "length (scr (io s) Sccb) = 4096" "length (crlf m) \<le> 4082"
  shows "(b \<longrightarrow> IPL_assert hw b m s = Some (Ret (), s)) \<and>
    (\<not> b \<longrightarrow> (\<exists>j. IPL_assert hw b m s = Some (Stop (Halt m), s\<lparr>io := j\<rparr>) \<and>
       rmem j = rmem (io s) \<and> vrings j = vrings (io s)))"
proof (cases b)
  case False
  obtain j where "IPL_assert hw False m s = Some (Stop (Halt m), s\<lparr>io := j\<rparr>)" "console_step hw (io s) j"
    using IPL_assert_fails [OF assms, of hw] by blast
  moreover from \<open>console_step hw (io s) j\<close> have "rmem j = rmem (io s)" "vrings j = vrings (io s)"
    by (simp_all add: console_step_frame)
  ultimately show ?thesis using False by (intro conjI impI exI [of _ j]) simp_all
qed (simp add: ret_def)

lemma IPL_assert_stops_witness:
  "\<exists>j. IPL_assert console_hw False (lit ''No boot device'') (blank []) =
     Some (Stop (Halt (lit ''No boot device'')), (blank [])\<lparr>io := j\<rparr>) \<and> rmem j = replicate 3 blank_ring"
  using IPL_assert_stops [of "blank []" "lit ''No boot device''" False console_hw]
  by (auto simp: lit_def)

end
