(* ===== verification/Cio.thy ===== *)
theory Cio
  imports Sclp
begin

text \<open>
  Channel I/O (\<open>cio.h\<close>, \<open>cio.c\<close>) and the clock (\<open>s390-time.h\<close>, \<open>helper.h\<close>): starting
  a channel program on a subchannel, collecting its status, retrying and reporting errors.
  The I/O instructions are the fields \<open>stsch\<close>, \<open>msch\<close>, \<open>ssch\<close>, \<open>tsch\<close> and \<open>chsc\<close> of the
  hardware. The loop of \<open>do_cio\<close> need not end (a subchannel may stay busy for ever).
\<close>

section \<open>Constants of cio.h\<close>

definition SCSW_FCTL_START_FUNC :: u16 where
  "SCSW_FCTL_START_FUNC = 0x4000"
definition SCSW_FCTL_HALT_FUNC :: u16 where
  "SCSW_FCTL_HALT_FUNC = 0x2000"
definition SCSW_FCTL_CLEAR_FUNC :: u16 where
  "SCSW_FCTL_CLEAR_FUNC = 0x1000"
definition SCSW_ACTL_RESUME_PEND :: u16 where
  "SCSW_ACTL_RESUME_PEND = 0x0800"
definition SCSW_ACTL_START_PEND :: u16 where
  "SCSW_ACTL_START_PEND = 0x0400"
definition SCSW_ACTL_HALT_PEND :: u16 where
  "SCSW_ACTL_HALT_PEND = 0x0200"
definition SCSW_ACTL_CLEAR_PEND :: u16 where
  "SCSW_ACTL_CLEAR_PEND = 0x0100"
definition SCSW_ACTL_CH_ACTIVE :: u16 where
  "SCSW_ACTL_CH_ACTIVE = 0x0080"
definition SCSW_ACTL_DEV_ACTIVE :: u16 where
  "SCSW_ACTL_DEV_ACTIVE = 0x0040"
definition SCSW_ACTL_SUSPENDED :: u16 where
  "SCSW_ACTL_SUSPENDED = 0x0020"
definition SCSW_SCTL_ALERT :: u16 where
  "SCSW_SCTL_ALERT = 0x0010"
definition SCSW_SCTL_INTERMED :: u16 where
  "SCSW_SCTL_INTERMED = 0x0008"
definition SCSW_SCTL_PRIMARY :: u16 where
  "SCSW_SCTL_PRIMARY = 0x0004"
definition SCSW_SCTL_SECONDARY :: u16 where
  "SCSW_SCTL_SECONDARY = 0x0002"
definition SCSW_SCTL_STATUS_PEND :: u16 where
  "SCSW_SCTL_STATUS_PEND = 0x0001"

definition SCSW_DSTAT_ATTN :: u8 where
  "SCSW_DSTAT_ATTN = 0x80"
definition SCSW_DSTAT_STATMOD :: u8 where
  "SCSW_DSTAT_STATMOD = 0x40"
definition SCSW_DSTAT_CUEND :: u8 where
  "SCSW_DSTAT_CUEND = 0x20"
definition SCSW_DSTAT_BUSY :: u8 where
  "SCSW_DSTAT_BUSY = 0x10"
definition SCSW_DSTAT_CHEND :: u8 where
  "SCSW_DSTAT_CHEND = 0x08"
definition SCSW_DSTAT_DEVEND :: u8 where
  "SCSW_DSTAT_DEVEND = 0x04"
definition SCSW_DSTAT_UCHK :: u8 where
  "SCSW_DSTAT_UCHK = 0x02"
definition SCSW_DSTAT_UEXCP :: u8 where
  "SCSW_DSTAT_UEXCP = 0x01"
definition SCSW_CSTAT_PCINT :: u8 where
  "SCSW_CSTAT_PCINT = 0x80"
definition SCSW_CSTAT_BADLEN :: u8 where
  "SCSW_CSTAT_BADLEN = 0x40"
definition SCSW_CSTAT_PROGCHK :: u8 where
  "SCSW_CSTAT_PROGCHK = 0x20"
definition SCSW_CSTAT_PROTCHK :: u8 where
  "SCSW_CSTAT_PROTCHK = 0x10"
definition SCSW_CSTAT_CHDCHK :: u8 where
  "SCSW_CSTAT_CHDCHK = 0x08"
definition SCSW_CSTAT_CHCCHK :: u8 where
  "SCSW_CSTAT_CHCCHK = 0x04"
definition SCSW_CSTAT_ICCHK :: u8 where
  "SCSW_CSTAT_ICCHK = 0x02"
definition SCSW_CSTAT_CHAINCHK :: u8 where
  "SCSW_CSTAT_CHAINCHK = 0x01"

definition CCW_FLAG_DC :: u8 where
  "CCW_FLAG_DC = 0x80"
definition CCW_FLAG_CC :: u8 where
  "CCW_FLAG_CC = 0x40"
definition CCW_FLAG_SLI :: u8 where
  "CCW_FLAG_SLI = 0x20"
definition CCW_FLAG_SKIP :: u8 where
  "CCW_FLAG_SKIP = 0x10"
definition CCW_FLAG_PCI :: u8 where
  "CCW_FLAG_PCI = 0x08"
definition CCW_FLAG_IDA :: u8 where
  "CCW_FLAG_IDA = 0x04"
definition CCW_FLAG_SUSPEND :: u8 where
  "CCW_FLAG_SUSPEND = 0x02"

definition CCW_CMD_READ_IPL :: u8 where
  "CCW_CMD_READ_IPL = 0x02"
definition CCW_CMD_NOOP :: u8 where
  "CCW_CMD_NOOP = 0x03"
definition CCW_CMD_BASIC_SENSE :: u8 where
  "CCW_CMD_BASIC_SENSE = 0x04"
definition CCW_CMD_TIC :: u8 where
  "CCW_CMD_TIC = 0x08"
definition CCW_CMD_SENSE_ID :: u8 where
  "CCW_CMD_SENSE_ID = 0xe4"
definition CCW_CMD_SET_VQ :: u8 where
  "CCW_CMD_SET_VQ = 0x13"
definition CCW_CMD_VDEV_RESET :: u8 where
  "CCW_CMD_VDEV_RESET = 0x33"
definition CCW_CMD_READ_FEAT :: u8 where
  "CCW_CMD_READ_FEAT = 0x12"
definition CCW_CMD_WRITE_FEAT :: u8 where
  "CCW_CMD_WRITE_FEAT = 0x11"
definition CCW_CMD_READ_CONF :: u8 where
  "CCW_CMD_READ_CONF = 0x22"
definition CCW_CMD_WRITE_CONF :: u8 where
  "CCW_CMD_WRITE_CONF = 0x21"
definition CCW_CMD_WRITE_STATUS :: u8 where
  "CCW_CMD_WRITE_STATUS = 0x31"
definition CCW_CMD_SET_IND :: u8 where
  "CCW_CMD_SET_IND = 0x43"
definition CCW_CMD_SET_CONF_IND :: u8 where
  "CCW_CMD_SET_CONF_IND = 0x53"
definition CCW_CMD_READ_VQ_CONF :: u8 where
  "CCW_CMD_READ_VQ_CONF = 0x32"
definition CCW_CMD_DASD_READ :: u8 where
  "CCW_CMD_DASD_READ = 0x06"
definition CCW_CMD_DASD_SEEK :: u8 where
  "CCW_CMD_DASD_SEEK = 0x07"
definition CCW_CMD_DASD_SEARCH_ID_EQ :: u8 where
  "CCW_CMD_DASD_SEARCH_ID_EQ = 0x31"
definition CCW_CMD_DASD_READ_MT :: u8 where
  "CCW_CMD_DASD_READ_MT = 0x86"

definition CU_TYPE_UNKNOWN :: u16 where
  "CU_TYPE_UNKNOWN = 0"
definition CU_TYPE_DASD_2107 :: u16 where
  "CU_TYPE_DASD_2107 = 0x2107"
definition CU_TYPE_VIRTIO :: u16 where
  "CU_TYPE_VIRTIO = 0x3832"
definition CU_TYPE_DASD_3990 :: u16 where
  "CU_TYPE_DASD_3990 = 0x3990"

definition SNS_STAT0_CMD_REJECT :: u8 where
  "SNS_STAT0_CMD_REJECT = 0x80"
definition SNS_STAT0_INTERVENTION_REQ :: u8 where
  "SNS_STAT0_INTERVENTION_REQ = 0x40"
definition SNS_STAT0_BUS_OUT_CHECK :: u8 where
  "SNS_STAT0_BUS_OUT_CHECK = 0x20"
definition SNS_STAT0_EQUIPMENT_CHECK :: u8 where
  "SNS_STAT0_EQUIPMENT_CHECK = 0x10"
definition SNS_STAT0_DATA_CHECK :: u8 where
  "SNS_STAT0_DATA_CHECK = 0x08"
definition SNS_STAT0_OVERRUN :: u8 where
  "SNS_STAT0_OVERRUN = 0x04"
definition SNS_STAT0_INCOMPL_DOMAIN :: u8 where
  "SNS_STAT0_INCOMPL_DOMAIN = 0x01"
definition SNS_STAT1_PERM_ERR :: u8 where
  "SNS_STAT1_PERM_ERR = 0x80"
definition SNS_STAT1_INV_TRACK_FORMAT :: u8 where
  "SNS_STAT1_INV_TRACK_FORMAT = 0x40"
definition SNS_STAT1_EOC :: u8 where
  "SNS_STAT1_EOC = 0x20"
definition SNS_STAT1_MESSAGE_TO_OPER :: u8 where
  "SNS_STAT1_MESSAGE_TO_OPER = 0x10"
definition SNS_STAT1_NO_REC_FOUND :: u8 where
  "SNS_STAT1_NO_REC_FOUND = 0x08"
definition SNS_STAT1_FILE_PROTECTED :: u8 where
  "SNS_STAT1_FILE_PROTECTED = 0x04"
definition SNS_STAT1_WRITE_INHIBITED :: u8 where
  "SNS_STAT1_WRITE_INHIBITED = 0x02"
definition SNS_STAT1_IMPRECISE_END :: u8 where
  "SNS_STAT1_IMPRECISE_END = 0x01"
definition SNS_STAT2_REQ_INH_WRITE :: u8 where
  "SNS_STAT2_REQ_INH_WRITE = 0x80"
definition SNS_STAT2_CORRECTABLE :: u8 where
  "SNS_STAT2_CORRECTABLE = 0x40"
definition SNS_STAT2_FIRST_LOG_ERR :: u8 where
  "SNS_STAT2_FIRST_LOG_ERR = 0x20"
definition SNS_STAT2_ENV_DATA_PRESENT :: u8 where
  "SNS_STAT2_ENV_DATA_PRESENT = 0x10"
definition SNS_STAT2_IMPRECISE_END :: u8 where
  "SNS_STAT2_IMPRECISE_END = 0x04"

abbreviation (input) CCW_FMT0 :: nat where
  "CCW_FMT0 \<equiv> 0"
abbreviation (input) CCW_FMT1 :: nat where
  "CCW_FMT1 \<equiv> 1"

text \<open>A flag is on.\<close>

abbreviation flag_on :: "'a::len word \<Rightarrow> 'a word \<Rightarrow> bool" where
  "flag_on w f \<equiv> w AND f \<noteq> 0"

abbreviation unit_check :: "irb \<Rightarrow> bool" where
  "unit_check i \<equiv> flag_on (dstat (irb_scsw i)) SCSW_DSTAT_UCHK"

abbreviation iface_ctrl_check :: "irb \<Rightarrow> bool" where
  "iface_ctrl_check i \<equiv> flag_on (cstat (irb_scsw i)) SCSW_CSTAT_ICCHK"

text \<open>\<open>Irb irb = {}\<close>.\<close>

definition empty_irb :: irb where
  "empty_irb = \<lparr>irb_scsw = \<lparr>ctrl = 0, scsw_cpa = 0, dstat = 0, cstat = 0\<rparr>\<rparr>"

section \<open>Clock\<close>

definition get_clock :: "'d hw \<Rightarrow> ('d, u64) fw" where
  "get_clock hw = dev_op (stck hw)"

definition get_time_ms :: "'d hw \<Rightarrow> ('d, u64) fw" where
  "get_time_ms hw = bnd (get_clock hw) (\<lambda>r. ret (drop_bit 12 r div 1000))"

definition get_time_seconds :: "'d hw \<Rightarrow> ('d, u64) fw" where
  "get_time_seconds hw = bnd (get_time_ms hw) (\<lambda>t. ret (t div 1000))"

definition yield :: "'d hw \<Rightarrow> ('d, unit) fw" where
  "yield hw = plat_op (yield_cpu hw)"

partial_function (option) sleep_loop :: "'d hw \<Rightarrow> u64 \<Rightarrow> ('d, unit) fw" where
  "sleep_loop hw target s =
     bnd (get_time_seconds hw) (\<lambda>t.
       if t < target then seq (yield hw) (\<lambda>s. sleep_loop hw target s) else ret ()) s"

definition sleep :: "'d hw \<Rightarrow> u32 \<Rightarrow> ('d, unit) fw" where
  "sleep hw seconds = bnd (get_time_seconds hw) (\<lambda>t. \<lambda>s. sleep_loop hw (t + ucast seconds) s)"

section \<open>Subchannels\<close>

text \<open>The instruction, on the page \<open>chsc_page\<close>.\<close>

definition chsc_op :: "'d hw \<Rightarrow> ('d, int) fw" where
  "chsc_op hw s = (case chsc hw (scr (io s) ChscPage) (dev (io s)) of (cc, area, d) \<Rightarrow>
     Some (Ret cc, s\<lparr>io := (io s)\<lparr>dev := d,
       scr := (scr (io s))(ChscPage := overlay area (scr (io s) ChscPage))\<rparr>\<rparr>))"

text \<open>\<open>ChscAreaSda\<close>: \<open>request.length\<close> at 0, \<open>request.code\<close> at 2, \<open>operation_code\<close> at 6,
  \<open>response.code\<close> at 1026. The result is 0 or \<open>-EIO\<close>.\<close>

definition enable_mss_facility :: "'d hw \<Rightarrow> ('d, int) fw" where
  "enable_mss_facility hw =
     seq (memset (Scr ChscPage 0) 0 4096)
    (seq (store (Scr ChscPage 0) (to_be 2 (0x0400 :: u16)))
    (seq (store (Scr ChscPage 2) (to_be 2 (0x0031 :: u16)))
    (seq (store (Scr ChscPage 6) (to_be 2 (0x2 :: u16)))
    (bnd (chsc_op hw) (\<lambda>rc.
     bnd (load_u16 (Scr ChscPage 1026)) (\<lambda>code.
     ret (if rc = 0 \<and> code = 0x0001 then 0 else -1)))))))"

definition enable_subchannel :: "'d hw \<Rightarrow> schid \<Rightarrow> ('d, unit) fw" where
  "enable_subchannel hw sch =
     bnd (dev_op (stsch hw sch)) (\<lambda>(_, schib).
     bnd (dev_op (msch hw sch (schib\<lparr>schib_pmcw := (schib_pmcw schib)\<lparr>ena := True\<rparr>\<rparr>))) (\<lambda>_.
     ret ()))"

definition irb_error :: "irb \<Rightarrow> bool" where
  "irb_error i \<longleftrightarrow> cstat (irb_scsw i) \<noteq> 0 \<or>
     dstat (irb_scsw i) \<noteq> SCSW_DSTAT_DEVEND OR SCSW_DSTAT_CHEND"

text \<open>
  \<open>tsch\<close> stores the interruption response block unless the subchannel is not operational
  (condition code 3): then the block keeps what it held.
\<close>

definition tsch_irb :: "'d hw \<Rightarrow> schid \<Rightarrow> irb \<Rightarrow> 'd plat \<Rightarrow> (int \<times> irb) \<times> 'd plat" where
  "tsch_irb hw sch irb p = (case tsch hw sch p of ((cc, i), p') \<Rightarrow> ((cc, if cc = 3 then irb else i), p'))"

lemma fst_tsch_irb [simp]: "fst (fst (tsch_irb hw sch irb p)) = fst (fst (tsch hw sch p))"
  by (simp add: tsch_irb_def split: prod.splits)

section \<open>Error reports\<close>

text \<open>
  Building a message line: \<open>strcat\<close> of each text whose flag is on. \<open>None\<close>: the line, an
  array that is not initialised before its first \<open>strcat\<close>, is left.
\<close>

fun cats :: "(bool \<times> string) list \<Rightarrow> u8 list \<Rightarrow> u8 list option" where
  "cats [] line = Some line"
| "cats ((b, str) # fs) line =
     (if b then (case strcat line (lit str @ [0]) of None \<Rightarrow> None | Some l \<Rightarrow> cats fs l)
      else cats fs line)"

definition print_cats :: "'d hw \<Rightarrow> string \<Rightarrow> (bool \<times> string) list \<Rightarrow> u8 list \<Rightarrow> ('d, u8 list) fw" where
  "print_cats hw title fs line =
     (case cats ((True, title) # fs @ [(True, [CHR 0x0a])]) line of
        None \<Rightarrow> stop (Bad ''buffer write'')
      | Some l \<Rightarrow> seq (sclp_print hw (c_str l)) (ret l))"

text \<open>\<open>SenseDataEckdDasd\<close> is the block \<open>SenseBlk\<close>.\<close>

definition print_eckd_dasd_sense_data :: "'d hw \<Rightarrow> ('d, unit) fw" where
  "print_eckd_dasd_sense_data hw =
     bnd (load (Scr SenseBlk 0) 32) (\<lambda>sd.
     let config_info = (be (slice 26 2 sd) :: u16); common_status = sd ! 0;
         status0 = sd ! 1; status1 = sd ! 2 in
     seq (sclp_print hw (if flag_on config_info 0x8000
            then lit ''Eckd Dasd Sense Data (fmt 24-bytes):'' @ [10]
            else lit ''Eckd Dasd Sense Data (fmt 32-bytes):'' @ [10]))
    (seq (print_cats hw ''    Sense Condition Flags :''
      [(flag_on common_status SNS_STAT0_CMD_REJECT, '' [Cmd-Reject]''),
       (flag_on common_status SNS_STAT0_INTERVENTION_REQ, '' [Intervention-Required]''),
       (flag_on common_status SNS_STAT0_BUS_OUT_CHECK, '' [Bus-Out-Parity-Check]''),
       (flag_on common_status SNS_STAT0_EQUIPMENT_CHECK, '' [Equipment-Check]''),
       (flag_on common_status SNS_STAT0_DATA_CHECK, '' [Data-Check]''),
       (flag_on common_status SNS_STAT0_OVERRUN, '' [Overrun]''),
       (flag_on common_status SNS_STAT0_INCOMPL_DOMAIN, '' [Incomplete-Domain]''),
       (flag_on status0 SNS_STAT1_PERM_ERR, '' [Permanent-Error]''),
       (flag_on status0 SNS_STAT1_INV_TRACK_FORMAT, '' [Invalid-Track-Fmt]''),
       (flag_on status0 SNS_STAT1_EOC, '' [End-of-Cyl]''),
       (flag_on status0 SNS_STAT1_MESSAGE_TO_OPER, '' [Operator-Msg]''),
       (flag_on status0 SNS_STAT1_NO_REC_FOUND, '' [No-Record-Found]''),
       (flag_on status0 SNS_STAT1_FILE_PROTECTED, '' [File-Protected]''),
       (flag_on status0 SNS_STAT1_WRITE_INHIBITED, '' [Write-Inhibited]''),
       (flag_on status0 SNS_STAT1_IMPRECISE_END, '' [Imprecise-Ending]''),
       (flag_on status1 SNS_STAT2_REQ_INH_WRITE, '' [Req-Inhibit-Write]''),
       (flag_on status1 SNS_STAT2_CORRECTABLE, '' [Correctable-Data-Check]''),
       (flag_on status1 SNS_STAT2_FIRST_LOG_ERR, '' [First-Error-Log]''),
       (flag_on status1 SNS_STAT2_ENV_DATA_PRESENT, '' [Env-Data-Present]''),
       (flag_on status1 SNS_STAT2_IMPRECISE_END, '' [Imprecise-End]'')]
      (junk hw 512))
    (seq (print_int hw (lit ''    Residual Count     ='') (ucast (sd ! 3)))
    (seq (print_int hw (lit ''    Phys Drive ID      ='') (ucast (sd ! 4)))
    (seq (print_int hw (lit ''    low cyl address    ='') (ucast (sd ! 5)))
    (seq (print_int hw (lit ''    head addr & hi cyl ='') (ucast (sd ! 6)))
    (seq (print_int hw (lit ''    format/message     ='') (ucast (sd ! 7)))
    (seq (print_int hw (lit ''    fmt-dependent[0-7] ='') (be (slice 8 8 sd)))
    (seq (print_int hw (lit ''    fmt-dependent[8-15]='') (be (slice 16 8 sd)))
    (seq (print_int hw (lit ''    prog action code   ='') (ucast (sd ! 25)))
    (seq (print_int hw (lit ''    Configuration info ='') (ucast config_info))
    (seq (print_int hw (lit ''    mcode / hi-cyl     ='') (ucast (sd ! 28)))
    (seq (print_int hw (lit ''    cyl & head addr [0]='') (ucast (sd ! 29)))
    (seq (print_int hw (lit ''    cyl & head addr [1]='') (ucast (sd ! 30)))
    (print_int hw (lit ''    cyl & head addr [2]='') (ucast (sd ! 31)))))))))))))))))"

text \<open>\<open>msgline[0] = 0\<close> before a new line.\<close>

definition reset_line :: "u8 list \<Rightarrow> u8 list" where
  "reset_line line = line[0 := 0]"

definition print_irb_err :: "'d hw \<Rightarrow> irb \<Rightarrow> ('d, unit) fw" where
  "print_irb_err hw i =
     (let w = irb_scsw i; c = ctrl w; ds = dstat w; cs = cstat w in
     bnd (load_u64 (Phys (ucast (scsw_cpa w)))) (\<lambda>this_ccw.
     bnd (load_u64 (Phys (ucast (scsw_cpa w - 8)))) (\<lambda>prev_ccw.
     seq (sclp_print hw (lit ''Interrupt Response Block Data:'' @ [10]))
    (bnd (print_cats hw ''    Function Ctrl :''
      [(flag_on c SCSW_FCTL_START_FUNC, '' [Start]''),
       (flag_on c SCSW_FCTL_HALT_FUNC, '' [Halt]''),
       (flag_on c SCSW_FCTL_CLEAR_FUNC, '' [Clear]'')] (junk hw 256)) (\<lambda>line.
     bnd (print_cats hw ''    Activity Ctrl :''
      [(flag_on c SCSW_ACTL_RESUME_PEND, '' [Resume-Pending]''),
       (flag_on c SCSW_ACTL_START_PEND, '' [Start-Pending]''),
       (flag_on c SCSW_ACTL_HALT_PEND, '' [Halt-Pending]''),
       (flag_on c SCSW_ACTL_CLEAR_PEND, '' [Clear-Pending]''),
       (flag_on c SCSW_ACTL_CH_ACTIVE, '' [Channel-Active]''),
       (flag_on c SCSW_ACTL_DEV_ACTIVE, '' [Device-Active]''),
       (flag_on c SCSW_ACTL_SUSPENDED, '' [Suspended]'')] (reset_line line)) (\<lambda>line.
     bnd (print_cats hw ''    Status Ctrl :''
      [(flag_on c SCSW_SCTL_ALERT, '' [Alert]''),
       (flag_on c SCSW_SCTL_INTERMED, '' [Intermediate]''),
       (flag_on c SCSW_SCTL_PRIMARY, '' [Primary]''),
       (flag_on c SCSW_SCTL_SECONDARY, '' [Secondary]''),
       (flag_on c SCSW_SCTL_STATUS_PEND, '' [Status-Pending]'')] (reset_line line)) (\<lambda>line.
     bnd (print_cats hw ''    Device Status :''
      [(flag_on ds SCSW_DSTAT_ATTN, '' [Attention]''),
       (flag_on ds SCSW_DSTAT_STATMOD, '' [Status-Modifier]''),
       (flag_on ds SCSW_DSTAT_CUEND, '' [Ctrl-Unit-End]''),
       (flag_on ds SCSW_DSTAT_BUSY, '' [Busy]''),
       (flag_on ds SCSW_DSTAT_CHEND, '' [Channel-End]''),
       (flag_on ds SCSW_DSTAT_DEVEND, '' [Device-End]''),
       (flag_on ds SCSW_DSTAT_UCHK, '' [Unit-Check]''),
       (flag_on ds SCSW_DSTAT_UEXCP, '' [Unit-Exception]'')] (reset_line line)) (\<lambda>line.
     bnd (print_cats hw ''    Channel Status :''
      [(flag_on cs SCSW_CSTAT_PCINT, '' [Program-Ctrl-Interruption]''),
       (flag_on cs SCSW_CSTAT_BADLEN, '' [Incorrect-Length]''),
       (flag_on cs SCSW_CSTAT_PROGCHK, '' [Program-Check]''),
       (flag_on cs SCSW_CSTAT_PROTCHK, '' [Protection-Check]''),
       (flag_on cs SCSW_CSTAT_CHDCHK, '' [Channel-Data-Check]''),
       (flag_on cs SCSW_CSTAT_CHCCHK, '' [Channel-Ctrl-Check]''),
       (flag_on cs SCSW_CSTAT_ICCHK, '' [Interface-Ctrl-Check]''),
       (flag_on cs SCSW_CSTAT_CHAINCHK, '' [Chaining-Check]'')] (reset_line line)) (\<lambda>_.
     seq (print_int hw (lit ''    cpa='') (ucast (scsw_cpa w)))
    (seq (print_int hw (lit ''    prev_ccw='') prev_ccw)
    (print_int hw (lit ''    this_ccw='') this_ccw)))))))))))"

section \<open>Running channel programs\<close>

text \<open>
  \<open>__do_cio\<close>. The channel program address is checked in format 0 only, where every caller
  passes an absolute address. The second component is the interruption response block as
  the call leaves it.
\<close>

definition do_cio_once :: "'d hw \<Rightarrow> schid \<Rightarrow> cpa \<Rightarrow> nat \<Rightarrow> irb \<Rightarrow> ('d, int \<times> irb) fw" where
  "do_cio_once hw sch ccw_addr fmt irb =
     (let orb = \<lparr>orb_fmt = fmt, orb_pfch = True, orb_c64 = True, orb_lpm = 0xFF, orb_cpa = ccw_addr\<rparr> in
     seq (IPL_assert hw (fmt = 0 \<or> fmt = 1) (lit ''Invalid ccw format''))
    (seq (whenM (fmt = 0)
       (IPL_assert hw (case ccw_addr of CcwAddr a \<Rightarrow> a \<le> 0xFFFFFF - 8 | Ccw1At _ \<Rightarrow> True)
          (lit ''Invalid ccw address'')))
    (bnd (plat_op (ssch hw sch orb)) (\<lambda>rc.
     if rc = 1 \<or> rc = 2 then bnd (plat_op (tsch_irb hw sch irb)) (\<lambda>(_, irb). ret (-1, irb))
     else if rc \<noteq> 0 then seq (print_int hw (lit ''ssch failed with cc='') (word_of_int rc)) (ret (rc, irb))
     else seq (plat_op (consume_io_int hw))
      (bnd (plat_op (tsch_irb hw sch irb)) (\<lambda>(rc, irb).
       seq (whenM (rc \<noteq> 0) (print_int hw (lit ''tsch failed with cc='') (word_of_int rc)))
      (ret (rc, irb))))))))"

definition basic_sense :: "'d hw \<Rightarrow> schid \<Rightarrow> u16 \<Rightarrow> ptr \<Rightarrow> u16 \<Rightarrow> ('d, int) fw" where
  "basic_sense hw sch cutype sense_data data_size =
     bnd (do_cio_once hw sch (Ccw1At \<lparr>cmd_code = CCW_CMD_BASIC_SENSE, ccw_flags = 0,
        ccw_count = data_size, cda = sense_data\<rparr>) CCW_FMT1 empty_irb) (\<lambda>(rc, _). ret rc)"

text \<open>What \<open>do_cio\<close> prints before it gives up.\<close>

definition report_cio_error :: "'d hw \<Rightarrow> schid \<Rightarrow> u16 \<Rightarrow> irb \<Rightarrow> ('d, unit) fw" where
  "report_cio_error hw sch cutype irb =
     seq (sclp_print hw (lit ''cio device error'' @ [10]))
    (seq (print_int hw (lit ''  ssid  '') (ucast (ssid sch)))
    (seq (print_int hw (lit ''  cssid '') (ucast (cssid sch)))
    (seq (print_int hw (lit ''  sch_no'') (ucast (sch_no sch)))
    (seq (print_int hw (lit ''  ctrl-unit type'') (ucast cutype))
    (seq (sclp_print hw [10])
    (seq (print_irb_err hw irb)
    (whenM (cutype = CU_TYPE_DASD_3990 \<or> cutype = CU_TYPE_DASD_2107 \<or> cutype = CU_TYPE_UNKNOWN)
       (bnd (basic_sense hw sch cutype (Scr SenseBlk 0) 32) (\<lambda>rc.
        whenM (rc = 0) (print_eckd_dasd_sense_data hw))))))))))"

partial_function (option) do_cio_loop ::
    "'d hw \<Rightarrow> schid \<Rightarrow> u16 \<Rightarrow> cpa \<Rightarrow> nat \<Rightarrow> irb \<Rightarrow> nat \<Rightarrow> ('d, int) fw" where
  "do_cio_loop hw sch cutype ccw_addr fmt irb retries s =
     bnd (do_cio_once hw sch ccw_addr fmt irb) (\<lambda>x.
       if fst x = -1 then (\<lambda>s. do_cio_loop hw sch cutype ccw_addr fmt (snd x) (Suc retries) s)
       else if fst x \<noteq> 0 then ret (fst x)
       else if \<not> irb_error (snd x) then ret (fst x)
       else if (unit_check (snd x) \<or> iface_ctrl_check (snd x)) \<and> retries \<le> 2
       then seq (if unit_check (snd x)
                 then seq (basic_sense hw sch cutype (Scr SenseBlk 0) 32) (ret ()) else ret ())
              (\<lambda>s. do_cio_loop hw sch cutype ccw_addr fmt (snd x) (Suc retries) s)
       else seq (report_cio_error hw sch cutype (snd x)) (ret (-1))) s"

definition do_cio :: "'d hw \<Rightarrow> schid \<Rightarrow> u16 \<Rightarrow> cpa \<Rightarrow> nat \<Rightarrow> ('d, int) fw" where
  "do_cio hw sch cutype ccw_addr fmt s = do_cio_loop hw sch cutype ccw_addr fmt empty_irb 0 s"

text \<open>\<open>cu_type\<close>: the field \<open>cu_type\<close> of the answer to SENSE ID.\<close>

definition cu_type :: "'d hw \<Rightarrow> schid \<Rightarrow> ('d, u16) fw" where
  "cu_type hw sch =
     bnd (do_cio hw sch CU_TYPE_UNKNOWN (Ccw1At \<lparr>cmd_code = CCW_CMD_SENSE_ID, ccw_flags = CCW_FLAG_SLI,
        ccw_count = 256, cda = Scr SenseIdBlk 0\<rparr>) CCW_FMT1) (\<lambda>rc.
     if rc \<noteq> 0 then panic hw (lit ''Failed to run SenseID CCw'' @ [10])
     else load_u16 (Scr SenseIdBlk 1))"


section \<open>Sizes of buffers, and operations that always end\<close>

lemma sized_chsc_op [keeps]: "keeps sized (chsc_op hw)"
  by (auto simp: chsc_op_def keeps_def sized_def split: prod.splits)

lemma ends_chsc_op [ends]: "ends (chsc_op hw)"
  by (auto simp: chsc_op_def ends_def split: prod.splits)

lemma sized_enable_mss_facility [keeps]: "keeps sized (enable_mss_facility hw)"
  unfolding enable_mss_facility_def by (intro keeps)

lemma ends_enable_mss_facility [ends]: "ends (enable_mss_facility hw)"
  unfolding enable_mss_facility_def by (intro ends)

lemma sized_get_clock [keeps]: "keeps sized (get_clock hw)"
  unfolding get_clock_def by (intro keeps)

lemma ends_get_clock [ends]: "ends (get_clock hw)"
  unfolding get_clock_def by (intro ends)

lemma sized_get_time_ms [keeps]: "keeps sized (get_time_ms hw)"
  unfolding get_time_ms_def by (intro keeps)

lemma ends_get_time_ms [ends]: "ends (get_time_ms hw)"
  unfolding get_time_ms_def by (intro ends)

lemma sized_get_time_seconds [keeps]: "keeps sized (get_time_seconds hw)"
  unfolding get_time_seconds_def by (intro keeps)

lemma ends_get_time_seconds [ends]: "ends (get_time_seconds hw)"
  unfolding get_time_seconds_def by (intro ends)

lemma sized_yield [keeps]: "keeps sized (yield hw)"
  unfolding yield_def by (intro keeps)

lemma ends_yield [ends]: "ends (yield hw)"
  unfolding yield_def by (intro ends)

lemma sized_enable_subchannel [keeps]: "keeps sized (enable_subchannel hw sch)"
  unfolding enable_subchannel_def by (intro keeps)

lemma ends_enable_subchannel [ends]: "ends (enable_subchannel hw sch)"
  unfolding enable_subchannel_def by (intro ends)

lemma sized_print_cats [keeps]: "keeps sized (print_cats hw ti fs line)"
  unfolding print_cats_def by (intro keeps)

lemma ends_print_cats [ends]: "ends (print_cats hw ti fs line)"
  unfolding print_cats_def by (intro ends)

lemma sized_print_eckd_dasd_sense_data [keeps]: "keeps sized (print_eckd_dasd_sense_data hw)"
  unfolding print_eckd_dasd_sense_data_def by (intro keeps)

lemma ends_print_eckd_dasd_sense_data [ends]: "ends (print_eckd_dasd_sense_data hw)"
  unfolding print_eckd_dasd_sense_data_def by (intro ends)

lemma sized_print_irb_err [keeps]: "keeps sized (print_irb_err hw i)"
  unfolding print_irb_err_def by (intro keeps)

lemma ends_print_irb_err [ends]: "ends (print_irb_err hw i)"
  unfolding print_irb_err_def by (intro ends)

lemma sized_do_cio_once [keeps]: "keeps sized (do_cio_once hw sch a fmt i)"
  unfolding do_cio_once_def by (intro keeps)

lemma ends_do_cio_once [ends]: "ends (do_cio_once hw sch a fmt i)"
  unfolding do_cio_once_def by (intro ends)

lemma sized_basic_sense [keeps]: "keeps sized (basic_sense hw sch c p n)"
  unfolding basic_sense_def by (intro keeps)

lemma ends_basic_sense [ends]: "ends (basic_sense hw sch c p n)"
  unfolding basic_sense_def by (intro ends)

lemma sized_report_cio_error [keeps]: "keeps sized (report_cio_error hw sch c i)"
  unfolding report_cio_error_def by (intro keeps)

lemma ends_report_cio_error [ends]: "ends (report_cio_error hw sch c i)"
  unfolding report_cio_error_def by (intro ends)

lemma keeps_loopI:
  "(\<And>s y. m s = Some y \<Longrightarrow> I s \<longrightarrow> I (snd y)) \<Longrightarrow> keeps I m"
  by (force simp: keeps_def)

lemma sized_sleep_loop [keeps]: "keeps sized (sleep_loop hw target)"
proof (rule keeps_loopI)
  fix s y
  assume "sleep_loop hw target s = Some y"
  then show "sized s \<longrightarrow> sized (snd y)"
  proof (rule sleep_loop.raw_induct [rotated, of _ _ _ _ "\<lambda>hw target s y. sized s \<longrightarrow> sized (snd y)"], goal_cases)
    case (1 rec hw target s y)
    have "keeps sized (rec hw target)" by (rule keeps_loopI) (rule 1(1))
    then have "keeps sized (bnd (get_time_seconds hw)
        (\<lambda>t. if t < target then seq (yield hw) (rec hw target) else ret ()))"
      by (intro keeps)
    with 1(2) show ?case by (cases y) (auto simp: keeps_def)
  qed
qed

lemma sized_sleep [keeps]: "keeps sized (sleep hw n)"
  unfolding sleep_def by (intro keeps)

lemma sized_do_cio_loop [keeps]: "keeps sized (do_cio_loop hw sch cutype a fmt irb n)"
proof (rule keeps_loopI)
  fix s y
  assume "do_cio_loop hw sch cutype a fmt irb n s = Some y"
  then show "sized s \<longrightarrow> sized (snd y)"
  proof (rule do_cio_loop.raw_induct [rotated, of _ _ _ _ _ _ _ _ _
        "\<lambda>hw sch cutype a fmt irb n s y. sized s \<longrightarrow> sized (snd y)"], goal_cases)
    case (1 rec hw sch cutype a fmt irb n s y)
    have "keeps sized (rec hw sch cutype a fmt irb n)" for irb n
      by (rule keeps_loopI) (rule 1(1))
    then have "keeps sized (bnd (do_cio_once hw sch a fmt irb) (\<lambda>x.
       if fst x = -1 then rec hw sch cutype a fmt (snd x) (Suc n)
       else if fst x \<noteq> 0 then ret (fst x)
       else if \<not> irb_error (snd x) then ret (fst x)
       else if (unit_check (snd x) \<or> iface_ctrl_check (snd x)) \<and> n \<le> 2
       then seq (if unit_check (snd x)
                 then seq (basic_sense hw sch cutype (Scr SenseBlk 0) 32) (ret ()) else ret ())
              (rec hw sch cutype a fmt (snd x) (Suc n))
       else seq (report_cio_error hw sch cutype (snd x)) (ret (-1))))"
      by (intro keeps)
    with 1(2) show ?case by (cases y) (auto simp: keeps_def)
  qed
qed

lemma sized_do_cio [keeps]: "keeps sized (do_cio hw sch cutype a fmt)"
  using sized_do_cio_loop [of hw sch cutype a fmt empty_irb 0] by (simp add: keeps_def do_cio_def)

lemma sized_cu_type [keeps]: "keeps sized (cu_type hw sch)"
  unfolding cu_type_def by (intro keeps)

section \<open>Outcomes\<close>

context exit_contract begin

lemma time_outcome [outcome]:
  "outcome_ok X (get_clock hw)" "outcome_ok X (get_time_ms hw)" "outcome_ok X (get_time_seconds hw)"
  "outcome_ok X (yield hw)"
  unfolding get_time_seconds_def get_time_ms_def get_clock_def yield_def by (intro outcome)+

lemma sleep_loop_outcome [outcome]: "outcome_ok X (sleep_loop hw target)"
proof (rule outcome_ok_loopI)
  fix s y
  assume "sleep_loop hw target s = Some y"
  then show "outcome_at X s y"
  proof (rule sleep_loop.raw_induct [rotated, of _ _ _ _ "\<lambda>hw target. outcome_at X"], goal_cases)
    case (1 rec hw target s y)
    have rec: "outcome_ok X (rec hw target)" for hw target by (rule outcome_ok_loopI) (rule 1(1))
    show ?case using 1(2) by (rule outcome_bnd_at) (intro outcome rec)+
  qed
qed

lemma sleep_outcome [outcome]: "outcome_ok X (sleep hw n)"
  unfolding sleep_def by (intro outcome)

lemma chsc_op_outcome [outcome]: "outcome_ok X (chsc_op hw)"
  by (auto simp: chsc_op_def outcome_ok_def shape_def fun_eq_iff split: prod.splits)

lemma subchannel_outcome [outcome]:
  "outcome_ok X (enable_mss_facility hw)" "outcome_ok X (enable_subchannel hw sch)"
  "outcome_ok X (do_cio_once hw sch a fmt irb)" "outcome_ok X (basic_sense hw sch ct p n)"
  unfolding enable_mss_facility_def enable_subchannel_def basic_sense_def do_cio_once_def
  by (intro outcome)+

lemma report_outcome [outcome]:
  "outcome_ok X (print_cats hw ti fs line)" "outcome_ok X (print_eckd_dasd_sense_data hw)"
  "outcome_ok X (print_irb_err hw irb)" "outcome_ok X (report_cio_error hw sch ct irb)"
  unfolding report_cio_error_def print_irb_err_def print_eckd_dasd_sense_data_def print_cats_def
  by (intro outcome)+

lemma do_cio_loop_outcome [outcome]: "outcome_ok X (do_cio_loop hw sch ct a fmt irb n)"
proof (rule outcome_ok_loopI)
  fix s y
  assume "do_cio_loop hw sch ct a fmt irb n s = Some y"
  then show "outcome_at X s y"
  proof (rule do_cio_loop.raw_induct [rotated, of _ _ _ _ _ _ _ _ _
        "\<lambda>hw sch ct a fmt irb n. outcome_at X"], goal_cases)
    case (1 rec hw sch ct a fmt irb n s y)
    have rec: "outcome_ok X (rec hw sch ct a fmt irb n)" for hw sch ct a fmt irb n
      by (rule outcome_ok_loopI) (rule 1(1))
    show ?case using 1(2) by (rule outcome_bnd_at) (intro outcome rec)+
  qed
qed

lemma do_cio_outcome [outcome]:
  "outcome_ok X (do_cio hw sch ct a fmt)" "outcome_ok X (cu_type hw sch)"
proof -
  show c: "outcome_ok X (do_cio hw sch ct a fmt)" for ct a fmt
    using do_cio_loop_outcome [of hw sch ct a fmt empty_irb 0] by (simp add: outcome_ok_def do_cio_def)
  show "outcome_ok X (cu_type hw sch)"
    unfolding cu_type_def by (intro outcome c)
qed

end

section \<open>Message lines\<close>

lemma cats_text:
  assumes "0 \<in> set line" "\<And>b str. (b, str) \<in> set fs \<Longrightarrow> 0 \<notin> set (lit str)"
    and "length (c_str line) + length (concat (map snd (filter fst fs))) < length line"
  shows "\<exists>l. cats fs line = Some l \<and> length l = length line \<and>
    c_str l = c_str line @ lit (concat (map snd (filter fst fs)))"
  using assms
proof (induction fs arbitrary: line)
  case (Cons f fs)
  obtain b str where f: "f = (b, str)" by (cases f)
  show ?case
  proof (cases b)
    case True
    then obtain d where d: "strcat line (lit str @ [0]) = Some d" "c_str d = c_str line @ lit str"
        "length d = length line" "0 \<in> set d"
      using strcat_text [of line "lit str"] Cons.prems f by force
    then have "\<exists>l. cats fs d = Some l \<and> length l = length d \<and>
        c_str l = c_str d @ lit (concat (map snd (filter fst fs)))"
      using Cons.prems True f by (intro Cons.IH) auto
    with d True f show ?thesis by (auto simp: lit_def)
  next
    case False
    then show ?thesis using Cons f by auto
  qed
qed (simp add: lit_def)

section \<open>Retrying\<close>

text \<open>Where the condition code of an attempt comes from.\<close>

abbreviation (input) orb_of :: "cpa \<Rightarrow> nat \<Rightarrow> cmd_orb" where
  "orb_of a fmt \<equiv> \<lparr>orb_fmt = fmt, orb_pfch = True, orb_c64 = True, orb_lpm = 0xFF, orb_cpa = a\<rparr>"

lemma do_cio_once_start:
  assumes "do_cio_once hw sch a fmt irb s = Some (Ret x, t)"
  shows "bnd (plat_op (ssch hw sch (orb_of a fmt))) (\<lambda>rc.
     if rc = 1 \<or> rc = 2 then bnd (plat_op (tsch_irb hw sch irb)) (\<lambda>(_, irb). ret (-1, irb))
     else if rc \<noteq> 0 then seq (print_int hw (lit ''ssch failed with cc='') (word_of_int rc)) (ret (rc, irb))
     else seq (plat_op (consume_io_int hw))
      (bnd (plat_op (tsch_irb hw sch irb)) (\<lambda>(rc, irb).
       seq (whenM (rc \<noteq> 0) (print_int hw (lit ''tsch failed with cc='') (word_of_int rc)))
      (ret (rc, irb))))) s = Some (Ret x, t)"
  using assms by (cases "fmt = 0") (auto simp: do_cio_once_def Let_def)

lemma do_cio_once_Ret:
  assumes "do_cio_once hw sch a fmt irb s = Some (Ret x, t)"
  shows "let c = fst (ssch hw sch (orb_of a fmt) (to_plat s)) in
    (c = 1 \<or> c = 2) \<and> fst x = -1 \<or> c \<notin> {0, 1, 2} \<and> fst x = c \<or>
    c = 0 \<and> (\<exists>u. x = fst (tsch_irb hw sch irb (to_plat u)))"
  using do_cio_once_start [OF assms]
  by (auto simp: bnd_plat_op Let_def bnd_eq_Ret plat_op_eq split: if_splits prod.splits) (metis)+

text \<open>A subchannel that is never busy or status pending: no attempt asks for a retry.\<close>

lemma do_cio_once_no_retry:
  assumes ssch: "\<And>q p. fst (ssch hw sch q p) \<in> {0, 3}"
    and tsch: "\<And>p. fst (fst (tsch hw sch p)) \<in> {0, 1, 3}"
    and "do_cio_once hw sch a fmt irb s = Some (Ret x, t)"
  shows "fst x \<noteq> -1"
proof -
  have "fst (fst (tsch hw sch p)) \<noteq> -1" for p using tsch [of p] by auto
  then show ?thesis
    using do_cio_once_Ret [OF assms(3)] ssch [of "orb_of a fmt" "to_plat s"] by (auto simp: Let_def)
qed

lemma do_cio_loop_ends:
  assumes "\<And>q p. fst (ssch hw sch q p) \<in> {0, 3}" "\<And>p. fst (fst (tsch hw sch p)) \<in> {0, 1, 3}"
  shows "ends (do_cio_loop hw sch cutype a fmt irb n)"
proof (induction "3 - n" arbitrary: irb n rule: less_induct)
  case less
  have rec: "ends (do_cio_loop hw sch cutype a fmt i (Suc n))" if "n \<le> 2" for i
    using that by (intro less) simp
  have "ends (bnd (do_cio_once hw sch a fmt irb) (\<lambda>x.
       if fst x = -1 then do_cio_loop hw sch cutype a fmt (snd x) (Suc n)
       else if fst x \<noteq> 0 then ret (fst x)
       else if \<not> irb_error (snd x) then ret (fst x)
       else if (unit_check (snd x) \<or> iface_ctrl_check (snd x)) \<and> n \<le> 2
       then seq (if unit_check (snd x)
                 then seq (basic_sense hw sch cutype (Scr SenseBlk 0) 32) (ret ()) else ret ())
              (do_cio_loop hw sch cutype a fmt (snd x) (Suc n))
       else seq (report_cio_error hw sch cutype (snd x)) (ret (-1))))"
    using do_cio_once_no_retry [OF assms, of a fmt irb]
    by (intro ends_bnd_Ret [OF ends_do_cio_once] ends rec) auto
  then show ?case by (simp add: ends_def do_cio_loop.simps [of hw sch cutype a fmt irb n])
qed

text \<open>A subchannel that stays busy: every attempt asks for a retry.\<close>

lemma do_cio_once_busy:
  assumes "fst (ssch hw sch (orb_of a CCW_FMT1) (to_plat s)) \<in> {1, 2}"
  shows "\<exists>i t. do_cio_once hw sch a CCW_FMT1 irb s = Some (Ret (-1, i), t)"
  using assms
  by (auto simp: do_cio_once_def Let_def bnd_plat_op ret_def split: prod.splits)

lemma do_cio_loop_busy:
  assumes "\<And>q p. fst (ssch hw sch q p) \<in> {1, 2}"
  shows "do_cio_loop hw sch cutype a CCW_FMT1 irb n s = None"
proof (rule ccontr)
  assume "do_cio_loop hw sch cutype a CCW_FMT1 irb n s \<noteq> None"
  then obtain y where "do_cio_loop hw sch cutype a CCW_FMT1 irb n s = Some y" by blast
  then have "hw = hw \<and> sch = sch \<and> CCW_FMT1 = 1 \<longrightarrow> False"
  proof (rule do_cio_loop.raw_induct [rotated, of _ _ _ _ _ _ _ _ _
        "\<lambda>hw' sch' cutype a fmt irb n s y. hw' = hw \<and> sch' = sch \<and> fmt = 1 \<longrightarrow> False"], goal_cases)
    case (1 rec hw' sch' cutype a fmt irb n s y)
    show ?case
    proof
      assume eq: "hw' = hw \<and> sch' = sch \<and> fmt = 1"
      then obtain i t where "do_cio_once hw' sch' a fmt irb s = Some (Ret (-1, i), t)"
        using do_cio_once_busy [of hw sch a s irb] assms by auto
      with 1(2) have "rec hw' sch' cutype a fmt i (Suc n) t = Some y" by (simp add: bnd_def)
      from 1(1) [OF this] eq show False by simp
    qed
  qed
  then show False by simp
qed

section \<open>Properties\<close>


text \<open>A subchannel whose programs end normally at once.\<close>

definition prompt_hw :: "u8 list hw" where
  "prompt_hw = console_hw\<lparr>ssch := (\<lambda>_ _ p. (0, p)),
     tsch := (\<lambda>_ p. ((0, \<lparr>irb_scsw = \<lparr>ctrl = 0, scsw_cpa = 0, dstat = 0x0c, cstat = 0\<rparr>\<rparr>), p))\<rparr>"






text \<open>
  A message line of the error reports is what the line held before, then the texts
  whose flags are on. The first line of each report is built in an array that is not
  initialised, so that what the stack held is printed before the message.
\<close>

lemma report_line_text:
  assumes "0 \<in> set line" "\<forall>(b, str) \<in> set fs. 0 \<notin> set (lit str)"
    and "length (c_str line) + length (concat (map snd (filter fst fs))) < length line"
  shows "\<exists>l. cats fs line = Some l \<and> length l = length line \<and>
    c_str l = c_str line @ lit (concat (map snd (filter fst fs)))"
  using assms by (intro cats_text) auto

lemma report_line_text_witness:
  "\<exists>l. cats [(True, ''Status :''), (False, '' [Busy]''), (True, '' [Halt]'')] (lit ''junk'' @ replicate 60 0)
      = Some l \<and> c_str l = lit ''junkStatus : [Halt]''"
  using report_line_text [of "lit ''junk'' @ replicate 60 0"
      "[(True, ''Status :''), (False, '' [Busy]''), (True, '' [Halt]'')]"]
  by (simp add: lit_def c_str_def) blast

end
