(* ===== verification/Virtio.thy ===== *)
theory Virtio
  imports Cio
begin

text \<open>
  The virtio transport (\<open>virtio.h\<close>, \<open>virtio.c\<close>): the rings, handing a chain of buffers to
  the host, waiting for its answer, and setting a device up over channel I/O. The part of a
  ring in \<open>ring_area\<close> is \<open>ring_mem\<close>, typed (a ring set up again with another number of
  entries keeps its entries by index, where in the area its parts move); a ring that does not
  fit its share of the area stops the run with \<open>Bad\<close>. The functions take the index of a ring where the code has a pointer
  into \<open>block\<close>.
\<close>

section \<open>virtio.h\<close>

definition VIRTIO_CONFIG_S_DRIVER_OK :: u8 where
  "VIRTIO_CONFIG_S_DRIVER_OK = 4"
definition VIRTIO_ID_NET :: u8 where
  "VIRTIO_ID_NET = 1"
definition VIRTIO_ID_BLOCK :: u8 where
  "VIRTIO_ID_BLOCK = 2"
definition VIRTIO_ID_SCSI :: u8 where
  "VIRTIO_ID_SCSI = 8"
definition KVM_S390_VIRTIO_CCW_NOTIFY :: u64 where
  "KVM_S390_VIRTIO_CCW_NOTIFY = 3"
definition KVM_S390_VIRTIO_RING_ALIGN :: u32 where
  "KVM_S390_VIRTIO_RING_ALIGN = 4096"
definition VIRTIO_RING_SIZE :: nat where
  "VIRTIO_RING_SIZE = 32768"
definition VRING_USED_F_NO_NOTIFY :: u16 where
  "VRING_USED_F_NO_NOTIFY = 1"
definition VRING_DESC_F_NEXT :: s32 where
  "VRING_DESC_F_NEXT = 1"
definition VRING_DESC_F_WRITE :: s32 where
  "VRING_DESC_F_WRITE = 2"
definition VRING_HIDDEN_IS_CHAIN :: s32 where
  "VRING_HIDDEN_IS_CHAIN = 256"
definition VIRTIO_BLK_T_IN :: u32 where
  "VIRTIO_BLK_T_IN = 0"
definition VIRTIO_SECTOR_SIZE :: s32 where
  "VIRTIO_SECTOR_SIZE = 512"
definition VIRTIO_ISO_BLOCK_SIZE :: s32 where
  "VIRTIO_ISO_BLOCK_SIZE = 2048"
definition VIRTIO_SCSI_BLOCK_SIZE :: s32 where
  "VIRTIO_SCSI_BLOCK_SIZE = 512"

lemmas virtio_consts = VIRTIO_ID_NET_def VIRTIO_ID_BLOCK_def VIRTIO_ID_SCSI_def
  VRING_DESC_F_NEXT_def VRING_DESC_F_WRITE_def VRING_HIDDEN_IS_CHAIN_def VRING_USED_F_NO_NOTIFY_def
  VIRTIO_SECTOR_SIZE_def VIRTIO_ISO_BLOCK_SIZE_def VIRTIO_SCSI_BLOCK_SIZE_def
  KVM_S390_VIRTIO_RING_ALIGN_def VIRTIO_RING_SIZE_def VIRTIO_BLK_T_IN_def

text \<open>\<open>VirtioBlkConfig\<close> and \<open>VirtioScsiConfig\<close>, both in the union \<open>vdev.config\<close>.\<close>

abbreviation (input) cfg_capacity :: ptr where
  "cfg_capacity \<equiv> Buf VConfig 0"
abbreviation (input) cfg_heads :: ptr where
  "cfg_heads \<equiv> Buf VConfig 18"
abbreviation (input) cfg_sectors :: ptr where
  "cfg_sectors \<equiv> Buf VConfig 19"
abbreviation (input) cfg_blk_size :: ptr where
  "cfg_blk_size \<equiv> Buf VConfig 20"
abbreviation (input) cfg_physical_block_exp :: ptr where
  "cfg_physical_block_exp \<equiv> Buf VConfig 24"

definition blk_capacity :: "'d machine \<Rightarrow> u64" where
  "blk_capacity s = be (slice 0 8 (bufs s VConfig))"

definition blk_heads :: "'d machine \<Rightarrow> u8" where
  "blk_heads s = bufs s VConfig ! 18"

definition blk_sectors :: "'d machine \<Rightarrow> u8" where
  "blk_sectors s = bufs s VConfig ! 19"

definition blk_blk_size :: "'d machine \<Rightarrow> u32" where
  "blk_blk_size s = be (slice 20 4 (bufs s VConfig))"

definition blk_physical_block_exp :: "'d machine \<Rightarrow> u8" where
  "blk_physical_block_exp s = bufs s VConfig ! 24"

definition scsi_max_sectors :: "'d machine \<Rightarrow> u32" where
  "scsi_max_sectors s = be (slice 8 4 (bufs s VConfig))"

definition scsi_sense_size :: "'d machine \<Rightarrow> u32" where
  "scsi_sense_size s = be (slice 20 4 (bufs s VConfig))"

definition scsi_cdb_size :: "'d machine \<Rightarrow> u32" where
  "scsi_cdb_size s = be (slice 24 4 (bufs s VConfig))"

definition scsi_max_target :: "'d machine \<Rightarrow> u16" where
  "scsi_max_target s = be (slice 30 2 (bufs s VConfig))"

definition scsi_max_lun :: "'d machine \<Rightarrow> u32" where
  "scsi_max_lun s = be (slice 32 4 (bufs s VConfig))"

text \<open>\<open>SenseId\<close>: the fields \<open>cu_type\<close> and \<open>cu_model\<close> of \<open>vdev.senseid\<close>.\<close>

definition senseid_cu_type :: "'d machine \<Rightarrow> u16" where
  "senseid_cu_type s = be (slice 1 2 (bufs s VSenseId))"

definition cu_model :: "'d machine \<Rightarrow> u8" where
  "cu_model s = bufs s VSenseId ! 3"

abbreviation upd_vd :: "(vdev \<Rightarrow> vdev) \<Rightarrow> ('d, unit) fw" where
  "upd_vd f \<equiv> modify (\<lambda>s. s\<lparr>vd := f (vd s)\<rparr>)"

record virtio_cmd =
  vc_data :: ptr
  vc_size :: s32
  vc_flags :: s32

section \<open>Rings\<close>

text \<open>Access to the rings; an index past \<open>block\<close> is out of bounds.\<close>

definition get_vr :: "nat \<Rightarrow> ('d, vring) fw" where
  "get_vr i s = (if i < length (vrings (io s)) then Some (Ret (vrings (io s) ! i), s)
     else Some (Stop (Bad ''vring index''), s))"

definition set_vr :: "nat \<Rightarrow> vring \<Rightarrow> ('d, unit) fw" where
  "set_vr i v = modify (\<lambda>s. s\<lparr>io := (io s)\<lparr>vrings := (vrings (io s))[i := v]\<rparr>\<rparr>)"

definition get_rm :: "nat \<Rightarrow> ('d, ring_mem) fw" where
  "get_rm i s = (if i < length (rmem (io s)) then Some (Ret (rmem (io s) ! i), s)
     else Some (Stop (Bad ''vring index''), s))"

definition set_rm :: "nat \<Rightarrow> ring_mem \<Rightarrow> ('d, unit) fw" where
  "set_rm i m = modify (\<lambda>s. s\<lparr>io := (io s)\<lparr>rmem := (rmem (io s))[i := m]\<rparr>\<rparr>)"

definition kvm_hypercall :: "'d hw \<Rightarrow> u64 \<Rightarrow> u64 \<Rightarrow> u64 \<Rightarrow> u64 \<Rightarrow> ('d, u64) fw" where
  "kvm_hypercall hw nr param1 param2 param3 = plat_op (hypercall hw nr param1 param2 param3)"

text \<open>\<open>*(u32 *)&schid\<close>: the 16 bits \<open>sch_id\<close>, then \<open>sch_no\<close>.\<close>

definition schid_u32 :: "schid \<Rightarrow> u32" where
  "schid_u32 i = push_bit 16 (ucast (sch_id i)) OR ucast (sch_no i)"

definition virtio_notify :: "'d hw \<Rightarrow> schid \<Rightarrow> s32 \<Rightarrow> u64 \<Rightarrow> ('d, u64) fw" where
  "virtio_notify hw sch vq_idx cookie =
     kvm_hypercall hw KVM_S390_VIRTIO_CCW_NOTIFY (ucast (schid_u32 sch)) (int_to_u64 vq_idx) cookie"

partial_function (option) drain_irqs_loop :: "'d hw \<Rightarrow> schid \<Rightarrow> irb \<Rightarrow> ('d, int) fw" where
  "drain_irqs_loop hw sch irb s =
     bnd (plat_op (tsch_irb hw sch irb)) (\<lambda>x.
       if fst x \<noteq> 0
       then ret (if cstat (irb_scsw (snd x)) \<noteq> 0 then -1
                 else if dstat (irb_scsw (snd x)) \<noteq> 0xc then -1 else 0)
       else (\<lambda>s. drain_irqs_loop hw sch (snd x) s)) s"

definition drain_irqs :: "'d hw \<Rightarrow> schid \<Rightarrow> ('d, int) fw" where
  "drain_irqs hw sch s = drain_irqs_loop hw sch empty_irb s"

definition run_ccw :: "'d hw \<Rightarrow> u8 \<Rightarrow> ptr \<Rightarrow> u16 \<Rightarrow> bool \<Rightarrow> ('d, int) fw" where
  "run_ccw hw cmd p len sli =
     bnd (gets (\<lambda>s. (vd_schid (vd s), senseid_cu_type s))) (\<lambda>(sch, ct).
     do_cio hw sch ct (Ccw1At \<lparr>cmd_code = cmd, ccw_flags = (if sli then CCW_FLAG_SLI else 0),
       ccw_count = len, cda = p\<rparr>) CCW_FMT1)"

text \<open>The bytes from the start of the ring to the end of its used ring.\<close>

definition used_offset :: "u16 \<Rightarrow> u32 \<Rightarrow> nat" where
  "used_offset num align =
     (let a = unat align; p = 16 * unat num + 4 + 2 * unat num in (p + a - 1) div a * a)"

definition ring_extent :: "u16 \<Rightarrow> u32 \<Rightarrow> nat" where
  "ring_extent num align = used_offset num align + 4 + 8 * unat num"

text \<open>The first \<open>n\<close> entries of an array; the area is zero where nothing was written.\<close>

definition resized :: "nat \<Rightarrow> 'a \<Rightarrow> 'a list \<Rightarrow> 'a list" where
  "resized n x xs = take n xs @ replicate (n - length xs) x"

definition vring_init :: "nat \<Rightarrow> u64 \<Rightarrow> u32 \<Rightarrow> u16 \<Rightarrow> u16 \<Rightarrow> ('d, unit) fw" where
  "vring_init i queue align index num =
     bnd (get_vr i) (\<lambda>vr.
     bnd (get_rm i) (\<lambda>m.
     seq (whenM (VIRTIO_RING_SIZE < ring_extent num align) (stop (Bad ''ring area'')))
    (seq (set_rm i \<lparr>rm_desc = resized (unat num) \<lparr>d_addr = Phys 0, d_len = 0, d_flags = 0, d_next = 0\<rparr> (rm_desc m),
            avail_flags = 0, avail_idx = 0, avail_ring = resized (unat num) 0 (avail_ring m),
            used_flags = VRING_USED_F_NO_NOTIFY, used_idx = 0,
            used_ring = resized (unat num) (0, 0) (used_ring m)\<rparr>)
    (set_vr i (vr\<lparr>vr_id := ucast index, vr_num := ucast num, vr_desc := queue,
       vr_avail := queue + word_of_nat (16 * unat num),
       vr_used := queue + word_of_nat (used_offset num align),
       vr_used_idx := 0, next_idx := 0, vr_cookie := 0\<rparr>)))))"

definition vring_notify :: "'d hw \<Rightarrow> nat \<Rightarrow> ('d, bool) fw" where
  "vring_notify hw i =
     bnd (get_vr i) (\<lambda>vr.
     bnd (virtio_notify hw (vr_schid vr) (vr_id vr) (vr_cookie vr)) (\<lambda>cookie.
     seq (set_vr i (vr\<lparr>vr_cookie := cookie\<rparr>)) (ret (0 \<le> sint cookie))))"

text \<open>The updates of \<open>vring_send_buf\<close> on the shared part and on the driver's part.\<close>

definition send_buf_ring :: "vring \<Rightarrow> ptr \<Rightarrow> s32 \<Rightarrow> s32 \<Rightarrow> ring_mem \<Rightarrow> string + ring_mem" where
  "send_buf_ring vr p len flags m =
     (let i = unat (next_idx vr); chain = flag_on flags VRING_HIDDEN_IS_CHAIN;
          slot = unat (avail_idx m) mod unat (vr_num vr);
          d = \<lparr>d_addr = p, d_len = len, d_flags = ucast (flags AND NOT VRING_HIDDEN_IS_CHAIN),
               d_next = ucast (next_idx vr) + 1\<rparr> in
      if \<not> chain \<and> vr_num vr = 0 then Inl ''division by zero''
      else if \<not> chain \<and> \<not> slot < length (avail_ring m) then Inl ''ring index''
      else if \<not> i < length (rm_desc m) then Inl ''ring index''
      else Inr (m\<lparr>avail_ring := (if chain then avail_ring m
                                  else (avail_ring m)[slot := ucast (next_idx vr)]),
                  rm_desc := (rm_desc m)[i := d],
                  avail_idx := (if flag_on flags VRING_DESC_F_NEXT then avail_idx m
                                else avail_idx m + 1)\<rparr>))"

definition vring_send_buf :: "nat \<Rightarrow> ptr \<Rightarrow> s32 \<Rightarrow> s32 \<Rightarrow> ('d, unit) fw" where
  "vring_send_buf i p len flags =
     bnd (get_vr i) (\<lambda>vr.
     bnd (get_rm i) (\<lambda>m.
     case send_buf_ring vr p len flags m of
       Inl e \<Rightarrow> stop (Bad e)
     | Inr m' \<Rightarrow> seq (set_rm i m') (set_vr i (vr\<lparr>next_idx := next_idx vr + 1\<rparr>))))"

definition vr_poll :: "'d hw \<Rightarrow> nat \<Rightarrow> ('d, nat) fw" where
  "vr_poll hw i =
     bnd (get_vr i) (\<lambda>vr.
     bnd (get_rm i) (\<lambda>m.
     if ucast (used_idx m) = vr_used_idx vr
     then seq (vring_notify hw i) (seq (yield hw) (ret 0))
     else if rm_desc m = [] then stop (Bad ''ring index'')
     else seq (set_vr i (vr\<lparr>vr_used_idx := ucast (used_idx m), next_idx := 0\<rparr>))
         (seq (set_rm i (m\<lparr>rm_desc := (rm_desc m)[0 := (rm_desc m ! 0)\<lparr>d_len := 0, d_flags := 0\<rparr>]\<rparr>))
         (ret 1))))"

text \<open>The \<open>for\<close> loop of \<open>vring_wait_reply\<close>: the rings left to poll and the sum \<open>r\<close>.\<close>

fun poll_all :: "'d hw \<Rightarrow> nat list \<Rightarrow> nat \<Rightarrow> ('d, nat) fw" where
  "poll_all hw [] r = ret r"
| "poll_all hw (i # is) r = bnd (vr_poll hw i) (\<lambda>k. poll_all hw is (r + k))"

partial_function (option) wait_loop :: "'d hw \<Rightarrow> u64 \<Rightarrow> ('d, int) fw" where
  "wait_loop hw target_second s =
     bnd (bnd (gets (\<lambda>s. nr_vqs (vd s))) (\<lambda>n. poll_all hw [0..<n] 0)) (\<lambda>r.
     seq (yield hw)
     (if r \<noteq> 0 then ret 0
      else bnd (gets (\<lambda>s. wait_reply_timeout (vd s))) (\<lambda>timeout.
           if timeout = 0 then (\<lambda>s. wait_loop hw target_second s)
           else bnd (get_time_seconds hw) (\<lambda>t.
                if t < target_second then (\<lambda>s. wait_loop hw target_second s) else ret 1)))) s"

definition vring_wait_reply :: "'d hw \<Rightarrow> ('d, int) fw" where
  "vring_wait_reply hw =
     bnd (get_time_seconds hw) (\<lambda>t.
     bnd (gets (\<lambda>s. wait_reply_timeout (vd s))) (\<lambda>timeout. \<lambda>s. wait_loop hw (t + timeout) s))"

text \<open>The sending loop of \<open>virtio_run\<close>, from entry \<open>i\<close> on; reading past the array is \<open>Bad\<close>.\<close>

fun send_cmds :: "nat \<Rightarrow> virtio_cmd list \<Rightarrow> nat \<Rightarrow> ('d, unit) fw" where
  "send_cmds vqid [] i = stop (Bad ''command array'')"
| "send_cmds vqid (c # cs) i =
     seq (vring_send_buf vqid (vc_data c) (vc_size c)
            (vc_flags c OR (if i \<noteq> 0 then VRING_HIDDEN_IS_CHAIN else 0)))
         (if flag_on (vc_flags c) VRING_DESC_F_NEXT then send_cmds vqid cs (Suc i) else ret ())"

definition virtio_run :: "'d hw \<Rightarrow> nat \<Rightarrow> virtio_cmd list \<Rightarrow> ('d, int) fw" where
  "virtio_run hw vqid cmd =
     seq (send_cmds vqid cmd 0)
    (seq (vring_wait_reply hw)
    (bnd (get_vr vqid) (\<lambda>vr.
     bnd (drain_irqs hw (vr_schid vr)) (\<lambda>rc. ret (if rc \<noteq> 0 then -1 else 0)))))"

section \<open>Setting a device up\<close>

definition virtio_is_supported :: "'d hw \<Rightarrow> schid \<Rightarrow> ('d, bool) fw" where
  "virtio_is_supported hw sch =
     seq (upd_vd (\<lambda>v. v\<lparr>vd_schid := sch\<rparr>))
    (seq (memset (Buf VSenseId 0) 0 256)
    (bnd (run_ccw hw CCW_CMD_SENSE_ID (Buf VSenseId 0) 256 True) (\<lambda>rc.
     if rc \<noteq> 0 then ret False
     else gets (\<lambda>s. senseid_cu_type s = 0x3832 \<and>
            (cu_model s = VIRTIO_ID_BLOCK \<or> cu_model s = VIRTIO_ID_SCSI \<or> cu_model s = VIRTIO_ID_NET)))))"

text \<open>\<open>VirtioFeatureDesc\<close>: the feature bits (little endian) at 0, the index at 4.\<close>

definition negotiate_features :: "'d hw \<Rightarrow> nat \<Rightarrow> ('d, unit) fw" where
  "negotiate_features hw i =
     seq (store (Scr FeatDesc 0) (to_be 4 (0 :: u32)))
    (seq (store (Scr FeatDesc 4) [word_of_nat i])
    (bnd (run_ccw hw CCW_CMD_READ_FEAT (Scr FeatDesc 0) 5 False) (\<lambda>rc.
     seq (IPL_assert hw (rc = 0) (lit ''Could not get features bits''))
    (bnd (load_u32 (Scr FeatDesc 0)) (\<lambda>features.
     seq (upd_vd (\<lambda>v. v\<lparr>guest_features :=
            (guest_features v)[i := guest_features v ! i AND bswap32 features]\<rparr>))
    (bnd (gets (\<lambda>s. guest_features (vd s) ! i)) (\<lambda>g.
     seq (store (Scr FeatDesc 0) (to_be 4 (bswap32 g)))
    (bnd (run_ccw hw CCW_CMD_WRITE_FEAT (Scr FeatDesc 0) 5 False) (\<lambda>rc.
     IPL_assert hw (rc = 0) (lit ''Could not set features bits''))))))))))"

text \<open>\<open>VqInfo\<close>: \<open>queue\<close>, \<open>align\<close>, \<open>index\<close>, \<open>num\<close> at 0, 8, 12, 14; \<open>VqConfig\<close>: \<open>index\<close>, \<open>num\<close>
  at 0, 2.\<close>

definition setup_vq :: "'d hw \<Rightarrow> nat \<Rightarrow> ('d, unit) fw" where
  "setup_vq hw i =
     (let queue = ring_area hw + word_of_nat (i * VIRTIO_RING_SIZE);
          info = (\<lambda>num :: u16. to_be 8 queue @ to_be 4 KVM_S390_VIRTIO_RING_ALIGN @
                   to_be 2 (word_of_nat i :: u16) @ to_be 2 num) in
     seq (store (Scr VqConfigBlk 0) (to_be 2 (word_of_nat i :: u16) @ to_be 2 (0 :: u16)))
    (bnd (run_ccw hw CCW_CMD_READ_VQ_CONF (Scr VqConfigBlk 0) 4 False) (\<lambda>rc.
     seq (IPL_assert hw (rc = 0) (lit ''Could not get block device VQ configuration''))
    (bnd (load_u16 (Scr VqConfigBlk 2)) (\<lambda>num.
     seq (store (Scr VqInfoBlk 0) (info num))
    (seq (vring_init i queue KVM_S390_VIRTIO_RING_ALIGN (word_of_nat i) num)
    (bnd (get_vr i) (\<lambda>vr.
     bnd (gets (\<lambda>s. vd_schid (vd s))) (\<lambda>sch.
     seq (set_vr i (vr\<lparr>vr_schid := sch\<rparr>))
    (bnd (run_ccw hw CCW_CMD_SET_VQ (Scr VqInfoBlk 0) 16 False) (\<lambda>rc.
     IPL_assert hw (rc = 0) (lit ''Cannot set VQ info''))))))))))))"

fun for_each :: "('a \<Rightarrow> ('d, unit) fw) \<Rightarrow> 'a list \<Rightarrow> ('d, unit) fw" where
  "for_each f [] = ret ()"
| "for_each f (x # xs) = seq (f x) (for_each f xs)"

definition virtio_setup_ccw :: "'d hw \<Rightarrow> ('d, unit) fw" where
  "virtio_setup_ccw hw =
     bnd (gets (\<lambda>s. vd_schid (vd s))) (\<lambda>sch.
     bnd (virtio_is_supported hw sch) (\<lambda>ok.
     seq (IPL_assert hw ok (lit ''PE''))
    (seq (store cfg_blk_size (to_be 4 (0 :: u32)))
    (seq (upd_vd (\<lambda>v. v\<lparr>guessed_disk_nature := GDN_NONE\<rparr>))
    (seq (run_ccw hw CCW_CMD_VDEV_RESET (Phys 0) 0 False)
    (bnd (gets cu_model) (\<lambda>model.
     bnd (if model = VIRTIO_ID_NET
          then seq (upd_vd (\<lambda>v. v\<lparr>nr_vqs := 2, cmd_vr_idx := 0\<rparr>)) (ret 6)
          else if model = VIRTIO_ID_BLOCK
          then seq (upd_vd (\<lambda>v. v\<lparr>nr_vqs := 1, cmd_vr_idx := 0\<rparr>)) (ret 33)
          else if model = VIRTIO_ID_SCSI
          then seq (upd_vd (\<lambda>v. v\<lparr>nr_vqs := 3, cmd_vr_idx := 2\<rparr>)) (ret 36)
          else panic hw (lit ''Unsupported virtio device'' @ [10])) (\<lambda>cfg_size.
     bnd (run_ccw hw CCW_CMD_READ_CONF (Buf VConfig 0) cfg_size False) (\<lambda>rc.
     seq (IPL_assert hw (rc = 0) (lit ''Could not get block device configuration''))
    (seq (for_each (negotiate_features hw) [0, 1])
    (bnd (gets (\<lambda>s. nr_vqs (vd s))) (\<lambda>n.
     seq (for_each (setup_vq hw) [0..<n])
    (seq (store (Scr StatusByte 0) [VIRTIO_CONFIG_S_DRIVER_OK])
    (bnd (run_ccw hw CCW_CMD_WRITE_STATUS (Scr StatusByte 0) 1 False) (\<lambda>rc.
     IPL_assert hw (rc = 0) (lit ''Could not write status to host''))))))))))))))))"

section \<open>Outcomes\<close>

context exit_contract begin

lemma ring_access_outcome [outcome]:
  "outcome_ok X (get_vr i)" "outcome_ok X (set_vr i v)" "outcome_ok X (get_rm i)"
  "outcome_ok X (set_rm i m)"
  by (auto simp: outcome_ok_def get_vr_def get_rm_def set_vr_def set_rm_def shape_def on_bad split: if_splits)

lemma notify_outcome [outcome]:
  "outcome_ok X (kvm_hypercall hw nr a b c)" "outcome_ok X (virtio_notify hw sch i c)"
  "outcome_ok X (run_ccw hw cmd p len sli)"
  unfolding virtio_notify_def kvm_hypercall_def run_ccw_def by (intro outcome)+

lemma drain_irqs_loop_outcome [outcome]: "outcome_ok X (drain_irqs_loop hw sch irb)"
proof (rule outcome_ok_loopI)
  fix s y
  assume "drain_irqs_loop hw sch irb s = Some y"
  then show "outcome_at X s y"
  proof (rule drain_irqs_loop.raw_induct [rotated, of _ _ _ _ _ "\<lambda>hw sch irb. outcome_at X"], goal_cases)
    case (1 rec hw sch irb s y)
    have rec: "outcome_ok X (rec hw sch irb)" for hw sch irb by (rule outcome_ok_loopI) (rule 1(1))
    show ?case using 1(2) by (rule outcome_bnd_at) (intro outcome rec)+
  qed
qed

lemma drain_irqs_outcome [outcome]: "outcome_ok X (drain_irqs hw sch)"
  using drain_irqs_loop_outcome [of hw sch empty_irb] by (simp add: outcome_ok_def drain_irqs_def)

lemma ring_outcome [outcome]:
  "outcome_ok X (vring_init i q align index num)" "outcome_ok X (vring_notify hw i)"
  "outcome_ok X (vring_send_buf i p len flags)" "outcome_ok X (vr_poll hw i)"
  unfolding vring_init_def vr_poll_def vring_notify_def vring_send_buf_def by (intro outcome)+

lemma poll_all_outcome [outcome]: "outcome_ok X (poll_all hw is r)"
  by (induction "is" arbitrary: r) (simp_all only: poll_all.simps, (intro outcome | assumption)+)

lemma wait_loop_outcome [outcome]: "outcome_ok X (wait_loop hw target)"
proof (rule outcome_ok_loopI)
  fix s y
  assume "wait_loop hw target s = Some y"
  then show "outcome_at X s y"
  proof (rule wait_loop.raw_induct [rotated, of _ _ _ _ "\<lambda>hw target. outcome_at X"], goal_cases)
    case (1 rec hw target s y)
    have rec: "outcome_ok X (rec hw target)" for hw target by (rule outcome_ok_loopI) (rule 1(1))
    show ?case using 1(2) by (rule outcome_bnd_at) (intro outcome rec)+
  qed
qed

lemma send_cmds_outcome [outcome]: "outcome_ok X (send_cmds q cs i)"
  by (induction cs arbitrary: i) (simp_all only: send_cmds.simps, (intro outcome | assumption)+)

lemma virtio_run_outcome [outcome]:
  "outcome_ok X (vring_wait_reply hw)" "outcome_ok X (virtio_run hw q cmd)"
  unfolding virtio_run_def vring_wait_reply_def by (intro outcome)+

lemma for_each_outcome [outcome]: "(\<And>x. outcome_ok X (f x)) \<Longrightarrow> outcome_ok X (for_each f xs)"
  by (induction xs) (simp_all add: outcome_ret outcome_bnd)

lemma virtio_setup_outcome [outcome]:
  "outcome_ok X (virtio_is_supported hw sch)" "outcome_ok X (negotiate_features hw i)"
  "outcome_ok X (setup_vq hw i)" "outcome_ok X (virtio_setup_ccw hw)"
  unfolding virtio_setup_ccw_def virtio_is_supported_def negotiate_features_def setup_vq_def
  by (intro outcome; simp add: shape_def)+

end

end
