(* ===== verification/VirtioScsi.thy ===== *)
theory VirtioScsi
  imports Virtio
begin

text \<open>
  SCSI over virtio (\<open>scsi.h\<close>, \<open>virtio-scsi.h\<close>, \<open>virtio-scsi.c\<close>): command blocks, the
  checks of a response and the messages about it, locating and setting up a device, and
  reading in chunks. The static request \<open>req\<close> is the block \<open>ScsiReq\<close> (\<open>lun\<close> at 0, \<open>cdb\<close>
  at 19), the response \<open>resp\<close> the block \<open>ScsiResp\<close> (\<open>sense_len\<close> at 0, \<open>status\<close> at 10,
  \<open>response\<close> at 11, \<open>sense\<close> at 12).
\<close>

section \<open>virtio_get_block_size\<close>

text \<open>
  \<open>virtio_get_block_size\<close> of \<open>virtio-blkdev.c\<close>. A shift by 32 or more, which C leaves
  undefined, gives 0.
\<close>

definition virtio_get_block_size :: "'d machine \<Rightarrow> s32" where
  "virtio_get_block_size s =
     (if cu_model s = VIRTIO_ID_BLOCK then push_bit (unat (blk_physical_block_exp s)) (blk_blk_size s)
      else if cu_model s = VIRTIO_ID_SCSI then scsi_block_size (vd s)
      else 0)"

section \<open>scsi.h\<close>

definition CDB_STATUS_GOOD :: u8 where
  "CDB_STATUS_GOOD = 0"
definition CDB_STATUS_CHECK_CONDITION :: u8 where
  "CDB_STATUS_CHECK_CONDITION = 0x02"
definition SCSI_SENSE_CODE_MASK :: u8 where
  "SCSI_SENSE_CODE_MASK = 0x7f"
definition SCSI_SENSE_KEY_MASK :: u8 where
  "SCSI_SENSE_KEY_MASK = 0x0f"
definition SCSI_SENSE_KEY_UNIT_ATTENTION :: u8 where
  "SCSI_SENSE_KEY_UNIT_ATTENTION = 6"
definition SCSI_INQUIRY_STANDARD :: u8 where
  "SCSI_INQUIRY_STANDARD = 0"
definition SCSI_INQUIRY_EVPD :: u8 where
  "SCSI_INQUIRY_EVPD = 1"
definition SCSI_INQUIRY_STANDARD_NONE :: u8 where
  "SCSI_INQUIRY_STANDARD_NONE = 0"
definition SCSI_INQUIRY_EVPD_SUPPORTED_PAGES :: u8 where
  "SCSI_INQUIRY_EVPD_SUPPORTED_PAGES = 0"
definition SCSI_INQUIRY_EVPD_BLOCK_LIMITS :: u8 where
  "SCSI_INQUIRY_EVPD_BLOCK_LIMITS = 0xb0"
definition SCSI_INQ_RDT_CDROM :: u8 where
  "SCSI_INQ_RDT_CDROM = 5"
definition VIRTIO_SCSI_MAX_SECTORS :: u32 where
  "VIRTIO_SCSI_MAX_SECTORS = 2048"
definition VIRTIO_SCSI_S_OK :: u8 where
  "VIRTIO_SCSI_S_OK = 0"
definition VIRTIO_SCSI_S_BAD_TARGET :: u8 where
  "VIRTIO_SCSI_S_BAD_TARGET = 3"

abbreviation (input) VR_REQUEST :: nat where
  "VR_REQUEST \<equiv> 2"

definition CDB_STATUS_VALID :: "u8 \<Rightarrow> bool" where
  "CDB_STATUS_VALID status \<longleftrightarrow> status AND NOT 0x3e = 0"

text \<open>The functions on sense data take its bytes.\<close>

definition scsi_sense_response :: "u8 list \<Rightarrow> u8" where
  "scsi_sense_response p = p ! 0 AND SCSI_SENSE_CODE_MASK"

definition scsi_sense_key :: "u8 list \<Rightarrow> u8" where
  "scsi_sense_key p = p ! 2 AND SCSI_SENSE_KEY_MASK"

text \<open>The eight bytes of a \<open>ScsiLun\<close>.\<close>

definition make_lun :: "u16 \<Rightarrow> u16 \<Rightarrow> u32 \<Rightarrow> u8 list" where
  "make_lun chan tgt lu =
     (let b2 = ucast (drop_bit 8 lu) AND 0x3f :: u8 in
      [1, ucast (tgt AND 0xff), (if b2 \<noteq> 0 then b2 OR 0x40 else b2), ucast (lu AND 0xff), 0, 0, 0, 0])"

definition scsi_cdb_status_msg :: "u8 \<Rightarrow> u8 list" where
  "scsi_cdb_status_msg status = fill_hex_val 7 [status AND 0x3e] (lit ''STATUS=XX'')"

definition scsi_cdb_asc_msg :: "u8 list \<Rightarrow> u8 list" where
  "scsi_cdb_asc_msg s =
     fill_hex_val 28 [s ! 13] (fill_hex_val 20 [s ! 12] (fill_hex_val 12 [scsi_sense_key s]
       (fill_hex_val 5 [scsi_sense_response s] (lit ''RSPN=XX KEY=XX CODE=XX QLFR=XX''))))"

section \<open>The response\<close>

definition resp_status :: "'d machine \<Rightarrow> u8" where
  "resp_status s = scr (io s) ScsiResp ! 10"

definition resp_response :: "'d machine \<Rightarrow> u8" where
  "resp_response s = scr (io s) ScsiResp ! 11"

definition resp_sense_len :: "'d machine \<Rightarrow> u32" where
  "resp_sense_len s = be (slice 0 4 (scr (io s) ScsiResp))"

definition resp_sense :: "'d machine \<Rightarrow> u8 list" where
  "resp_sense s = slice 12 96 (scr (io s) ScsiResp)"

definition virtio_scsi_response_msg :: "u8 \<Rightarrow> u8 list" where
  "virtio_scsi_response_msg v = fill_hex_val 8 [v] (lit ''VS RESP=XX'')"

definition virtio_scsi_response_ok :: "'d machine \<Rightarrow> bool" where
  "virtio_scsi_response_ok s \<longleftrightarrow> resp_response s = VIRTIO_SCSI_S_OK \<and> resp_status s = CDB_STATUS_GOOD"

text \<open>The messages up to the null pointer that ends the array.\<close>

definition vs_assert :: "'d hw \<Rightarrow> bool \<Rightarrow> u8 list list \<Rightarrow> ('d, unit) fw" where
  "vs_assert hw b msgs = whenM (\<not> b)
     (seq (sclp_print hw (10 # lit ''! ''))
     (seq (for_each (sclp_print hw) msgs) (panic hw (lit '' !'' @ [10]))))"

definition virtio_scsi_verify_response :: "'d hw \<Rightarrow> string \<Rightarrow> ('d, unit) fw" where
  "virtio_scsi_verify_response hw title =
     bnd (gets (\<lambda>s. (resp_response s, resp_status s, resp_sense_len s, resp_sense s)))
       (\<lambda>(response, status, sense_len, sense).
     let mr = [lit title, lit '': response '', virtio_scsi_response_msg response];
         ms = [lit title, lit (if CDB_STATUS_VALID status then '': '' else '': invalid ''),
               scsi_cdb_status_msg status] @
              (if status = CDB_STATUS_CHECK_CONDITION
               then [lit '' '', if sense_len \<noteq> 0 then scsi_cdb_asc_msg sense else lit ''no sense data'',
                     lit (if scsi_sense_response sense = 0x70 then '', sure'' else ''?'')]
               else []) in
     seq (vs_assert hw (response = VIRTIO_SCSI_S_OK) mr)
         (vs_assert hw (status = CDB_STATUS_GOOD) ms))"

section \<open>Commands\<close>

text \<open>The data pointer is null exactly when it is \<open>Phys 0\<close>.\<close>

definition prepare_request :: "u8 list \<Rightarrow> ptr \<Rightarrow> u32 \<Rightarrow> ('d, unit) fw" where
  "prepare_request cdb data data_size =
     bnd (gets (\<lambda>s. scsi_dev (vd s))) (\<lambda>sdev.
     seq (memset (Scr ScsiReq 0) 0 51)
    (seq (store (Scr ScsiReq 0) (make_lun (sd_channel sdev) (sd_target sdev) (sd_lun sdev)))
    (seq (store (Scr ScsiReq 19) cdb)
    (seq (memset (Scr ScsiResp 0) 0 108)
    (seq (store (Scr ScsiResp 10) [0xff])
    (seq (store (Scr ScsiResp 11) [0xff])
    (whenM (data \<noteq> Phys 0 \<and> data_size \<noteq> 0) (memset data 0 (unat data_size)))))))))"

definition vs_io_assert :: "'d hw \<Rightarrow> bool \<Rightarrow> string \<Rightarrow> ('d, unit) fw" where
  "vs_io_assert hw b msg = whenM (\<not> b) (virtio_scsi_verify_response hw msg)"

definition vs_run :: "'d hw \<Rightarrow> string \<Rightarrow> virtio_cmd list \<Rightarrow> u8 list \<Rightarrow> ptr \<Rightarrow> u32 \<Rightarrow> ('d, unit) fw" where
  "vs_run hw title cmd cdb data data_size =
     seq (prepare_request cdb data data_size)
    (bnd (virtio_run hw VR_REQUEST cmd) (\<lambda>rc. vs_io_assert hw (rc = 0) title))"

text \<open>The commands of a request with a data buffer.\<close>

definition data_cmds :: "ptr \<Rightarrow> u32 \<Rightarrow> virtio_cmd list" where
  "data_cmds data data_size =
     [\<lparr>vc_data = Scr ScsiReq 0, vc_size = 51, vc_flags = VRING_DESC_F_NEXT\<rparr>,
      \<lparr>vc_data = Scr ScsiResp 0, vc_size = 108, vc_flags = VRING_DESC_F_WRITE OR VRING_DESC_F_NEXT\<rparr>,
      \<lparr>vc_data = data, vc_size = data_size, vc_flags = VRING_DESC_F_WRITE\<rparr>]"

definition scsi_inquiry :: "'d hw \<Rightarrow> u8 \<Rightarrow> u8 \<Rightarrow> ptr \<Rightarrow> u32 \<Rightarrow> ('d, bool) fw" where
  "scsi_inquiry hw evpd page data data_size =
     seq (vs_run hw ''inquiry'' (data_cmds data data_size)
            ([0x12, evpd, page] @ to_be 2 (if data_size < 65535 then ucast data_size else 65535 :: u16) @ [0])
            data data_size)
         (gets virtio_scsi_response_ok)"

definition scsi_test_unit_ready :: "'d hw \<Rightarrow> ('d, bool) fw" where
  "scsi_test_unit_ready hw =
     seq (prepare_request [0x00, 0, 0, 0, 0, 0] (Phys 0) 0)
    (seq (virtio_run hw VR_REQUEST
       [\<lparr>vc_data = Scr ScsiReq 0, vc_size = 51, vc_flags = VRING_DESC_F_NEXT\<rparr>,
        \<lparr>vc_data = Scr ScsiResp 0, vc_size = 108, vc_flags = VRING_DESC_F_WRITE\<rparr>])
    (gets virtio_scsi_response_ok))"

definition scsi_report_luns :: "'d hw \<Rightarrow> ptr \<Rightarrow> u32 \<Rightarrow> ('d, bool) fw" where
  "scsi_report_luns hw data data_size =
     seq (vs_run hw ''report luns'' (data_cmds data data_size)
            ([0xa0, 0, 0x02, 0, 0, 0] @ to_be 4 data_size @ [0, 0]) data data_size)
         (gets virtio_scsi_response_ok)"

definition read_10_cdb :: "u64 \<Rightarrow> s32 \<Rightarrow> u8 list" where
  "read_10_cdb sector sectors =
     [0x28, 0] @ to_be 4 (ucast sector :: u32) @ [0] @ to_be 2 (ucast sectors :: u16) @ [0]"

definition scsi_read_10 :: "'d hw \<Rightarrow> u64 \<Rightarrow> s32 \<Rightarrow> ptr \<Rightarrow> u32 \<Rightarrow> ('d, bool) fw" where
  "scsi_read_10 hw sector sectors data data_size =
     seq (vs_run hw ''read(10)'' (data_cmds data data_size) (read_10_cdb sector sectors) data data_size)
         (gets virtio_scsi_response_ok)"

definition scsi_read_capacity :: "'d hw \<Rightarrow> ptr \<Rightarrow> u32 \<Rightarrow> ('d, bool) fw" where
  "scsi_read_capacity hw data data_size =
     seq (vs_run hw ''read capacity'' (data_cmds data data_size)
            ([0x9e, 0x10, 0, 0, 0, 0, 0, 0, 0, 0] @ to_be 4 data_size @ [0, 0]) data data_size)
         (gets virtio_scsi_response_ok)"

section \<open>Locating a device\<close>

text \<open>
  The scan of the LUNs a target reports for a non-zero one, from entry \<open>i\<close> on. \<open>ScsiLunReport\<close>
  is the array \<open>LunData\<close>: \<open>lun_list_len\<close> at 0, \<open>lun[i]\<close> at \<open>8 + 8 * i\<close>. The number of LUNs
  comes from the device; a LUN past the array is out of bounds.
\<close>

fun scan_luns :: "nat \<Rightarrow> nat \<Rightarrow> ('d, u16 option) fw" where
  "scan_luns i 0 = ret None"
| "scan_luns i (Suc n) =
     bnd (load_u64 (Buf LunData (8 + 8 * i))) (\<lambda>v64.
     if v64 \<noteq> 0 then bnd (load_u16 (Buf LunData (8 + 8 * i))) (\<lambda>l. ret (Some l))
     else scan_luns (Suc i) n)"

text \<open>The body of the loop over the targets: whether the target has a usable LUN.\<close>

definition try_target :: "'d hw \<Rightarrow> u16 \<Rightarrow> ('d, bool) fw" where
  "try_target hw tgt =
     seq (upd_vd (\<lambda>v. v\<lparr>scsi_dev := \<lparr>sd_channel = 0, sd_target = tgt, sd_lun = 0\<rparr>\<rparr>))
    (bnd (scsi_report_luns hw (Buf LunData 0) 520) (\<lambda>ok.
     bnd (gets resp_response) (\<lambda>response.
     if \<not> ok \<and> response = VIRTIO_SCSI_S_BAD_TARGET then ret False
     else
     seq (whenM (\<not> ok)
            (seq (print_int hw (lit ''target'') (ucast tgt))
                 (virtio_scsi_verify_response hw ''SCSI cannot report LUNs'')))
    (bnd (load_u32 (Buf LunData 0)) (\<lambda>lun_list_len.
     if lun_list_len = 0
     then seq (print_int hw (lit ''no LUNs for target'') (ucast tgt)) (ret False)
     else let luns = unat (lun_list_len div 8) in
       if luns = 1
       then bnd (load_u16 (Buf LunData 8)) (\<lambda>l.
            seq (upd_vd (\<lambda>v. v\<lparr>scsi_dev := (scsi_dev v)\<lparr>sd_lun := ucast l\<rparr>\<rparr>)) (ret True))
       else bnd (scan_luns 0 luns) (\<lambda>found.
            case found of
              Some l \<Rightarrow> seq (upd_vd (\<lambda>v. v\<lparr>scsi_dev := (scsi_dev v)\<lparr>sd_lun := ucast l\<rparr>\<rparr>)) (ret True)
            | None \<Rightarrow> ret False))))))"

text \<open>The counter of the loop has 16 bits, as the bound it is compared with.\<close>

partial_function (option) locate_loop :: "'d hw \<Rightarrow> u16 \<Rightarrow> ('d, int) fw" where
  "locate_loop hw tgt s =
     bnd (gets scsi_max_target) (\<lambda>m.
       if tgt \<le> m
       then bnd (try_target hw tgt) (\<lambda>found.
            if found then ret 0 else (\<lambda>s. locate_loop hw (tgt + 1) s))
       else seq (sclp_print hw (lit ''Warning: Could not locate a usable virtio-scsi device'' @ [10]))
           (ret (-3))) s"

definition virtio_scsi_locate_device :: "'d hw \<Rightarrow> ('d, int) fw" where
  "virtio_scsi_locate_device hw =
     bnd (gets (\<lambda>s. (scsi_device_selected (vd s), selected_scsi_device (vd s)))) (\<lambda>(selected, sdev).
     if selected
     then seq (upd_vd (\<lambda>v. v\<lparr>scsi_dev := sdev\<rparr>))
         (bnd (gets (\<lambda>s. (scsi_max_target s, scsi_max_lun s))) (\<lambda>(max_target, max_lun).
          seq (IPL_check hw (sd_channel sdev = 0) (lit ''non-zero channel requested''))
         (seq (IPL_check hw (sd_target sdev \<le> max_target) (lit ''target# high''))
         (seq (IPL_check hw (sd_lun sdev \<le> max_lun) (lit ''LUN# high''))
         (ret 0)))))
     else (\<lambda>s. locate_loop hw 0 s))"

section \<open>Reading\<close>

text \<open>
  The loop of \<open>virtio_scsi_read_many\<close>: each round reads at most \<open>max_transfer\<close> blocks.
\<close>

partial_function (option) scsi_read_loop ::
    "'d hw \<Rightarrow> u32 \<Rightarrow> s32 \<Rightarrow> u64 \<Rightarrow> ptr \<Rightarrow> s32 \<Rightarrow> ('d, int) fw" where
  "scsi_read_loop hw max_xfer f sector load_addr sec_num s =
     bnd (gets virtio_get_block_size) (\<lambda>bs.
       bnd (scsi_read_10 hw (sector * int_to_u64 f) (MIN_NON_ZERO sec_num max_xfer * f) load_addr
              (MIN_NON_ZERO sec_num max_xfer * bs * f)) (\<lambda>ok.
       seq (whenM (\<not> ok) (virtio_scsi_verify_response hw ''virtio-scsi:read_many''))
       (if 0 < sint (sec_num - MIN_NON_ZERO sec_num max_xfer)
        then (\<lambda>s. scsi_read_loop hw max_xfer f
               (sector + int_to_u64 (MIN_NON_ZERO sec_num max_xfer))
               (ptr_add load_addr (unat (MIN_NON_ZERO sec_num max_xfer * bs * f)))
               (sec_num - MIN_NON_ZERO sec_num max_xfer) s)
        else ret 0))) s"

definition virtio_scsi_read_many :: "'d hw \<Rightarrow> u64 \<Rightarrow> ptr \<Rightarrow> s32 \<Rightarrow> ('d, int) fw" where
  "virtio_scsi_read_many hw sector load_addr sec_num =
     bnd (gets (\<lambda>s. (MIN_NON_ZERO (scsi_max_sectors s) (max_transfer (vd s)), blk_factor (vd s))))
       (\<lambda>(max_xfer, f). \<lambda>s. scsi_read_loop hw max_xfer f sector load_addr sec_num s)"

section \<open>Setting a device up\<close>

text \<open>On the bytes of \<open>ScsiInquiryStd\<close>: \<open>b3\<close> at 3, \<open>prod_id\<close> at 16.\<close>

definition virtio_scsi_inquiry_response_is_cdrom :: "'d hw \<Rightarrow> u8 list \<Rightarrow> ('d, bool) fw" where
  "virtio_scsi_inquiry_response_is_cdrom hw response =
     (let resp_data_fmt = response ! 3 AND 0x0f in
     seq (IPL_check hw (resp_data_fmt = 2) (lit ''Wrong INQUIRY response format''))
     (ret (if resp_data_fmt \<noteq> 2 then False
           else if response ! 0 AND 0x1f = SCSI_INQ_RDT_CDROM then True
           else slice 16 16 response = lit ''QEMU CD-ROM     '')))"

definition scsi_parse_capacity_report :: "u8 list \<Rightarrow> u64 \<times> u32" where
  "scsi_parse_capacity_report p = (be (slice 0 8 p), be (slice 8 4 p))"

text \<open>The ping before the first read; the argument is \<open>retry_test_unit_ready\<close>.\<close>

partial_function (option) ready_loop :: "'d hw \<Rightarrow> nat \<Rightarrow> ('d, unit) fw" where
  "ready_loop hw retries s =
     bnd (scsi_test_unit_ready hw) (\<lambda>ready.
       if ready then ret ()
       else bnd (gets (\<lambda>s. (virtio_scsi_response_ok s, resp_sense_len s, resp_sense s))) (\<lambda>x.
            if \<not> fst x
            then seq (IPL_assert hw (fst (snd x) \<noteq> 0) (lit ''virtio-scsi:setup: no SENSE data''))
                (seq (IPL_assert hw (retries \<noteq> 0 \<and> scsi_sense_response (snd (snd x)) = 0x70 \<and>
                        scsi_sense_key (snd (snd x)) = SCSI_SENSE_KEY_UNIT_ATTENTION)
                        (lit ''virtio-scsi:setup: cannot retry''))
                (seq (sleep hw 1) (\<lambda>s. ready_loop hw (retries - 1) s)))
            else seq (virtio_scsi_verify_response hw ''virtio-scsi:setup'')
                     (\<lambda>s. ready_loop hw retries s))) s"

text \<open>
  The loop over the supported pages, from \<open>i\<close> on: \<open>ScsiInquiryEvpdPages\<close> has
  \<open>page_length\<close> at 2 and \<open>byte[i]\<close> at \<open>4 + i\<close>, \<open>ScsiInquiryEvpdBl\<close> has \<open>max_transfer\<close>
  at 8. The page length comes from the device.
\<close>

fun evpd_loop :: "'d hw \<Rightarrow> nat \<Rightarrow> nat \<Rightarrow> ('d, unit) fw" where
  "evpd_loop hw i 0 = ret ()"
| "evpd_loop hw i (Suc n) =
     bnd (load_u8 (Buf EvpdPages (4 + i))) (\<lambda>page.
     seq (whenM (page = SCSI_INQUIRY_EVPD_BLOCK_LIMITS)
       (bnd (scsi_inquiry hw SCSI_INQUIRY_EVPD SCSI_INQUIRY_EVPD_BLOCK_LIMITS (Buf EvpdBl 0) 64) (\<lambda>ok.
        seq (whenM (\<not> ok) (virtio_scsi_verify_response hw ''virtio-scsi:setup:blocklimits''))
       (bnd (load_u32 (Buf EvpdBl 8)) (\<lambda>m.
        upd_vd (\<lambda>v. v\<lparr>max_transfer := m\<rparr>))))))
     (evpd_loop hw (Suc i) n))"

definition virtio_scsi_setup :: "'d hw \<Rightarrow> ('d, int) fw" where
  "virtio_scsi_setup hw =
     bnd (virtio_scsi_locate_device hw) (\<lambda>rc.
     if rc < 0 then ret rc
     else
     seq (\<lambda>s. ready_loop hw 3 s)
    (bnd (scsi_inquiry hw SCSI_INQUIRY_STANDARD SCSI_INQUIRY_STANDARD_NONE (Buf InqStd 0) 256) (\<lambda>ok.
     seq (whenM (\<not> ok) (virtio_scsi_verify_response hw ''virtio-scsi:setup:inquiry''))
    (bnd (load (Buf InqStd 0) 256) (\<lambda>response.
     bnd (virtio_scsi_inquiry_response_is_cdrom hw response) (\<lambda>cdrom.
     seq (whenM cdrom
       (seq (sclp_print hw (lit ''SCSI CD-ROM detected.'' @ [10]))
       (upd_vd (\<lambda>v. v\<lparr>is_cdrom := True, scsi_block_size := VIRTIO_ISO_BLOCK_SIZE\<rparr>))))
    (bnd (scsi_inquiry hw SCSI_INQUIRY_EVPD SCSI_INQUIRY_EVPD_SUPPORTED_PAGES (Buf EvpdPages 0) 32) (\<lambda>ok.
     seq (whenM (\<not> ok) (virtio_scsi_verify_response hw ''virtio-scsi:setup:supported_pages''))
    (bnd (load_u16 (Buf EvpdPages 2)) (\<lambda>page_length.
     seq (evpd_loop hw 0 (Suc (unat page_length)))
    (seq (upd_vd (\<lambda>v. v\<lparr>max_transfer := MIN_NON_ZERO VIRTIO_SCSI_MAX_SECTORS (max_transfer v)\<rparr>))
    (bnd (scsi_read_capacity hw (Buf CapData 0) 256) (\<lambda>ok.
     seq (whenM (\<not> ok) (virtio_scsi_verify_response hw ''virtio-scsi:setup:read_capacity''))
    (bnd (load (Buf CapData 0) 256) (\<lambda>data.
     case scsi_parse_capacity_report data of (last_lba, lb_len) \<Rightarrow>
     seq (upd_vd (\<lambda>v. v\<lparr>scsi_last_block := last_lba, scsi_block_size := lb_len\<rparr>))
     (ret 0))))))))))))))))"

section \<open>Outcomes\<close>

context exit_contract begin

lemma vs_outcome [outcome]:
  "outcome_ok X (vs_assert hw b msgs)" "outcome_ok X (virtio_scsi_verify_response hw title)"
  "outcome_ok X (prepare_request cdb p n)" "outcome_ok X (vs_io_assert hw b msg)"
  "outcome_ok X (vs_run hw ti cmd cdb p n)"
  unfolding vs_run_def vs_io_assert_def prepare_request_def virtio_scsi_verify_response_def vs_assert_def
  by (intro outcome)+

lemma scsi_command_outcome [outcome]:
  "outcome_ok X (scsi_inquiry hw e pg p n)" "outcome_ok X (scsi_test_unit_ready hw)"
  "outcome_ok X (scsi_report_luns hw p n)" "outcome_ok X (scsi_read_10 hw sec k p n)"
  "outcome_ok X (scsi_read_capacity hw p n)"
  unfolding scsi_inquiry_def scsi_test_unit_ready_def scsi_report_luns_def scsi_read_10_def
    scsi_read_capacity_def
  by (intro outcome)+

lemma scan_luns_outcome [outcome]: "outcome_ok X (scan_luns i n)"
  by (induction n arbitrary: i) (simp_all only: scan_luns.simps, (intro outcome | assumption)+)

lemma try_target_outcome [outcome]: "outcome_ok X (try_target hw tgt)"
  unfolding try_target_def by (intro outcome; simp add: shape_def)

lemma locate_loop_outcome [outcome]: "outcome_ok X (locate_loop hw tgt)"
proof (rule outcome_ok_loopI)
  fix s y
  assume "locate_loop hw tgt s = Some y"
  then show "outcome_at X s y"
  proof (rule locate_loop.raw_induct [rotated, of _ _ _ _ "\<lambda>hw tgt. outcome_at X"], goal_cases)
    case (1 rec hw tgt s y)
    have rec: "outcome_ok X (rec hw tgt)" for hw tgt by (rule outcome_ok_loopI) (rule 1(1))
    show ?case using 1(2) by (rule outcome_bnd_at) (intro outcome rec)+
  qed
qed

lemma locate_device_outcome [outcome]: "outcome_ok X (virtio_scsi_locate_device hw)"
  unfolding virtio_scsi_locate_device_def by (intro outcome; simp add: shape_def)

lemma scsi_read_loop_outcome [outcome]: "outcome_ok X (scsi_read_loop hw mx f sec p n)"
proof (rule outcome_ok_loopI)
  fix s y
  assume "scsi_read_loop hw mx f sec p n s = Some y"
  then show "outcome_at X s y"
  proof (rule scsi_read_loop.raw_induct [rotated, of _ _ _ _ _ _ _ _ "\<lambda>hw mx f sec p n. outcome_at X"], goal_cases)
    case (1 rec hw mx f sec p n s y)
    have rec: "outcome_ok X (rec hw mx f sec p n)" for hw mx f sec p n by (rule outcome_ok_loopI) (rule 1(1))
    show ?case using 1(2) by (rule outcome_bnd_at) (intro outcome rec)+
  qed
qed

lemma virtio_scsi_read_many_outcome [outcome]: "outcome_ok X (virtio_scsi_read_many hw sec p n)"
  unfolding virtio_scsi_read_many_def by (intro outcome)

lemma ready_loop_outcome [outcome]: "outcome_ok X (ready_loop hw n)"
proof (rule outcome_ok_loopI)
  fix s y
  assume "ready_loop hw n s = Some y"
  then show "outcome_at X s y"
  proof (rule ready_loop.raw_induct [rotated, of _ _ _ _ "\<lambda>hw n. outcome_at X"], goal_cases)
    case (1 rec hw n s y)
    have rec: "outcome_ok X (rec hw n)" for hw n by (rule outcome_ok_loopI) (rule 1(1))
    show ?case using 1(2) by (rule outcome_bnd_at) (intro outcome rec)+
  qed
qed

lemma evpd_loop_outcome [outcome]: "outcome_ok X (evpd_loop hw i n)"
  by (induction n arbitrary: i) (simp_all only: evpd_loop.simps, (intro outcome | assumption | simp add: shape_def)+)

lemma virtio_scsi_setup_outcome [outcome]:
  "outcome_ok X (virtio_scsi_inquiry_response_is_cdrom hw r)" "outcome_ok X (virtio_scsi_setup hw)"
  unfolding virtio_scsi_setup_def virtio_scsi_inquiry_response_is_cdrom_def
  by (intro outcome; simp add: shape_def)+

end

end
