(* ===== verification/VirtioHost.thy ===== *)
theory VirtioHost
  imports Virtio
begin

text \<open>
  The other side of the rings: the chain of descriptors the host finds after \<open>send_cmds\<close>, and
  what \<open>virtio_run\<close> does with a host that follows the virtio protocol. The host is the
  parameter \<open>hypercall\<close>; the locale \<open>ring_host\<close> states what the loader relies on: a
  notification makes it serve the chain the driver has made available and mark it used, the
  time this takes is below a second, and the subchannel shows the end of its last command and
  no further status. How a request changes storage is the parameter \<open>serve\<close>.
\<close>

section \<open>Chains\<close>

text \<open>The descriptors of a chain, from entry \<open>i\<close> on; at most \<open>n\<close> are followed.\<close>

fun chain :: "vring_desc list \<Rightarrow> nat \<Rightarrow> nat \<Rightarrow> vring_desc list" where
  "chain ds 0 i = []"
| "chain ds (Suc n) i =
     (if i < length ds
      then ds ! i # (if flag_on (d_flags (ds ! i)) 1 then chain ds n (unat (d_next (ds ! i))) else [])
      else [])"

text \<open>What \<open>vring_send_buf\<close> puts into entry \<open>i\<close>, and a list of commands into the entries from \<open>i\<close> on.\<close>

definition cmd_desc :: "nat \<Rightarrow> virtio_cmd \<Rightarrow> vring_desc" where
  "cmd_desc i c = \<lparr>d_addr = vc_data c, d_len = vc_size c,
     d_flags = ucast (vc_flags c AND NOT VRING_HIDDEN_IS_CHAIN), d_next = word_of_nat (Suc i)\<rparr>"

fun descs :: "nat \<Rightarrow> virtio_cmd list \<Rightarrow> vring_desc list" where
  "descs i [] = []"
| "descs i (c # cs) = cmd_desc i c # descs (Suc i) cs"

lemma length_descs [simp]: "length (descs i cs) = length cs"
  by (induction cs arbitrary: i) simp_all

text \<open>All commands but the last announce the next one.\<close>

fun chained :: "virtio_cmd list \<Rightarrow> bool" where
  "chained [] \<longleftrightarrow> False"
| "chained (c # cs) \<longleftrightarrow> \<not> flag_on (vc_flags c) VRING_HIDDEN_IS_CHAIN \<and>
     (if cs = [] then \<not> flag_on (vc_flags c) VRING_DESC_F_NEXT else flag_on (vc_flags c) VRING_DESC_F_NEXT \<and> chained cs)"

lemma flag_on_bit: "flag_on w (2 ^ n) \<longleftrightarrow> bit w n" for w :: "'a::len word"
  by (simp add: and_exp_eq_0_iff_not_bit)

lemma flag_on_1: "flag_on w 1 \<longleftrightarrow> bit w 0" for w :: "'a::len word"
  using flag_on_bit [of w 0] by simp

lemma flag_on_256: "flag_on w 256 \<longleftrightarrow> bit w 8" for w :: "'a::len word"
  using flag_on_bit [of w 8] by simp

lemma bit_hidden: "bit VRING_HIDDEN_IS_CHAIN n \<longleftrightarrow> n = 8"
proof -
  have "VRING_HIDDEN_IS_CHAIN = 2 ^ 8" by (simp add: VRING_HIDDEN_IS_CHAIN_def)
  moreover have "bit (2 ^ 8 :: s32) n \<longleftrightarrow> n = 8" unfolding bit_exp_iff by auto
  ultimately show ?thesis by metis
qed

lemma desc_next [simp]: "flag_on (d_flags (cmd_desc i c)) 1 \<longleftrightarrow> flag_on (vc_flags c) VRING_DESC_F_NEXT"
  unfolding VRING_DESC_F_NEXT_def flag_on_1 by (simp add: cmd_desc_def bit_simps bit_hidden)

lemma desc_fields [simp]:
  "d_addr (cmd_desc i c) = vc_data c" "d_len (cmd_desc i c) = vc_size c" "d_next (cmd_desc i c) = word_of_nat (Suc i)"
  by (simp_all add: cmd_desc_def)

lemma chain_descs:
  assumes "chained cs" "length cs \<le> n" "i + length cs \<le> length ds" "length ds \<le> 65536"
    and "slice i (length cs) ds = descs i cs"
  shows "chain ds n i = descs i cs"
  using assms
proof (induction cs arbitrary: i n)
  case (Cons c cs)
  then obtain n' where n: "n = Suc n'" by (cases n) auto
  from Cons.prems have i: "i < length ds" by simp
  have "take (length (c # cs)) (drop i ds) = ds ! i # take (length cs) (drop (Suc i) ds)"
    using i by (simp add: Cons_nth_drop_Suc [symmetric])
  with Cons.prems(5) have d: "ds ! i = cmd_desc i c" "slice (Suc i) (length cs) ds = descs (Suc i) cs"
    by (simp_all add: slice_def)
  show ?case
  proof (cases "cs = []")
    case True
    with Cons.prems(1) i d n show ?thesis by simp
  next
    case False
    with Cons.prems have "chain ds n' (Suc i) = descs (Suc i) cs"
      by (intro Cons.IH) (auto simp: n d)
    moreover have "unat (word_of_nat (Suc i) :: u16) = Suc i"
      using Cons.prems(3, 4) False by (simp add: unat_of_nat take_bit_nat_eq_self del: of_nat_Suc)
         (cases cs; simp)
    ultimately show ?thesis using Cons.prems(1) False i d n by (simp del: of_nat_Suc)
  qed
qed simp


section \<open>Sending\<close>

text \<open>The ring after a list of commands has been put into the entries from \<open>i\<close> on.\<close>

definition sent_ring :: "nat \<Rightarrow> virtio_cmd list \<Rightarrow> ring_mem \<Rightarrow> ring_mem" where
  "sent_ring i cs m = m\<lparr>rm_desc := splice i (descs i cs) (rm_desc m),
     avail_ring := (if i = 0 then (avail_ring m)[unat (avail_idx m) mod length (avail_ring m) := 0] else avail_ring m),
     avail_idx := avail_idx m + 1\<rparr>"

definition sent :: "nat \<Rightarrow> nat \<Rightarrow> virtio_cmd list \<Rightarrow> 'd machine \<Rightarrow> 'd machine" where
  "sent q i cs s = s\<lparr>io := (io s)\<lparr>rmem := (rmem (io s))[q := sent_ring i cs (rmem (io s) ! q)],
     vrings := (vrings (io s))[q := (vrings (io s) ! q)\<lparr>next_idx := word_of_nat (i + length cs)\<rparr>]\<rparr>\<rparr>"

lemma send_buf_ring_cmd:
  assumes "next_idx v = word_of_nat i" "i < length (rm_desc m)" "length (rm_desc m) \<le> 65536"
    "vr_num v = word_of_nat (length (avail_ring m))" "0 < length (avail_ring m)" "length (avail_ring m) \<le> 65536"
    "\<not> flag_on (vc_flags c) VRING_HIDDEN_IS_CHAIN"
  shows "send_buf_ring v (vc_data c) (vc_size c) (vc_flags c OR (if i \<noteq> 0 then VRING_HIDDEN_IS_CHAIN else 0)) m =
    Inr (m\<lparr>rm_desc := (rm_desc m)[i := cmd_desc i c],
     avail_ring := (if i = 0 then (avail_ring m)[unat (avail_idx m) mod length (avail_ring m) := 0] else avail_ring m),
     avail_idx := (if flag_on (vc_flags c) VRING_DESC_F_NEXT then avail_idx m else avail_idx m + 1)\<rparr>)"
proof -
  let ?f = "vc_flags c OR (if i \<noteq> 0 then VRING_HIDDEN_IS_CHAIN else 0)"
  have i: "unat (word_of_nat i :: s32) = i" using assms by (simp add: unat_of_nat take_bit_nat_eq_self)
  have n: "unat (word_of_nat (length (avail_ring m)) :: u32) = length (avail_ring m)"
    using assms by (simp add: unat_of_nat take_bit_nat_eq_self)
  then have n0: "(word_of_nat (length (avail_ring m)) :: u32) \<noteq> 0" using assms by (metis neq0_conv unat_eq_0)
  have c: "flag_on ?f VRING_HIDDEN_IS_CHAIN \<longleftrightarrow> i \<noteq> 0"
    using assms(7) by (simp add: VRING_HIDDEN_IS_CHAIN_def flag_on_256 bit_simps)
  have x: "flag_on ?f VRING_DESC_F_NEXT \<longleftrightarrow> flag_on (vc_flags c) VRING_DESC_F_NEXT"
    unfolding VRING_DESC_F_NEXT_def flag_on_1 by (simp add: bit_simps bit_hidden)
  have d: "?f AND NOT VRING_HIDDEN_IS_CHAIN = vc_flags c AND NOT VRING_HIDDEN_IS_CHAIN"
    by (rule bit_word_eqI) (auto simp: bit_simps bit_hidden)
  have "(ucast (word_of_nat i :: s32) :: u16) = word_of_nat i"
    by (rule bit_word_eqI) (auto simp: bit_simps)
  then have e: "(ucast (word_of_nat i :: s32) + 1 :: u16) = word_of_nat (Suc i)" by simp
  show ?thesis
    using assms i n n0 unfolding send_buf_ring_def Let_def c x d
    by (simp add: cmd_desc_def e del: of_nat_Suc)
qed


definition ring_wf :: "ring_mem \<Rightarrow> vring \<Rightarrow> bool" where
  "ring_wf m v \<longleftrightarrow> length (rm_desc m) = length (avail_ring m) \<and> 4 \<le> length (avail_ring m) \<and>
     length (avail_ring m) \<le> 32768 \<and> vr_num v = word_of_nat (length (avail_ring m))"

definition set_ring :: "nat \<Rightarrow> ring_mem \<Rightarrow> vring \<Rightarrow> 'd machine \<Rightarrow> 'd machine" where
  "set_ring q m v s = s\<lparr>io := (io s)\<lparr>rmem := (rmem (io s))[q := m], vrings := (vrings (io s))[q := v]\<rparr>\<rparr>"

abbreviation has_ring :: "nat \<Rightarrow> 'd machine \<Rightarrow> bool" where
  "has_ring q s \<equiv> q < length (rmem (io s)) \<and> q < length (vrings (io s))"

lemma set_ring_set [simp]: "set_ring q m v (set_ring q m' v' s) = set_ring q m v s"
  by (simp add: set_ring_def)

lemma set_ring_get [simp]:
  "has_ring q s \<Longrightarrow> rmem (io (set_ring q m v s)) ! q = m" "has_ring q s \<Longrightarrow> vrings (io (set_ring q m v s)) ! q = v"
  "has_ring j (set_ring q m v s) \<longleftrightarrow> has_ring j s"
  by (simp_all add: set_ring_def)

lemma sent_set_ring: "sent q i cs s = set_ring q (sent_ring i cs (rmem (io s) ! q))
    ((vrings (io s) ! q)\<lparr>next_idx := word_of_nat (i + length cs)\<rparr>) s"
  by (simp add: sent_def set_ring_def)

lemma vring_send_buf_eq:
  assumes "has_ring q s" "send_buf_ring (vrings (io s) ! q) p len f (rmem (io s) ! q) = Inr m"
  shows "vring_send_buf q p len f s =
    Some (Ret (), set_ring q m ((vrings (io s) ! q)\<lparr>next_idx := next_idx (vrings (io s) ! q) + 1\<rparr>) s)"
  using assms by (simp add: vring_send_buf_def bnd_def get_vr_def get_rm_def set_rm_def set_vr_def modify_def set_ring_def)

lemma sent_ring_Cons:
  assumes "i + length cs < length (rm_desc m)"
  shows "sent_ring (Suc i) cs (m\<lparr>rm_desc := (rm_desc m)[i := cmd_desc i c],
       avail_ring := (if i = 0 then (avail_ring m)[unat (avail_idx m) mod length (avail_ring m) := 0] else avail_ring m)\<rparr>) =
    sent_ring i (c # cs) m"
  using assms splice_append [of i "[cmd_desc i c]" "descs (Suc i) cs" "rm_desc m"]
  by (simp add: sent_ring_def list_update_splice)

lemma send_cmds_sent:
  assumes "has_ring q s" "ring_wf (rmem (io s) ! q) (vrings (io s) ! q)" "next_idx (vrings (io s) ! q) = word_of_nat i"
    "chained cs" "i + length cs \<le> length (rm_desc (rmem (io s) ! q))"
  shows "send_cmds q cs i s = Some (Ret (), sent q i cs s)"
  using assms
proof (induction cs arbitrary: i s)
  case (Cons c cs)
  let ?m = "rmem (io s) ! q" and ?v = "vrings (io s) ! q"
  let ?m' = "?m\<lparr>rm_desc := (rm_desc ?m)[i := cmd_desc i c],
     avail_ring := (if i = 0 then (avail_ring ?m)[unat (avail_idx ?m) mod length (avail_ring ?m) := 0] else avail_ring ?m),
     avail_idx := (if flag_on (vc_flags c) VRING_DESC_F_NEXT then avail_idx ?m else avail_idx ?m + 1)\<rparr>"
  let ?v' = "?v\<lparr>next_idx := word_of_nat (Suc i)\<rparr>"
  have wf: "length (rm_desc ?m) = length (avail_ring ?m)" "4 \<le> length (avail_ring ?m)" "length (avail_ring ?m) \<le> 32768"
    "vr_num ?v = word_of_nat (length (avail_ring ?m))" using Cons.prems(2) by (simp_all add: ring_wf_def)
  have "send_buf_ring ?v (vc_data c) (vc_size c) (vc_flags c OR (if i \<noteq> 0 then VRING_HIDDEN_IS_CHAIN else 0)) ?m = Inr ?m'"
    using Cons.prems wf by (intro send_buf_ring_cmd) auto
  from vring_send_buf_eq [OF Cons.prems(1) this]
  have send: "vring_send_buf q (vc_data c) (vc_size c) (vc_flags c OR (if i \<noteq> 0 then VRING_HIDDEN_IS_CHAIN else 0)) s =
      Some (Ret (), set_ring q ?m' ?v' s)"
    using Cons.prems(3) by (simp add: add.commute)
  show ?case
  proof (cases "cs = []")
    case True
    have "(rm_desc ?m)[i := cmd_desc i c] = splice i [cmd_desc i c] (rm_desc ?m)"
      using Cons.prems(5) by (intro list_update_splice) simp
    then have "?m' = sent_ring i [c] ?m" using Cons.prems(4) True unfolding sent_ring_def by simp
    with Cons.prems(4) True send show ?thesis by (simp add: bnd_def ret_def sent_set_ring)
  next
    case False
    with Cons.prems(4) have ch: "flag_on (vc_flags c) VRING_DESC_F_NEXT" "chained cs" by simp_all
    have "ring_wf ?m' ?v'" using wf by (simp add: ring_wf_def)
    then have "send_cmds q cs (Suc i) (set_ring q ?m' ?v' s) = Some (Ret (), sent q (Suc i) cs (set_ring q ?m' ?v' s))"
      using Cons.prems(1, 5) ch by (intro Cons.IH) auto
    moreover have "sent q (Suc i) cs (set_ring q ?m' ?v' s) = sent q i (c # cs) s"
      using Cons.prems(1, 5) sent_ring_Cons [of i cs ?m c] ch by (simp add: sent_set_ring)
    ultimately show ?thesis using send ch by (simp add: bnd_def)
  qed
qed simp


section \<open>A host that answers\<close>

lemma ucast_index_inject: "(ucast (a :: u16) :: s32) = ucast b \<longleftrightarrow> a = b"
proof -
  have "unat (ucast w :: s32) = unat w" for w :: u16
    using unsigned_less [of w, where ?'a = nat] by (simp add: unsigned_ucast_eq take_bit_nat_eq_self)
  then show ?thesis by (metis word_unat_eq_iff)
qed

definition idle :: "nat \<Rightarrow> 'd machine \<Rightarrow> bool" where
  "idle j s \<longleftrightarrow> has_ring j s \<and> j < 3 \<and> (let m = rmem (io s) ! j; v = vrings (io s) ! j in
     ring_wf m v \<and> next_idx v = 0 \<and> vr_id v = word_of_nat j \<and> vr_used_idx v = ucast (used_idx m) \<and>
     avail_idx m = used_idx m)"

definition rings_idle :: "'d machine \<Rightarrow> bool" where
  "rings_idle s \<longleftrightarrow> wait_reply_timeout (vd s) < 2 ^ 63 \<and> (\<forall>j < nr_vqs (vd s). idle j s)"

lemma send_cmds_idle:
  assumes "rings_idle s" "q < nr_vqs (vd s)" "chained cs" "length cs \<le> 4"
  shows "send_cmds q cs 0 s = Some (Ret (), sent q 0 cs s)"
proof -
  from assms(1, 2) have "idle q s" by (simp add: rings_idle_def)
  then show ?thesis using assms(3, 4) by (intro send_cmds_sent) (auto simp: idle_def Let_def ring_wf_def)
qed

definition written :: "vring_desc list \<Rightarrow> u32" where
  "written c = sum_list (map d_len (filter (\<lambda>d. flag_on (d_flags d) 2) c))"

definition answered :: "(vring_desc list \<Rightarrow> 'd plat \<Rightarrow> 'd plat) \<Rightarrow> nat \<Rightarrow> 'd plat \<Rightarrow> 'd plat" where
  "answered serve q p = (let m = p_rmem p ! q in
     if q < length (p_rmem p) \<and> used_idx m \<noteq> avail_idx m
     then let slot = unat (used_idx m) mod length (avail_ring m); h = avail_ring m ! slot;
              c = chain (rm_desc m) (length (rm_desc m)) (unat h) in
          (serve c p)\<lparr>p_rmem := (p_rmem p)[q := m\<lparr>used_idx := used_idx m + 1,
             used_ring := (used_ring m)[slot := (ucast h, written c)]\<rparr>]\<rparr>
     else p)"

locale ring_host =
  fixes hw :: "'d hw" and serve :: "vring_desc list \<Rightarrow> 'd plat \<Rightarrow> 'd plat" and clk :: u64
  assumes notify: "hypercall hw KVM_S390_VIRTIO_CCW_NOTIFY a q cookie p = (cookie, answered serve (unat q) p)"
    and serve_rings: "serve c (p\<lparr>p_rmem := r\<rparr>) = (serve c p)\<lparr>p_rmem := r\<rparr>"
    and clock: "stck hw d = (clk, d)"
    and cpu: "yield_cpu hw p = ((), p)"
    and status: "\<exists>i. tsch hw sch p = ((1, i), p) \<and> cstat (irb_scsw i) = 0 \<and> dstat (irb_scsw i) = 0xc"
begin

lemma yield_eq [simp]: "yield hw s = Some (Ret (), s)"
  by (simp add: yield_def plat_op_eq cpu)

lemma drain_irqs_eq [simp]: "drain_irqs hw sch s = Some (Ret 0, s)"
proof -
  obtain i where i: "tsch hw sch (to_plat s) = ((1, i), to_plat s)" "cstat (irb_scsw i) = 0" "dstat (irb_scsw i) = 0xc"
    using status by metis
  show ?thesis unfolding drain_irqs_def by (subst drain_irqs_loop.simps) (simp add: bnd_plat_op tsch_irb_def i)
qed

definition now :: u64 where
  "now = drop_bit 12 clk div 1000 div 1000"

lemma get_time_seconds_eq [simp]: "get_time_seconds hw s = Some (Ret now, s)"
  by (simp add: get_time_seconds_def get_time_ms_def get_clock_def bnd_def dev_op_def clock ret_def now_def)

lemma now_less: "timeout \<noteq> 0 \<Longrightarrow> timeout < 2 ^ 63 \<Longrightarrow> now < now + timeout"
proof -
  assume t: "timeout \<noteq> 0" "timeout < 2 ^ 63"
  have "unat now \<le> unat (drop_bit 12 clk)" unfolding now_def unat_div by (meson div_le_dividend order_trans)
  also have "\<dots> < 2 ^ 52" using unsigned_less [of clk, where ?'a = nat] by (simp add: drop_bit_eq_div unat_div less_mult_imp_div_less)
  finally have "unat now < 2 ^ 52" .
  moreover have "unat timeout < 2 ^ 63" "0 < unat timeout" using t by (simp_all add: word_less_nat_alt unat_gt_0)
  ultimately have "unat (now + timeout) = unat now + unat timeout" by (intro unat_add_lem [THEN iffD1]) simp
  with \<open>0 < unat timeout\<close> show ?thesis by (simp add: word_less_nat_alt)
qed


lemma vr_id_index: "j < 3 \<Longrightarrow> unat (int_to_u64 (word_of_nat j :: s32)) = j"
proof -
  assume "j < 3"
  then have "j = 0 \<or> j = 1 \<or> j = 2" by auto
  then show ?thesis by auto
qed

lemma answered_rings: "length (p_rmem (answered serve q p)) = length (p_rmem p)"
  by (simp add: answered_def Let_def)

lemma vring_notify_eq:
  assumes "has_ring j s" "j < 3" "vr_id (vrings (io s) ! j) = word_of_nat j"
  shows "vring_notify hw j s = Some (Ret (0 \<le> sint (vr_cookie (vrings (io s) ! j))), from_plat (answered serve j (to_plat s)) s)"
proof -
  have "set_vr j (vrings (io s) ! j) (from_plat p s) = Some (Ret (), from_plat p s)" for p :: "'d plat"
    by (simp add: set_vr_def modify_def from_plat_def)
  then show ?thesis
    using assms by (simp add: vring_notify_def bnd_def get_vr_def virtio_notify_def kvm_hypercall_def plat_op_eq
      notify vr_id_index ret_def)
qed

lemma vr_poll_waits:
  assumes "has_ring j s" "j < 3" "vr_id (vrings (io s) ! j) = word_of_nat j"
    "vr_used_idx (vrings (io s) ! j) = ucast (used_idx (rmem (io s) ! j))"
  shows "vr_poll hw j s = Some (Ret 0, from_plat (answered serve j (to_plat s)) s)"
  using assms by (simp add: vr_poll_def bnd_def get_vr_def get_rm_def vring_notify_eq ret_def)

lemma vr_poll_idle: "idle j s \<Longrightarrow> vr_poll hw j s = Some (Ret 0, s)"
proof -
  assume i: "idle j s"
  then have "answered serve j (to_plat s) = to_plat s" by (simp add: idle_def Let_def answered_def to_plat_def)
  then show ?thesis using i by (subst vr_poll_waits) (auto simp: idle_def Let_def)
qed

lemma poll_all_append: "poll_all hw (xs @ ys) r s = bnd (poll_all hw xs r) (poll_all hw ys) s"
  by (induction xs arbitrary: r s) (simp_all add: bnd_assoc, simp add: bnd_def split: option.splits prod.splits result.splits)

lemma poll_all_idle: "\<forall>j \<in> set is. idle j s \<Longrightarrow> poll_all hw is r s = Some (Ret r, s)"
  by (induction "is" arbitrary: r) (simp_all add: ret_def bnd_def vr_poll_idle)

lemma poll_all_one:
  assumes "q < n" "vr_poll hw q s = Some (Ret k, t)" "\<forall>j<n. j \<noteq> q \<longrightarrow> idle j s \<and> idle j t"
  shows "poll_all hw [0..<n] 0 s = Some (Ret k, t)"
proof -
  have "[0..<n] = [0..<q] @ q # [Suc q..<n]" using assms(1) upt_add_eq_append [of 0 q "n - q"] by (simp add: upt_conv_Cons)
  moreover have "poll_all hw [0..<q] 0 s = Some (Ret 0, s)" using assms by (intro poll_all_idle) auto
  moreover have "poll_all hw [Suc q..<n] k t = Some (Ret k, t)" using assms by (intro poll_all_idle) auto
  ultimately show ?thesis using assms(2) by (simp add: poll_all_append bnd_def)
qed

text \<open>The machine after the host has served a chain, as \<open>vr_poll\<close> leaves it.\<close>

definition served :: "nat \<Rightarrow> virtio_cmd list \<Rightarrow> 'd machine \<Rightarrow> 'd machine" where
  "served q cs s = (let m = sent_ring 0 cs (rmem (io s) ! q);
       m' = m\<lparr>used_idx := used_idx m + 1,
         used_ring := (used_ring m)[unat (used_idx m) mod length (avail_ring m) := (0, written (descs 0 cs))]\<rparr> in
     set_ring q (m'\<lparr>rm_desc := (rm_desc m')[0 := (rm_desc m' ! 0)\<lparr>d_len := 0, d_flags := 0\<rparr>]\<rparr>)
       ((vrings (io s) ! q)\<lparr>vr_used_idx := ucast (used_idx m'), next_idx := 0\<rparr>)
       (from_plat (serve (descs 0 cs) (to_plat s)) s))"


lemma set_ring_idle: "j \<noteq> q \<Longrightarrow> idle j (set_ring q m v s) \<longleftrightarrow> idle j s"
  by (simp add: set_ring_def idle_def Let_def)

lemma from_plat_idle: "p_rmem p = rmem (io s) \<Longrightarrow> idle j (from_plat p s) \<longleftrightarrow> idle j s"
  by (simp add: from_plat_def idle_def Let_def)

lemma serve_rmem: "p_rmem (serve c p) = p_rmem p"
  using serve_rings [of c "p_rmem p" p] by (metis plat.surjective plat.update_convs(4) plat.select_convs(4))

lemma from_plat_set_ring:
  "from_plat (p\<lparr>p_rmem := (rmem (io s))[q := m]\<rparr>) (set_ring q m' v s) =
     set_ring q m v (from_plat (p\<lparr>p_rmem := rmem (io s)\<rparr>) s)"
  by (simp add: from_plat_def set_ring_def)

lemma answered_sent:
  assumes "idle q s" "chained cs" "length cs \<le> 4"
  defines "m \<equiv> sent_ring 0 cs (rmem (io s) ! q)"
  shows "answered serve q (to_plat (sent q 0 cs s)) = (serve (descs 0 cs) (to_plat s))
    \<lparr>p_rmem := (rmem (io s))[q := m\<lparr>used_idx := used_idx m + 1,
         used_ring := (used_ring m)[unat (used_idx m) mod length (avail_ring m) := (0, written (descs 0 cs))]\<rparr>]\<rparr>"
proof -
  let ?m = "rmem (io s) ! q"
  from assms(1) have i: "has_ring q s" "length (rm_desc ?m) = length (avail_ring ?m)" "4 \<le> length (avail_ring ?m)"
    "length (avail_ring ?m) \<le> 32768" "avail_idx ?m = used_idx ?m"
    by (simp_all add: idle_def Let_def ring_wf_def)
  have len: "length (avail_ring m) = length (avail_ring ?m)" "length (rm_desc m) = length (avail_ring ?m)"
    "used_idx m = used_idx ?m" "avail_idx m = used_idx ?m + 1"
    using i assms(3) by (simp_all add: m_def sent_ring_def)
  have slot: "avail_ring m ! (unat (used_idx ?m) mod length (avail_ring ?m)) = 0"
    using i by (simp add: m_def sent_ring_def) (rule nth_list_update_eq, rule mod_less_divisor, auto)
  have "chain (rm_desc m) (length (rm_desc m)) 0 = descs 0 cs"
    using assms(2, 3) i len by (intro chain_descs) (auto simp: m_def sent_ring_def)
  moreover have "to_plat (sent q 0 cs s) = (to_plat s)\<lparr>p_rmem := (rmem (io s))[q := m]\<rparr>"
    by (simp add: to_plat_def sent_def m_def)
  moreover have "used_idx ?m \<noteq> used_idx ?m + 1" by simp
  ultimately show ?thesis using i len slot by (simp add: answered_def Let_def serve_rings)
qed

lemma vr_poll_sent:
  assumes "idle q s" "chained cs" "length cs \<le> 4"
  defines "m \<equiv> sent_ring 0 cs (rmem (io s) ! q)"
  shows "vr_poll hw q (sent q 0 cs s) = Some (Ret 0, set_ring q (m\<lparr>used_idx := used_idx m + 1,
         used_ring := (used_ring m)[unat (used_idx m) mod length (avail_ring m) := (0, written (descs 0 cs))]\<rparr>)
       ((vrings (io s) ! q)\<lparr>next_idx := word_of_nat (length cs)\<rparr>) (from_plat (serve (descs 0 cs) (to_plat s)) s))"
proof -
  from assms(1) have i: "has_ring q s" "q < 3" "vr_id (vrings (io s) ! q) = word_of_nat q"
    "vr_used_idx (vrings (io s) ! q) = ucast (used_idx (rmem (io s) ! q))"
    by (simp_all add: idle_def Let_def)
  have "used_idx (sent_ring 0 cs (rmem (io s) ! q)) = used_idx (rmem (io s) ! q)" by (simp add: sent_ring_def)
  then have "vr_poll hw q (sent q 0 cs s) = Some (Ret 0, from_plat (answered serve q (to_plat (sent q 0 cs s))) (sent q 0 cs s))"
    using i by (intro vr_poll_waits) (simp_all add: sent_set_ring)
  moreover have "(serve (descs 0 cs) (to_plat s))\<lparr>p_rmem := rmem (io s)\<rparr> = serve (descs 0 cs) (to_plat s)"
    using serve_rings [of "descs 0 cs" "rmem (io s)" "to_plat s"] by (simp add: to_plat_def)
  ultimately show ?thesis
    unfolding answered_sent [OF assms(1-3)] m_def by (simp add: sent_set_ring from_plat_set_ring)
qed


lemma wait_loop_step:
  assumes "poll_all hw [0..<nr_vqs (vd s)] 0 s = Some (Ret 0, t)" "wait_reply_timeout (vd t) < 2 ^ 63"
  shows "wait_loop hw (now + wait_reply_timeout (vd t)) s = wait_loop hw (now + wait_reply_timeout (vd t)) t"
  using assms now_less [of "wait_reply_timeout (vd t)"]
  by (subst wait_loop.simps) (simp add: bnd_def gets_def)

lemma wait_loop_end:
  assumes "poll_all hw [0..<nr_vqs (vd s)] 0 s = Some (Ret 1, t)"
  shows "wait_loop hw target s = Some (Ret 0, t)"
  using assms by (subst wait_loop.simps) (simp add: bnd_def gets_def ret_def)

lemma set_ring_sizes [simp]:
  "vd (set_ring q m v s) = vd s" "vd (from_plat p s) = vd s" "vrings (io (from_plat p s)) = vrings (io s)"
  "rmem (io (from_plat p s)) = p_rmem p"
  by (simp_all add: set_ring_def from_plat_def)

lemma vr_poll_reply:
  assumes "has_ring q u" "rmem (io u) ! q = m" "vrings (io u) ! q = v" "ucast (used_idx m) \<noteq> vr_used_idx v" "rm_desc m \<noteq> []"
  shows "vr_poll hw q u = Some (Ret 1, set_ring q (m\<lparr>rm_desc := (rm_desc m)[0 := (rm_desc m ! 0)\<lparr>d_len := 0, d_flags := 0\<rparr>]\<rparr>)
    (v\<lparr>vr_used_idx := ucast (used_idx m), next_idx := 0\<rparr>) u)"
  using assms by (simp add: vr_poll_def bnd_def get_vr_def get_rm_def set_rm_def set_vr_def modify_def ret_def set_ring_def)

lemma vr_poll_served:
  assumes "idle q s" "chained cs" "length cs \<le> 4"
  defines "m \<equiv> sent_ring 0 cs (rmem (io s) ! q)"
  shows "vr_poll hw q (set_ring q (m\<lparr>used_idx := used_idx m + 1,
         used_ring := (used_ring m)[unat (used_idx m) mod length (avail_ring m) := (0, written (descs 0 cs))]\<rparr>)
       ((vrings (io s) ! q)\<lparr>next_idx := word_of_nat (length cs)\<rparr>) (from_plat (serve (descs 0 cs) (to_plat s)) s)) =
     Some (Ret 1, served q cs s)"
proof -
  let ?v = "(vrings (io s) ! q)\<lparr>next_idx := word_of_nat (length cs)\<rparr>"
  let ?m2 = "m\<lparr>used_idx := used_idx m + 1,
         used_ring := (used_ring m)[unat (used_idx m) mod length (avail_ring m) := (0, written (descs 0 cs))]\<rparr>"
  let ?u = "set_ring q ?m2 ?v (from_plat (serve (descs 0 cs) (to_plat s)) s)"
  have i: "has_ring q s" "vr_used_idx (vrings (io s) ! q) = ucast (used_idx m)"
    using assms(1) by (simp_all add: idle_def Let_def m_def sent_ring_def)
  have rm: "p_rmem (serve (descs 0 cs) (to_plat s)) = rmem (io s)" by (simp add: serve_rmem to_plat_def)
  have "used_idx m + 1 \<noteq> used_idx m" by simp
  then have "ucast (used_idx m + 1) \<noteq> (ucast (used_idx m) :: s32)" by (simp add: ucast_index_inject)
  moreover have "4 \<le> length (rm_desc m)" using assms(1, 3) by (simp add: idle_def Let_def ring_wf_def sent_ring_def m_def)
  then have "rm_desc m \<noteq> []" by auto
  ultimately have "vr_poll hw q ?u = Some (Ret 1, set_ring q (?m2\<lparr>rm_desc := (rm_desc ?m2)[0 := (rm_desc ?m2 ! 0)\<lparr>d_len := 0, d_flags := 0\<rparr>]\<rparr>)
      (?v\<lparr>vr_used_idx := ucast (used_idx ?m2), next_idx := 0\<rparr>) ?u)"
    using i rm by (intro vr_poll_reply) simp_all
  then show ?thesis by (simp add: served_def Let_def m_def)
qed

lemma wait_reply_served:
  assumes "rings_idle s" "q < nr_vqs (vd s)" "chained cs" "length cs \<le> 4"
  shows "vring_wait_reply hw (sent q 0 cs s) = Some (Ret 0, served q cs s)"
proof -
  let ?m = "sent_ring 0 cs (rmem (io s) ! q)" and ?v = "(vrings (io s) ! q)\<lparr>next_idx := word_of_nat (length cs)\<rparr>"
  let ?m2 = "?m\<lparr>used_idx := used_idx ?m + 1,
         used_ring := (used_ring ?m)[unat (used_idx ?m) mod length (avail_ring ?m) := (0, written (descs 0 cs))]\<rparr>"
  let ?u = "set_ring q ?m2 ?v (from_plat (serve (descs 0 cs) (to_plat s)) s)"
  from assms have i: "idle q s" "has_ring q s" and t: "wait_reply_timeout (vd s) < 2 ^ 63"
    by (auto simp: rings_idle_def idle_def)
  have rm: "p_rmem (serve (descs 0 cs) (to_plat s)) = rmem (io s)" by (simp add: serve_rmem to_plat_def)
  have others: "\<forall>j<nr_vqs (vd s). j \<noteq> q \<longrightarrow> idle j (set_ring q m v s) \<and> idle j (set_ring q m' v' (from_plat (serve (descs 0 cs) (to_plat s)) s))"
    for m v m' v' using assms(1) rm by (auto simp: rings_idle_def set_ring_idle from_plat_idle)
  have 1: "poll_all hw [0..<nr_vqs (vd (sent q 0 cs s))] 0 (sent q 0 cs s) = Some (Ret 0, ?u)"
    using others assms(2) by (intro poll_all_one [where q = q] vr_poll_sent i assms) (auto simp: sent_set_ring)
  have "vr_poll hw q ?u = Some (Ret 1, served q cs s)" by (rule vr_poll_served [OF i(1) assms(3, 4)])
  then have 2: "poll_all hw [0..<nr_vqs (vd ?u)] 0 ?u = Some (Ret 1, served q cs s)"
    using others assms(2) by (intro poll_all_one [where q = q]) (auto simp: served_def Let_def)
  show ?thesis
    using wait_loop_step [OF 1] wait_loop_end [OF 2] t
    by (simp add: vring_wait_reply_def bnd_def gets_def sent_set_ring)
qed

lemma virtio_run_served:
  assumes "rings_idle s" "q < nr_vqs (vd s)" "chained cs" "length cs \<le> 4"
  shows "virtio_run hw q cs s = Some (Ret 0, served q cs s)"
proof -
  from assms(1, 2) have i: "idle q s" by (simp add: rings_idle_def)
  have "send_cmds q cs 0 s = Some (Ret (), sent q 0 cs s)" by (rule send_cmds_idle [OF assms])
  moreover have "has_ring q (served q cs s)" using i by (simp add: served_def Let_def idle_def set_ring_def serve_rmem to_plat_def from_plat_def)
  ultimately show ?thesis
    using wait_reply_served [OF assms] by (simp add: virtio_run_def bnd_def get_vr_def ret_def)
qed

lemma served_ring_idle:
  assumes "idle q s" "length cs \<le> 4"
  shows "idle q (served q cs s)"
proof -
  have rm: "p_rmem (serve (descs 0 cs) (to_plat s)) = rmem (io s)" by (simp add: serve_rmem to_plat_def)
  show ?thesis using assms rm by (simp add: idle_def served_def Let_def ring_wf_def sent_ring_def)
qed

lemma served_idle:
  assumes "rings_idle s" "q < nr_vqs (vd s)" "chained cs" "length cs \<le> 4"
  shows "rings_idle (served q cs s)"
proof -
  from assms(1, 2) have i: "idle q s" by (simp add: rings_idle_def)
  have rm: "p_rmem (serve (descs 0 cs) (to_plat s)) = rmem (io s)" by (simp add: serve_rmem to_plat_def)
  have "idle q (served q cs s)" by (rule served_ring_idle [OF i assms(4)])
  moreover have "idle j (served q cs s)" if "j < nr_vqs (vd s)" "j \<noteq> q" for j
    using that assms(1) rm by (simp add: served_def Let_def set_ring_idle from_plat_idle rings_idle_def)
  ultimately show ?thesis using assms(1) by (auto simp: rings_idle_def served_def Let_def)
qed

text \<open>Outside the rings, the only change is what the host did.\<close>

lemma served_frame:
  "(served q cs s)\<lparr>io := j\<rparr> = (from_plat (serve (descs 0 cs) (to_plat s)) s)\<lparr>io := j\<rparr>"
  "dev (io (served q cs s)) = p_dev (serve (descs 0 cs) (to_plat s))"
  "scr (io (served q cs s)) = scr (io (from_plat (serve (descs 0 cs) (to_plat s)) s))"
  "length (vrings (io (served q cs s))) = length (vrings (io s))" "vd (served q cs s) = vd s"
  "bufs (served q cs s) = bufs (from_plat (serve (descs 0 cs) (to_plat s)) s)"
  by (simp_all add: served_def Let_def set_ring_def from_plat_def)

end

section \<open>Properties\<close>

text \<open>
  After the driver has put a list of commands on a ring, one more request is available to
  the host, and the chain of descriptors it starts with is exactly the list of commands, in
  order, each with its address, length and flags.
\<close>

lemma send_cmds_chain:
  assumes "has_ring q s" "ring_wf (rmem (io s) ! q) (vrings (io s) ! q)" "next_idx (vrings (io s) ! q) = 0"
    and "chained cs" "length cs \<le> length (rm_desc (rmem (io s) ! q))"
  shows "\<exists>m v. send_cmds q cs 0 s = Some (Ret (), set_ring q m v s) \<and>
    (let old = rmem (io s) ! q; first = avail_ring m ! (unat (avail_idx old) mod length (avail_ring old)) in
     avail_idx m = avail_idx old + 1 \<and> used_idx m = used_idx old \<and>
     chain (rm_desc m) (length (rm_desc m)) (unat first) = descs 0 cs)"
proof -
  let ?m = "sent_ring 0 cs (rmem (io s) ! q)" and ?a = "avail_ring (rmem (io s) ! q)"
  have w: "length (rm_desc (rmem (io s) ! q)) = length ?a" "0 < length ?a" "length ?a \<le> 32768"
    using assms(2) by (auto simp: ring_wf_def)
  have "chain (rm_desc ?m) (length (rm_desc ?m)) 0 = descs 0 cs"
    using assms(4, 5) w by (intro chain_descs) (auto simp: sent_ring_def)
  moreover have "avail_ring ?m ! (unat (avail_idx (rmem (io s) ! q)) mod length ?a) = 0"
    using w(2) by (simp add: sent_ring_def)
  moreover have "send_cmds q cs 0 s = Some (Ret (), sent q 0 cs s)"
    using assms by (intro send_cmds_sent) simp_all
  ultimately show ?thesis unfolding sent_set_ring
    by (intro exI conjI) (assumption, simp add: Let_def, simp add: sent_ring_def)
qed



end
