(* ===== verification/VirtioBlk.thy ===== *)
theory VirtioBlk
  imports VirtioScsi VirtioHost
begin

text \<open>
  The disk (\<open>virtio-blkdev.c\<close>): reading blocks through virtio-blk or virtio-scsi, the
  geometry and block size the loader goes by, and what it assumes of a disk it guesses the
  nature of.
\<close>

section \<open>Geometry\<close>

text \<open>\<open>sector * (virtio_get_block_size() / VIRTIO_SECTOR_SIZE)\<close>: the quotient is an \<open>int\<close>.\<close>

definition virtio_sector_adjust :: "'d machine \<Rightarrow> u64 \<Rightarrow> u64" where
  "virtio_sector_adjust s sector =
     sector * int_to_u64 (s32_div (virtio_get_block_size s) VIRTIO_SECTOR_SIZE)"

definition virtio_eckd_sectors_for_block_size :: "s32 \<Rightarrow> u8" where
  "virtio_eckd_sectors_for_block_size sz =
     (if sz = 512 then 49 else if sz = 1024 then 33 else if sz = 2048 then 21
      else if sz = 4096 then 12 else 0)"

definition virtio_guessed_disk_nature :: "'d machine \<Rightarrow> gdn" where
  "virtio_guessed_disk_nature s = guessed_disk_nature (vd s)"

definition virtio_assume_scsi :: "('d, unit) fw" where
  "virtio_assume_scsi =
     bnd (gets cu_model) (\<lambda>model.
     if model = VIRTIO_ID_BLOCK
     then seq (upd_vd (\<lambda>v. v\<lparr>guessed_disk_nature := GDN_SCSI\<rparr>))
         (seq (store cfg_blk_size (to_be 4 VIRTIO_SCSI_BLOCK_SIZE))
         (seq (store cfg_physical_block_exp [0])
         (upd_vd (\<lambda>v. v\<lparr>blk_factor := 1\<rparr>))))
     else if model = VIRTIO_ID_SCSI
     then upd_vd (\<lambda>v. v\<lparr>scsi_block_size := VIRTIO_SCSI_BLOCK_SIZE\<rparr>)
     else ret ())"

definition virtio_assume_iso9660 :: "('d, unit) fw" where
  "virtio_assume_iso9660 =
     bnd (gets cu_model) (\<lambda>model.
     if model = VIRTIO_ID_BLOCK
     then seq (upd_vd (\<lambda>v. v\<lparr>guessed_disk_nature := GDN_SCSI\<rparr>))
         (seq (store cfg_blk_size (to_be 4 VIRTIO_ISO_BLOCK_SIZE))
         (seq (store cfg_physical_block_exp [0])
         (upd_vd (\<lambda>v. v\<lparr>blk_factor := s32_div VIRTIO_ISO_BLOCK_SIZE VIRTIO_SECTOR_SIZE\<rparr>))))
     else if model = VIRTIO_ID_SCSI
     then upd_vd (\<lambda>v. v\<lparr>scsi_block_size := VIRTIO_ISO_BLOCK_SIZE\<rparr>)
     else ret ())"

definition virtio_assume_eckd :: "('d, unit) fw" where
  "virtio_assume_eckd =
     seq (upd_vd (\<lambda>v. v\<lparr>guessed_disk_nature := GDN_DASD, blk_factor := 1\<rparr>))
    (seq (store cfg_physical_block_exp [0])
    (bnd (gets cu_model) (\<lambda>model.
     seq (if model = VIRTIO_ID_BLOCK then store cfg_blk_size (to_be 4 (4096 :: u32))
          else if model = VIRTIO_ID_SCSI
          then bnd (gets (\<lambda>s. scsi_block_size (vd s))) (\<lambda>bs. store cfg_blk_size (to_be 4 bs))
          else ret ())
    (seq (store cfg_heads [15])
    (bnd (gets blk_blk_size) (\<lambda>bs.
     store cfg_sectors [virtio_eckd_sectors_for_block_size bs]))))))"

definition virtio_disk_is_scsi :: "'d machine \<Rightarrow> bool" where
  "virtio_disk_is_scsi s \<longleftrightarrow>
     (if guessed_disk_nature (vd s) = GDN_SCSI then True
      else if cu_model s = VIRTIO_ID_BLOCK
      then blk_heads s = 255 \<and> blk_sectors s = 63 \<and> virtio_get_block_size s = VIRTIO_SCSI_BLOCK_SIZE
      else cu_model s = VIRTIO_ID_SCSI)"

definition virtio_disk_is_eckd :: "'d machine \<Rightarrow> bool" where
  "virtio_disk_is_eckd s \<longleftrightarrow>
     (if guessed_disk_nature (vd s) = GDN_DASD then True
      else if cu_model s = VIRTIO_ID_BLOCK
      then blk_heads s = 15 \<and>
           blk_sectors s = virtio_eckd_sectors_for_block_size (virtio_get_block_size s)
      else False)"

definition virtio_ipl_disk_is_valid :: "'d machine \<Rightarrow> bool" where
  "virtio_ipl_disk_is_valid s \<longleftrightarrow> virtio_disk_is_scsi s \<or> virtio_disk_is_eckd s"

definition virtio_get_heads :: "'d machine \<Rightarrow> u8" where
  "virtio_get_heads s =
     (if cu_model s = VIRTIO_ID_BLOCK then blk_heads s
      else if cu_model s = VIRTIO_ID_SCSI
      then if guessed_disk_nature (vd s) = GDN_DASD then blk_heads s else 255
      else 0)"

definition virtio_get_sectors :: "'d machine \<Rightarrow> u8" where
  "virtio_get_sectors s =
     (if cu_model s = VIRTIO_ID_BLOCK then blk_sectors s
      else if cu_model s = VIRTIO_ID_SCSI
      then if guessed_disk_nature (vd s) = GDN_DASD then blk_sectors s else 63
      else 0)"

definition virtio_get_blocks :: "('d, u64) fw" where
  "virtio_get_blocks s =
     (let factor = int_to_u64 (s32_div (virtio_get_block_size s) VIRTIO_SECTOR_SIZE) in
      if cu_model s = VIRTIO_ID_BLOCK \<or> cu_model s = VIRTIO_ID_SCSI
      then if factor = 0 then Some (Stop (Bad ''division by zero''), s)
           else Some (Ret ((if cu_model s = VIRTIO_ID_BLOCK then blk_capacity s
                            else scsi_last_block (vd s)) div factor), s)
      else Some (Ret 0, s))"

section \<open>Reading\<close>

text \<open>
  The request header \<open>VirtioBlkOuthdr\<close> and the status byte are local variables: the blocks
  \<open>OutHdr\<close> and \<open>BlkStatus\<close>. The status is not initialised before the request, and the
  result of \<open>vring_wait_reply\<close> is not looked at.
\<close>

definition out_hdr :: "u64 \<Rightarrow> u8 list" where
  "out_hdr sector = to_be 4 VIRTIO_BLK_T_IN @ to_be 4 (99 :: u32) @ to_be 8 sector"

definition virtio_blk_read_many :: "'d hw \<Rightarrow> u64 \<Rightarrow> ptr \<Rightarrow> s32 \<Rightarrow> ('d, int) fw" where
  "virtio_blk_read_many hw sector load_addr sec_num =
     bnd (gets (\<lambda>s. (cmd_vr_idx (vd s), virtio_sector_adjust s sector))) (\<lambda>(vr, adjusted).
     seq (store (Scr OutHdr 0) (out_hdr adjusted))
    (seq (vring_send_buf vr (Scr OutHdr 0) 16 VRING_DESC_F_NEXT)
    (bnd (gets virtio_get_block_size) (\<lambda>bs.
     seq (vring_send_buf vr load_addr (bs * sec_num)
            (VRING_DESC_F_WRITE OR VRING_HIDDEN_IS_CHAIN OR VRING_DESC_F_NEXT))
    (seq (vring_send_buf vr (Scr BlkStatus 0) 1 (VRING_DESC_F_WRITE OR VRING_HIDDEN_IS_CHAIN))
    (seq (vring_wait_reply hw)
    (bnd (get_vr vr) (\<lambda>v.
     bnd (drain_irqs hw (vr_schid v)) (\<lambda>rc.
     if rc \<noteq> 0 then ret 1
     else bnd (load_u8 (Scr BlkStatus 0)) (\<lambda>status. ret (uint status)))))))))))"

definition virtio_read_many :: "'d hw \<Rightarrow> u64 \<Rightarrow> ptr \<Rightarrow> s32 \<Rightarrow> ('d, int) fw" where
  "virtio_read_many hw sector load_addr sec_num =
     bnd (gets cu_model) (\<lambda>model.
     if model = VIRTIO_ID_BLOCK then virtio_blk_read_many hw sector load_addr sec_num
     else if model = VIRTIO_ID_SCSI then virtio_scsi_read_many hw sector load_addr sec_num
     else panic hw (10 # lit ''! No readable IPL device !'' @ [10]))"

text \<open>\<open>None\<close> is the result \<open>-1\<close>; the status is truncated to a byte.\<close>

definition virtio_load_direct :: "'d hw \<Rightarrow> u64 \<Rightarrow> u64 \<Rightarrow> u64 \<Rightarrow> ('d, u64) fw" where
  "virtio_load_direct hw rec_list1 rec_list2 load_addr =
     (let sec = (ucast rec_list1 :: s32);
          sec_num = ucast (drop_bit 32 rec_list2 AND 0xffff) + 1 :: s32;
          sec_len = (ucast (drop_bit 48 rec_list2) :: s32) in
     bnd (gets virtio_get_block_size) (\<lambda>bs.
     if sec_len \<noteq> bs then ret (-1)
     else
     seq (sclp_print hw (lit ''.''))
    (bnd (virtio_read_many hw (int_to_u64 sec) (Phys load_addr) sec_num) (\<lambda>rc.
     seq (whenM (rc mod 256 \<noteq> 0) (panic hw (lit ''I/O Error'')))
    (bnd (gets virtio_get_block_size) (\<lambda>bs.
     ret (load_addr + int_to_u64 (sec_num * bs))))))))"

definition virtio_read :: "'d hw \<Rightarrow> u64 \<Rightarrow> ptr \<Rightarrow> ('d, int) fw" where
  "virtio_read hw sector load_addr = virtio_read_many hw sector load_addr 1"

section \<open>Setting the disk up\<close>

definition virtio_blk_setup_device :: "'d hw \<Rightarrow> schid \<Rightarrow> ('d, int) fw" where
  "virtio_blk_setup_device hw sch =
     seq (upd_vd (\<lambda>v. v\<lparr>vd_schid := sch\<rparr>))
    (seq (virtio_setup_ccw hw)
    (bnd (gets cu_model) (\<lambda>model.
     if model = VIRTIO_ID_BLOCK
     then seq (sclp_print hw (lit ''Using virtio-blk.'' @ [10]))
         (bnd (gets virtio_ipl_disk_is_valid) (\<lambda>valid.
          seq (whenM (\<not> valid) (seq (memset (Buf VConfig 0) 0 33) virtio_assume_scsi))
         (ret 0)))
     else if model = VIRTIO_ID_SCSI
     then bnd (gets scsi_sense_size) (\<lambda>n.
          seq (IPL_assert hw (n = 96) (lit ''Config: sense size mismatch''))
         (bnd (gets scsi_cdb_size) (\<lambda>n.
          seq (IPL_assert hw (n = 32) (lit ''Config: CDB size mismatch''))
         (seq (sclp_print hw (lit ''Using virtio-scsi.'' @ [10]))
         (virtio_scsi_setup hw)))))
     else panic hw (10 # lit ''! No IPL device available !'' @ [10]))))"

section \<open>Outcomes\<close>

context exit_contract begin

lemma assume_outcome [outcome]:
  "outcome_ok X virtio_assume_scsi" "outcome_ok X virtio_assume_iso9660" "outcome_ok X virtio_assume_eckd"
  unfolding virtio_assume_scsi_def virtio_assume_iso9660_def virtio_assume_eckd_def
  by (intro outcome; simp add: shape_def)+

lemma virtio_get_blocks_outcome [outcome]: "outcome_ok X virtio_get_blocks"
  by (auto simp: outcome_ok_def virtio_get_blocks_def on_bad Let_def split: if_splits)

lemma disk_read_outcome [outcome]:
  "outcome_ok X (virtio_blk_read_many hw sec p n)" "outcome_ok X (virtio_read_many hw sec p n)"
  "outcome_ok X (virtio_read hw sec p)" "outcome_ok X (virtio_load_direct hw a b c)"
  unfolding virtio_read_def virtio_load_direct_def virtio_read_many_def virtio_blk_read_many_def
  by (intro outcome)+

lemma disk_setup_outcome [outcome]: "outcome_ok X (virtio_blk_setup_device hw sch)"
  unfolding virtio_blk_setup_device_def by (intro outcome; simp add: shape_def)

end

end
