(* ===== verification/Menu.thy ===== *)
theory Menu
  imports VirtioBlk
begin

text \<open>
  The boot menu (\<open>menu.c\<close>): reading a number from the console with an optional timeout,
  the prompt loop, and the zipl and the enumerated menu. Menu text lies in the buffer
  \<open>S2\<close>; a pointer into it is its offset. \<open>valid_entries\<close> is a list of booleans.
\<close>

definition KEYCODE_NO_INP :: u8 where
  "KEYCODE_NO_INP = 0"
definition KEYCODE_ESCAPE :: u8 where
  "KEYCODE_ESCAPE = 27"
definition KEYCODE_BACKSP :: u8 where
  "KEYCODE_BACKSP = 127"
definition KEYCODE_ENTER :: u8 where
  "KEYCODE_ENTER = 13"
definition TOD_CLOCK_MILLISECOND :: u64 where
  "TOD_CLOCK_MILLISECOND = 0x3e8000"
definition CLOCK_COMPARATOR_INT :: u16 where
  "CLOCK_COMPARATOR_INT = 0x1004"
definition QIPL_FLAG_BM_OPTS_CMD :: u8 where
  "QIPL_FLAG_BM_OPTS_CMD = 0x80"
definition QIPL_FLAG_BM_OPTS_ZIPL :: u8 where
  "QIPL_FLAG_BM_OPTS_ZIPL = 0x40"
abbreviation (input) MAX_BOOT_ENTRIES :: nat where
  "MAX_BOOT_ENTRIES \<equiv> 31"
abbreviation (input) ZIPL_TIMEOUT_OFFSET :: nat where
  "ZIPL_TIMEOUT_OFFSET \<equiv> 138"
abbreviation (input) ZIPL_FLAG_OFFSET :: nat where
  "ZIPL_FLAG_OFFSET \<equiv> 140"

lemmas keycodes = KEYCODE_NO_INP_def KEYCODE_ESCAPE_def KEYCODE_BACKSP_def KEYCODE_ENTER_def

section \<open>Input\<close>

definition check_clock_int :: "'d hw \<Rightarrow> ('d, bool) fw" where
  "check_clock_int hw = bnd (dev_op (ext_int_code hw)) (\<lambda>code. ret (code = CLOCK_COMPARATOR_INT))"

text \<open>
  One round of the loop of \<open>read_prompt\<close> for the key \<open>k\<close>: \<open>Inl\<close> of the result, or
  the buffer and the index for the next round, with what is echoed.
\<close>

definition key_step :: "u8 \<Rightarrow> u8 list \<Rightarrow> nat \<Rightarrow> nat \<Rightarrow> nat + (u8 list \<times> nat \<times> u8 list)" where
  "key_step k buf idx len =
     (if k = KEYCODE_NO_INP \<or> k = KEYCODE_ESCAPE then Inr (buf, idx, [])
      else if k = KEYCODE_BACKSP
      then if idx > 0 then Inr (buf[idx - 1 := 0], idx - 1, [8, 32, 8]) else Inr (buf, idx, [])
      else if k = KEYCODE_ENTER then Inl idx
      else if idx < len then Inr (buf[idx := k], idx + 1, [k]) else Inr (buf, idx, []))"

text \<open>
  The loop: the buffer and the index, which counts at most \<open>len\<close>; the result is the
  buffer and the number of characters. \<open>inp\<close> holds one character and a NUL.
\<close>

partial_function (option) prompt_loop ::
    "'d hw \<Rightarrow> nat \<Rightarrow> u8 list \<Rightarrow> nat \<Rightarrow> ('d, u8 list \<times> nat) fw" where
  "prompt_loop hw len buf idx s =
     bnd (check_clock_int hw) (\<lambda>expired.
       if expired
       then seq (dev_op (clock_int hw False)) (ret (buf[0 := 0], 0))
       else bnd (sclp_read hw 1) (\<lambda>x.
         case key_step (hd (fst x)) buf idx len of
           Inl n \<Rightarrow> seq (dev_op (clock_int hw False)) (ret (buf, n))
         | Inr y \<Rightarrow> seq (whenM (snd (snd y) \<noteq> []) (sclp_print hw (snd (snd y))))
                        (\<lambda>s. prompt_loop hw len (fst y) (fst (snd y)) s))) s"

definition read_prompt :: "'d hw \<Rightarrow> u8 list \<Rightarrow> nat \<Rightarrow> ('d, u8 list \<times> nat) fw" where
  "read_prompt hw buf len =
     bnd (gets menu_timeout) (\<lambda>timeout.
     seq (whenM (timeout \<noteq> 0)
       (bnd (get_clock hw) (\<lambda>now.
        seq (dev_op (sckc hw (now + timeout * TOD_CLOCK_MILLISECOND)))
       (seq (dev_op (clock_int hw True))
       (modify (\<lambda>s. s\<lparr>menu_timeout := 0\<rparr>))))))
     (\<lambda>s. prompt_loop hw len buf 0 s))"

text \<open>The value of \<open>get_index\<close> for the text typed: the \<open>int\<close> of \<open>atoui\<close>, or \<open>-1\<close>.\<close>

definition index_of_input :: "u8 list \<Rightarrow> nat \<Rightarrow> s32" where
  "index_of_input buf len =
     (if len = 0 then 0
      else if \<not> list_all isdigit (take len buf) then -1
      else ucast (atoui (Some buf)))"

definition get_index :: "'d hw \<Rightarrow> ('d, s32) fw" where
  "get_index hw =
     seq (sclp_set_write_mask hw SCLP_EVENT_MASK_MSG_ASCII SCLP_EVENT_MASK_MSG_ASCII)
    (bnd (read_prompt hw (replicate 11 0) 10) (\<lambda>(buf, len).
     seq (sclp_set_write_mask hw 0 SCLP_EVENT_MASK_MSG_ASCII)
    (ret (index_of_input buf len))))"

definition boot_menu_prompt :: "'d hw \<Rightarrow> bool \<Rightarrow> ('d, unit) fw" where
  "boot_menu_prompt hw retry =
     bnd (gets menu_timeout) (\<lambda>timeout.
     if retry
     then sclp_print hw (10 # lit ''Error: undefined configuration'' @ 10 # lit ''Please choose:'' @ [10])
     else if timeout > 0
     then seq (sclp_print hw (lit ''Please choose (default will boot in ''))
         (bnd (uitoa_fw hw (timeout div 1000) (replicate 11 0)) (\<lambda>tmp.
          seq (sclp_print hw (c_str tmp)) (sclp_print hw (lit '' seconds):'' @ [10]))))
     else sclp_print hw (lit ''Please choose:'' @ [10]))"

text \<open>The condition of the loop of \<open>get_boot_index\<close>, negated.\<close>

definition index_ok :: "bool list \<Rightarrow> s32 \<Rightarrow> bool" where
  "index_ok valid_entries i \<longleftrightarrow> 0 \<le> sint i \<and> sint i < int MAX_BOOT_ENTRIES \<and> valid_entries ! unat i"

partial_function (option) boot_index_loop :: "'d hw \<Rightarrow> bool list \<Rightarrow> bool \<Rightarrow> ('d, s32) fw" where
  "boot_index_loop hw valid_entries retry s =
     seq (boot_menu_prompt hw retry)
    (bnd (get_index hw) (\<lambda>boot_index.
       if index_ok valid_entries boot_index then ret boot_index
       else (\<lambda>s. boot_index_loop hw valid_entries True s))) s"

definition get_boot_index :: "'d hw \<Rightarrow> bool list \<Rightarrow> ('d, s32) fw" where
  "get_boot_index hw valid_entries =
     bnd (\<lambda>s. boot_index_loop hw valid_entries False s) (\<lambda>boot_index.
     seq (sclp_print hw (10 # lit ''Booting entry #''))
    (bnd (uitoa_fw hw (int_to_u64 boot_index) (replicate 5 0)) (\<lambda>tmp.
     seq (sclp_print hw (c_str tmp)) (ret boot_index))))"

section \<open>The zipl menu\<close>

text \<open>The number at the start of an entry's text.\<close>

definition entry_number :: "u8 list \<Rightarrow> s32" where
  "entry_number text = ucast (atoui (Some (if hd text = 32 then tl text else text)))"

definition zipl_print_entry :: "'d hw \<Rightarrow> u8 list \<Rightarrow> ('d, s32) fw" where
  "zipl_print_entry hw data =
     (let buf = ebcdic_to_ascii data @ [10, 0] in
     seq (sclp_print hw (c_str buf)) (ret (entry_number buf)))"

text \<open>
  The entries from \<open>menu_data\<close> to an empty string; the argument holds the bytes from
  \<open>menu_data\<close> to the end of the buffer. The number of an entry is an index into
  \<open>valid_entries\<close> that the code does not check.
\<close>

function print_entries :: "'d hw \<Rightarrow> u8 list \<Rightarrow> bool list \<Rightarrow> ('d, bool list) fw" where
  "print_entries hw menu_data valid_entries =
     (if menu_data = [] then stop (Bad ''buffer read'')
      else if hd menu_data = 0 then ret valid_entries
      else case strlen menu_data of
        None \<Rightarrow> stop (Bad ''buffer read'')
      | Some len \<Rightarrow>
          bnd (zipl_print_entry hw (take len menu_data)) (\<lambda>entry.
          seq (if unat entry < length valid_entries then ret () else stop (Bad ''valid_entries index''))
         (seq (whenM (entry = 0) (sclp_print hw [10]))
         (print_entries hw (drop (Suc len) menu_data) (valid_entries[unat entry := True])))))"
  by pat_completeness auto
termination
  by (relation "measure (\<lambda>(_, menu_data, _). length menu_data)") auto

declare print_entries.simps [simp del]

text \<open>The bytes from offset \<open>i\<close> of \<open>S2\<close> on.\<close>

definition rest_of_s2 :: "nat \<Rightarrow> 'd machine \<Rightarrow> u8 list" where
  "rest_of_s2 i s = drop i (bufs s S2)"

definition menu_get_zipl_boot_index :: "'d hw \<Rightarrow> nat \<Rightarrow> ('d, s32) fw" where
  "menu_get_zipl_boot_index hw menu_data =
     bnd (if menu_data < ZIPL_FLAG_OFFSET then stop (Bad ''buffer read'') else ret ()) (\<lambda>_.
     bnd (load_u16 (Buf S2 (menu_data - ZIPL_FLAG_OFFSET))) (\<lambda>zipl_flag.
     bnd (load_u16 (Buf S2 (menu_data - ZIPL_TIMEOUT_OFFSET))) (\<lambda>zipl_timeout.
     bnd (gets menu_flag) (\<lambda>flag.
     if flag = QIPL_FLAG_BM_OPTS_ZIPL \<and> zipl_flag = 0 then ret 0
     else
     seq (whenM (flag = QIPL_FLAG_BM_OPTS_ZIPL)
       (modify (\<lambda>s. s\<lparr>menu_timeout := ucast zipl_timeout * 1000\<rparr>)))
    (seq (sclp_print hw (lit ''s390-ccw zIPL Boot Menu'' @ [10, 10]))
    (bnd (gets (rest_of_s2 menu_data)) (\<lambda>rest.
     case strlen rest of
       None \<Rightarrow> stop (Bad ''buffer read'')
     | Some n \<Rightarrow>
         bnd (print_entries hw (drop (Suc n) rest) (replicate MAX_BOOT_ENTRIES False)) (\<lambda>valid_entries.
         seq (sclp_print hw [10]) (get_boot_index hw valid_entries)))))))))"

section \<open>The enumerated menu\<close>

fun print_enum :: "'d hw \<Rightarrow> nat \<Rightarrow> bool list \<Rightarrow> ('d, unit) fw" where
  "print_enum hw i [] = ret ()"
| "print_enum hw i (v # vs) =
     seq (whenM v
       (seq (whenM (i < 10) (sclp_print hw [32]))
       (seq (sclp_print hw (lit ''[''))
       (bnd (uitoa_fw hw (word_of_nat i) (replicate 3 0)) (\<lambda>tmp.
        seq (sclp_print hw (c_str tmp))
       (seq (sclp_print hw (lit '']''))
       (seq (whenM (i = 0) (sclp_print hw (lit '' default'' @ [10])))
       (sclp_print hw [10]))))))))
     (print_enum hw (Suc i) vs)"

definition menu_get_enum_boot_index :: "'d hw \<Rightarrow> bool list \<Rightarrow> ('d, s32) fw" where
  "menu_get_enum_boot_index hw valid_entries =
     seq (sclp_print hw (lit ''s390-ccw Enumerated Boot Menu.'' @ [10, 10]))
    (seq (print_enum hw 0 (take MAX_BOOT_ENTRIES valid_entries))
    (seq (sclp_print hw [10]) (get_boot_index hw valid_entries)))"

section \<open>Parameters\<close>

definition menu_set_parms :: "u8 \<Rightarrow> u32 \<Rightarrow> ('d, unit) fw" where
  "menu_set_parms boot_menu_flag timeout =
     modify (\<lambda>s. s\<lparr>menu_flag := boot_menu_flag, menu_timeout := ucast timeout\<rparr>)"

definition menu_is_enabled_zipl :: "'d machine \<Rightarrow> bool" where
  "menu_is_enabled_zipl s \<longleftrightarrow> flag_on (menu_flag s) (QIPL_FLAG_BM_OPTS_CMD OR QIPL_FLAG_BM_OPTS_ZIPL)"

definition menu_is_enabled_enum :: "'d machine \<Rightarrow> bool" where
  "menu_is_enabled_enum s \<longleftrightarrow> flag_on (menu_flag s) QIPL_FLAG_BM_OPTS_CMD"

section \<open>Outcomes\<close>

context exit_contract begin

lemma check_clock_int_outcome [outcome]: "outcome_ok X (check_clock_int hw)"
  unfolding check_clock_int_def by (intro outcome)

lemma prompt_loop_outcome [outcome]: "outcome_ok X (prompt_loop hw len buf idx)"
proof (rule outcome_ok_loopI)
  fix s y
  assume "prompt_loop hw len buf idx s = Some y"
  then show "outcome_at X s y"
  proof (rule prompt_loop.raw_induct [rotated, of _ _ _ _ _ _ "\<lambda>hw len buf idx. outcome_at X"], goal_cases)
    case (1 rec hw len buf idx s y)
    have rec: "outcome_ok X (rec hw len buf idx)" for hw len buf idx by (rule outcome_ok_loopI) (rule 1(1))
    show ?case using 1(2) by (rule outcome_bnd_at) (intro outcome rec)+
  qed
qed

lemma menu_input_outcome [outcome]:
  "outcome_ok X (read_prompt hw buf len)" "outcome_ok X (get_index hw)"
  "outcome_ok X (boot_menu_prompt hw retry)"
  unfolding get_index_def read_prompt_def boot_menu_prompt_def by (intro outcome; simp add: shape_def)+

lemma boot_index_loop_outcome [outcome]: "outcome_ok X (boot_index_loop hw ve retry)"
proof (rule outcome_ok_loopI)
  fix s y
  assume "boot_index_loop hw ve retry s = Some y"
  then show "outcome_at X s y"
  proof (rule boot_index_loop.raw_induct [rotated, of _ _ _ _ _ "\<lambda>hw ve retry. outcome_at X"], goal_cases)
    case (1 rec hw ve retry s y)
    have rec: "outcome_ok X (rec hw ve retry)" for hw ve retry by (rule outcome_ok_loopI) (rule 1(1))
    show ?case using 1(2) by (rule outcome_bnd_at) (intro outcome rec)+
  qed
qed

lemma get_boot_index_outcome [outcome]:
  "outcome_ok X (get_boot_index hw ve)" "outcome_ok X (zipl_print_entry hw data)"
  unfolding get_boot_index_def zipl_print_entry_def by (intro outcome)+

lemma print_entries_outcome [outcome]: "outcome_ok X (print_entries hw data ve)"
proof (induction hw data ve rule: print_entries.induct)
  case (1 hw data ve)
  show ?case by (subst print_entries.simps) (intro outcome 1)
qed

lemma print_enum_outcome [outcome]: "outcome_ok X (print_enum hw i vs)"
  by (induction vs arbitrary: i) (simp_all only: print_enum.simps, (intro outcome | assumption)+)

lemma menu_outcome [outcome]:
  "outcome_ok X (menu_get_zipl_boot_index hw i)" "outcome_ok X (menu_get_enum_boot_index hw ve)"
  "outcome_ok X (menu_set_parms flag t)"
  unfolding menu_get_zipl_boot_index_def menu_get_enum_boot_index_def menu_set_parms_def
  by (intro outcome; simp add: shape_def)+

end

section \<open>The prompt\<close>

text \<open>The text typed so far, and what a key does to it.\<close>

definition typed :: "u8 list \<Rightarrow> nat \<Rightarrow> u8 list" where
  "typed buf idx = take idx buf"

definition prompt_inv :: "nat \<Rightarrow> u8 list \<Rightarrow> nat \<Rightarrow> bool" where
  "prompt_inv len buf idx \<longleftrightarrow> length buf = Suc len \<and> idx \<le> len \<and> (\<forall>i. idx \<le> i \<and> i \<le> len \<longrightarrow> buf ! i = 0)"

definition type_key :: "u8 \<Rightarrow> nat \<Rightarrow> u8 list \<Rightarrow> u8 list" where
  "type_key k len str =
     (if k = KEYCODE_BACKSP then butlast str
      else if k \<in> {KEYCODE_NO_INP, KEYCODE_ESCAPE} \<or> length str = len then str else str @ [k])"


lemma key_step_typed:
  assumes "prompt_inv len buf idx"
  shows "case key_step k buf idx len of
      Inl n \<Rightarrow> k = KEYCODE_ENTER \<and> n = idx
    | Inr (buf', idx', _) \<Rightarrow> prompt_inv len buf' idx' \<and> typed buf' idx' = type_key k len (typed buf idx)"
proof -
  have len: "length (typed buf idx) = idx" using assms by (simp add: prompt_inv_def typed_def)
  have app: "typed (buf[idx := k]) (Suc idx) = typed buf idx @ [k]" if "idx < len"
    using assms that by (simp add: prompt_inv_def typed_def take_Suc_conv_app_nth)
  have bs: "typed (buf[idx - 1 := 0]) (idx - 1) = butlast (typed buf idx)"
    using assms by (simp add: prompt_inv_def typed_def butlast_take)
  have "prompt_inv len (buf[idx - 1 := 0]) (idx - 1)" "idx < len \<Longrightarrow> prompt_inv len (buf[idx := k]) (Suc idx)"
    using assms by (auto simp: prompt_inv_def nth_list_update)
  moreover have "idx \<le> len" using assms by (simp add: prompt_inv_def)
  ultimately show ?thesis using assms len app bs
    by (auto simp: key_step_def type_key_def keycodes)
qed

text \<open>What the prompt loop returns: the typed text, or no characters when time ran out.\<close>

lemma prompt_loop_typed:
  assumes "prompt_inv len buf idx"
  shows "triple (\<lambda>_. True) (prompt_loop hw len buf idx)
    (\<lambda>x _. prompt_inv len (fst x) (snd x) \<or> snd x = 0) (\<lambda>_ _. True)"
proof (rule triple_loopI)
  fix s y
  assume "prompt_loop hw len buf idx s = Some y"
  then have res: "prompt_inv len buf idx \<longrightarrow>
    (\<forall>b n t. y = (Ret (b, n), t) \<longrightarrow> prompt_inv len b n \<or> n = 0)"
  proof (rule prompt_loop.raw_induct [rotated, of _ _ _ _ _ _ "\<lambda>hw len buf idx s y. prompt_inv len buf idx \<longrightarrow>
    (\<forall>b n t. y = (Ret (b, n), t) \<longrightarrow> prompt_inv len b n \<or> n = 0)"], goal_cases)
    case (1 rec hw len buf idx s y)
    show ?case
    proof (intro impI allI)
      fix b n t
      assume inv: "prompt_inv len buf idx" and y: "y = (Ret (b, n), t)"
      have rec: "prompt_inv len b n \<or> n = 0" if "prompt_inv len buf' idx'" "rec hw len buf' idx' u = Some (Ret (b, n), t)"
        for buf' idx' u using 1(1) [OF that(2)] that(1) by blast
      obtain expired u where c: "(if expired then seq (dev_op (clock_int hw False)) (ret (buf[0 := 0], 0))
          else bnd (sclp_read hw 1) (\<lambda>x.
         case key_step (hd (fst x)) buf idx len of
           Inl n \<Rightarrow> seq (dev_op (clock_int hw False)) (ret (buf, n))
         | Inr y \<Rightarrow> seq (whenM (snd (snd y) \<noteq> []) (sclp_print hw (snd (snd y))))
                        (rec hw len (fst y) (fst (snd y))))) u = Some (Ret (b, n), t)"
        using 1(2) unfolding y bnd_eq_Ret [of "check_clock_int hw"] by blast
      from c show "prompt_inv len b n \<or> n = 0"
      proof (cases expired)
        case False
        then obtain x :: "u8 list \<times> int" and v where "(case key_step (hd (fst x)) buf idx len of
           Inl n \<Rightarrow> seq (dev_op (clock_int hw False)) (ret (buf, n))
         | Inr y \<Rightarrow> seq (whenM (snd (snd y) \<noteq> []) (sclp_print hw (snd (snd y))))
                        (rec hw len (fst y) (fst (snd y)))) v = Some (Ret (b, n), t)"
          using c unfolding bnd_eq_Ret [of "sclp_read hw 1"] if_not_P [OF False] by blast
        then show ?thesis
          using key_step_typed [OF inv, of "hd (fst x)"] inv
          by (auto simp: bnd_dev_op bnd_eq_Ret dest: rec split: sum.splits prod.splits if_splits)
      qed (auto simp: bnd_dev_op)
    qed
  qed
  show "True \<longrightarrow> (case fst y of Ret x \<Rightarrow> prompt_inv len (fst x) (snd x) \<or> snd x = 0 | Stop e \<Rightarrow> True)"
    using assms res by (cases y) (auto split: result.splits)
qed

lemma index_ok_loop:
  "triple (\<lambda>_. True) (boot_index_loop hw ve retry) (\<lambda>i _. index_ok ve i) (\<lambda>_ _. True)"
proof (rule triple_loopI)
  fix s y
  assume "boot_index_loop hw ve retry s = Some y"
  then have "case fst y of Ret i \<Rightarrow> index_ok ve i | Stop e \<Rightarrow> True"
  proof (rule boot_index_loop.raw_induct [rotated, of _ _ _ _ _ "\<lambda>hw ve retry s y. case fst y of Ret i \<Rightarrow> index_ok ve i | Stop e \<Rightarrow> True"], goal_cases)
    case (1 rec hw ve retry s y)
    have rec: "index_ok ve i" if "rec hw ve b u = Some (Ret i, t)" for i b u t
      using 1(1) [OF that] by simp
    show ?case
      using 1(2) by (cases y) (auto simp: bnd_eq_Ret split: result.splits if_splits dest: rec)
  qed
  then show "True \<longrightarrow> (case fst y of Ret i \<Rightarrow> index_ok ve i | Stop e \<Rightarrow> True)" by simp
qed

section \<open>Menu text\<close>

text \<open>The entries of a zipl menu, each ended by a NUL, and the number each shows.\<close>

definition menu_text :: "u8 list list \<Rightarrow> u8 list" where
  "menu_text es = concat (map (\<lambda>e. e @ [0]) es) @ [0]"

definition entry_of :: "u8 list \<Rightarrow> nat" where
  "entry_of e = unat (entry_number (ebcdic_to_ascii e @ [10, 0]))"


text \<open>An entry the menu can show: its text fits a line, and no NUL cuts it short.\<close>

definition entry_text :: "u8 list \<Rightarrow> bool" where
  "entry_text e \<longleftrightarrow> e \<noteq> [] \<and> 0 \<notin> set e \<and> length e \<le> 2039"

lemma zipl_print_entry_ok:
  assumes "length (scr (io s) Sccb) = 4096" "entry_text e"
  obtains j where "zipl_print_entry hw e s = Some (Ret (entry_number (ebcdic_to_ascii e @ [10, 0])), s\<lparr>io := j\<rparr>)"
    "console_step hw (io s) j" "length (scr j Sccb) = 4096"
proof -
  let ?str = "c_str (ebcdic_to_ascii e @ [10, 0])"
  have "length (crlf ?str) \<le> 4082"
    using length_crlf_le [of ?str] length_c_str_le [of "ebcdic_to_ascii e @ [10, 0]"] assms(2)
    by (simp add: ebcdic_to_ascii_def entry_text_def)
  then obtain j where j: "sclp_print hw ?str s = Some (Ret (), s\<lparr>io := j\<rparr>)" "console_step hw (io s) j"
      "length (scr j Sccb) = 4096" using sclp_printE [OF assms(1), of ?str hw] by blast
  then have "zipl_print_entry hw e s = Some (Ret (entry_number (ebcdic_to_ascii e @ [10, 0])), s\<lparr>io := j\<rparr>)"
    by (simp add: zipl_print_entry_def Let_def bnd_def ret_def)
  with j that show thesis by blast
qed

lemma print_entries_entry:
  assumes "entry_text e"
  shows "print_entries hw (e @ 0 # xs) ve s =
      bnd (zipl_print_entry hw e) (\<lambda>entry.
          seq (if unat entry < length ve then ret () else stop (Bad ''valid_entries index''))
         (seq (whenM (entry = 0) (sclp_print hw [10]))
         (print_entries hw xs (ve[unat entry := True])))) s"
proof -
  have "hd e \<noteq> 0" using assms hd_in_set [of e] by (force simp: entry_text_def)
  moreover have "strlen (e @ 0 # xs) = Some (length e)"
    using assms by (simp add: strlen_c_str entry_text_def)
  ultimately show ?thesis
    using assms by (subst print_entries.simps) (simp add: hd_append entry_text_def)
qed

lemma print_entries_step:
  assumes "length (scr (io s) Sccb) = 4096" "entry_text e" "entry_of e < length ve"
  obtains k where "print_entries hw (e @ 0 # xs) ve s = print_entries hw xs (ve[entry_of e := True]) (s\<lparr>io := k\<rparr>)"
    "console_step hw (io s) k" "length (scr k Sccb) = 4096"
proof -
  let ?n = "entry_number (ebcdic_to_ascii e @ [10, 0])"
  obtain j where j: "zipl_print_entry hw e s = Some (Ret ?n, s\<lparr>io := j\<rparr>)" "console_step hw (io s) j"
      "length (scr j Sccb) = 4096" using zipl_print_entry_ok [OF assms(1,2), of hw] .
  obtain k where k: "whenM (?n = 0) (sclp_print hw [10]) (s\<lparr>io := j\<rparr>) = Some (Ret (), s\<lparr>io := k\<rparr>)"
      "console_step hw (io s) k" "length (scr k Sccb) = 4096"
  proof (cases "?n = 0")
    case True
    obtain k where "sclp_print hw [10] (s\<lparr>io := j\<rparr>) = Some (Ret (), s\<lparr>io := k\<rparr>)" "console_step hw j k"
        "length (scr k Sccb) = 4096"
      using sclp_printE [of "s\<lparr>io := j\<rparr>" "[10]" hw] j(3) by auto
    with True j(2) that [of k] show thesis by (simp add: console_step_trans)
  next
    case False
    with j that [of j] show thesis by (simp add: ret_def)
  qed
  have "unat ?n < length ve" using assms(3) by (simp add: entry_of_def)
  then have "print_entries hw (e @ 0 # xs) ve s = bnd (whenM (?n = 0) (sclp_print hw [10]))
      (\<lambda>_. print_entries hw xs (ve[unat ?n := True])) (s\<lparr>io := j\<rparr>)"
    by (simp only: print_entries_entry [OF assms(2)] bnd_Ret [where m = "zipl_print_entry hw e", OF j(1)]
        if_True bnd_ret)
  also have "\<dots> = print_entries hw xs (ve[entry_of e := True]) (s\<lparr>io := k\<rparr>)"
    by (simp only: bnd_Ret [where m = "whenM (?n = 0) (sclp_print hw [10])", OF k(1)] entry_of_def)
  finally show thesis using that k by blast
qed

lemma print_entries_prefix:
  assumes "length (scr (io s) Sccb) = 4096" "\<forall>e \<in> set es. entry_text e \<and> entry_of e < length ve"
  obtains k where "print_entries hw (concat (map (\<lambda>e. e @ [0]) es) @ xs) ve s =
      print_entries hw xs (fold (\<lambda>e ve. ve[entry_of e := True]) es ve) (s\<lparr>io := k\<rparr>)"
    "console_step hw (io s) k" "length (scr k Sccb) = 4096"
  using assms
proof (induction es arbitrary: ve s thesis)
  case Nil
  from Nil(1) [of "io s"] Nil(2) show ?case by (simp add: console_refl)
next
  case (Cons e es)
  obtain k where k: "print_entries hw (e @ 0 # concat (map (\<lambda>e. e @ [0]) es) @ xs) ve s =
      print_entries hw (concat (map (\<lambda>e. e @ [0]) es) @ xs) (ve[entry_of e := True]) (s\<lparr>io := k\<rparr>)"
      "console_step hw (io s) k" "length (scr k Sccb) = 4096"
    using print_entries_step [of s e ve hw] Cons.prems(2,3) by auto
  obtain l where "print_entries hw (concat (map (\<lambda>e. e @ [0]) es) @ xs) (ve[entry_of e := True]) (s\<lparr>io := k\<rparr>) =
      print_entries hw xs (fold (\<lambda>e ve. ve[entry_of e := True]) es (ve[entry_of e := True])) (s\<lparr>io := l\<rparr>)"
      "console_step hw k l" "length (scr l Sccb) = 4096"
    using Cons.IH [where s = "s\<lparr>io := k\<rparr>" and ve = "ve[entry_of e := True]"] k(3) Cons.prems(3) by auto
  with k Cons.prems(1) [of l] show ?case by (simp add: console_step_trans)
qed

lemma length_fold_mark: "length (fold (\<lambda>e ve. ve[f e := True]) es ve) = length ve"
  by (induction es arbitrary: ve) auto

lemma nth_mark: "i < length ve \<Longrightarrow> ve[n := True] ! i \<longleftrightarrow> ve ! i \<or> n = i"
  by (cases "n < length ve") (auto simp: nth_list_update)

lemma fold_mark:
  "i < length ve \<Longrightarrow> fold (\<lambda>e ve. ve[f e := True]) es ve ! i \<longleftrightarrow> ve ! i \<or> (\<exists>e \<in> set es. f e = i)"
  by (induction es arbitrary: ve) (auto simp: nth_mark)


lemma ucast_int_to_u64: "(ucast (int_to_u64 w) :: s32) = w"
  by (rule bit_word_eqI) (auto simp: bit_simps)


lemma entry_of_examples:
  "entry_of [0x40, 0xf0, 0x4b] = 0" "entry_of [0x40, 0xf2, 0x4b] = 2" "entry_of [0xf4, 0xf2] = 42"
proof -
  have "ebcdic_to_ascii [0x40, 0xf0, 0x4b] = [0x20, 0x30, 0x2e]" "ebcdic_to_ascii [0x40, 0xf2, 0x4b] = [0x20, 0x32, 0x2e]"
      "ebcdic_to_ascii [0xf4, 0xf2] = [0x34, 0x32]"
    by (simp_all add: ebcdic_to_ascii_def ebc2asc_def nth_append lit_def)
  then show "entry_of [0x40, 0xf0, 0x4b] = 0" "entry_of [0x40, 0xf2, 0x4b] = 2" "entry_of [0xf4, 0xf2] = 42"
    by (simp_all add: entry_of_def entry_number_def atoui_def isdigit_def)
qed

section \<open>Properties\<close>




text \<open>
  C26: \<open>get_boot_index\<close> returns nothing but the number of a valid entry below 31, whatever is
  typed, however often it is asked.
\<close>

theorem get_boot_index_valid:
  "triple (\<lambda>_. True) (get_boot_index hw ve) (\<lambda>i _. unat i < MAX_BOOT_ENTRIES \<and> ve ! unat i) (\<lambda>_ _. True)"
proof -
  have "unat i < MAX_BOOT_ENTRIES \<and> ve ! unat i" if "index_ok ve i" for i
    using that sint_nonneg [of i] by (auto simp: index_ok_def simp del: of_nat_unat)
  then show ?thesis
    unfolding get_boot_index_def using index_ok_loop [of hw ve False]
    by (fastforce simp: triple_def bnd_eq_Ret split: result.splits)
qed


text \<open>
  A number typed at the prompt counts modulo $2^{32}$: 4294967297 boots entry 1.
\<close>

lemma menu_number_wraps:
  "index_of_input (dec n @ 0 # rest) (length (dec n)) = word_of_nat n"
proof -
  have "dec n \<noteq> []" by (cases "n < 10") (simp_all add: dec_small dec_step)
  moreover have "list_all isdigit (dec n)" using isdigit_dec by (simp add: list_all_iff)
  ultimately show ?thesis
    using atoui_dec [of "0 # rest" 0 n] by (simp add: index_of_input_def ucast_int_to_u64)
qed





text \<open>
  The number of an entry is used as an index without a check: an entry numbered 31 or
  more writes past \<open>valid_entries\<close>.
\<close>

lemma menu_entry_overflow:
  assumes "length (scr (io s) Sccb) = 4096"
    and "\<forall>e \<in> set es. entry_text e \<and> entry_of e < MAX_BOOT_ENTRIES"
    and "entry_text e" "MAX_BOOT_ENTRIES \<le> entry_of e"
  shows "\<exists>t. print_entries hw (menu_text (es @ [e]) @ rest) (replicate MAX_BOOT_ENTRIES False) s =
      Some (Stop (Bad ''valid_entries index''), t)"
proof -
  let ?ve = "fold (\<lambda>e ve. ve[entry_of e := True]) es (replicate MAX_BOOT_ENTRIES False)"
  obtain k where k: "print_entries hw (menu_text (es @ [e]) @ rest) (replicate MAX_BOOT_ENTRIES False) s =
      print_entries hw (e @ 0 # 0 # rest) ?ve (s\<lparr>io := k\<rparr>)" "length (scr k Sccb) = 4096"
    using print_entries_prefix [of s es "replicate MAX_BOOT_ENTRIES False" hw "e @ 0 # 0 # rest"] assms(1,2)
    by (auto simp: menu_text_def)
  obtain j where j: "zipl_print_entry hw e (s\<lparr>io := k\<rparr>) =
      Some (Ret (entry_number (ebcdic_to_ascii e @ [10, 0])), s\<lparr>io := k\<rparr>\<lparr>io := j\<rparr>)"
    using zipl_print_entry_ok [of "s\<lparr>io := k\<rparr>" e hw] k(2) assms(3) by auto
  have "\<not> unat (entry_number (ebcdic_to_ascii e @ [10, 0])) < length ?ve"
    using assms(4) by (simp add: length_fold_mark entry_of_def)
  then have "print_entries hw (e @ 0 # 0 # rest) ?ve (s\<lparr>io := k\<rparr>) =
      Some (Stop (Bad ''valid_entries index''), s\<lparr>io := k\<rparr>\<lparr>io := j\<rparr>)"
    by (simp only: print_entries_entry [OF assms(3)] bnd_Ret [where m = "zipl_print_entry hw e", OF j]
        if_False bnd_stop) (simp add: stop_def)
  with k(1) show ?thesis by simp
qed

lemma menu_entry_overflow_witness:
  "\<exists>t. print_entries console_hw ([0x40, 0xf0, 0x4b, 0, 0xf4, 0xf2, 0, 0]) (replicate 31 False) (blank []) =
     Some (Stop (Bad ''valid_entries index''), t)"
  using menu_entry_overflow [of "blank []" "[[0x40, 0xf0, 0x4b]]" "[0xf4, 0xf2]" console_hw "[]"]
  by (simp add: menu_text_def entry_text_def entry_of_examples)

end
