(* ===== verification/Jump.thy ===== *)
theory Jump
  imports Menu
begin

text \<open>
  Handing the machine over (\<open>jump2ipl.c\<close>, and the low-core writers of \<open>main.c\<close>). The
  reset PSW is the eight bytes at absolute address 0. \<open>jump_to_IPL_code\<close> ends with the
  diagnose call that resets the machine, the outcome \<open>NormalReset\<close>; the machine then
  starts at the PSW at 0, which is either the system's or the address of
  \<open>jump_to_IPL_addr\<close> (\<open>psw_entry\<close> of the hardware).
\<close>

definition PSW_MASK_SHORTPSW :: u64 where
  "PSW_MASK_SHORTPSW = 0x0008000000000000"
definition PSW_MASK_EAMODE :: u64 where
  "PSW_MASK_EAMODE = 0x0000000100000000"
definition PSW_MASK_BAMODE :: u64 where
  "PSW_MASK_BAMODE = 0x0000000080000000"
definition KERN_IMAGE_START :: u64 where
  "KERN_IMAGE_START = 0x010000"
definition S390EP :: u64 where
  "S390EP = 0x10008"

definition RESET_PSW_MASK :: u64 where
  "RESET_PSW_MASK = PSW_MASK_SHORTPSW OR (PSW_MASK_EAMODE OR PSW_MASK_BAMODE)"

definition RESET_PSW :: "'d hw \<Rightarrow> u64" where
  "RESET_PSW hw = psw_entry hw OR RESET_PSW_MASK"

section \<open>Low core (main.c)\<close>

text \<open>\<open>subchannel_id\<close>, \<open>subchannel_nr\<close>, \<open>io_int_parm\<close> at 0xb8, 0xba, 0xbc; \<open>ptr_iplb\<close> at 0x14.\<close>

definition write_subsystem_identification :: "('d, unit) fw" where
  "write_subsystem_identification =
     bnd (gets blk_schid) (\<lambda>sch.
     seq (store (Phys 0xb8) (to_be 2 (sch_id sch)))
    (seq (store (Phys 0xba) (to_be 2 (sch_no sch)))
    (store (Phys 0xbc) (to_be 4 (0 :: u32)))))"

definition write_iplb_location :: "'d hw \<Rightarrow> ('d, unit) fw" where
  "write_iplb_location hw =
     bnd (gets (\<lambda>s. the_cutype s = CU_TYPE_VIRTIO \<and> cu_model s \<noteq> VIRTIO_ID_NET)) (\<lambda>b.
     whenM b (store (Phys 0x14) (to_be 4 (iplb_addr hw))))"

definition get_loadparm_index :: "'d machine \<Rightarrow> u32" where
  "get_loadparm_index s = ucast (atoui (Some (loadparm_str s)))"

section \<open>jump2ipl.c\<close>

definition read_reset_psw :: "('d, u64) fw" where
  "read_reset_psw = load_u64 (Phys 0)"

definition write_reset_psw :: "u64 \<Rightarrow> ('d, unit) fw" where
  "write_reset_psw psw = store (Phys 0) (to_be 8 psw)"

text \<open>Runs after the reset; the result is the address it branches to.\<close>

definition jump_to_IPL_addr :: "('d, u64) fw" where
  "jump_to_IPL_addr =
     bnd (gets (\<lambda>s. (ipl_continue s, save_psw s))) (\<lambda>(ipl, psw).
     seq (write_reset_psw psw) (ret ipl))"

text \<open>
  The file is linked into both boot programs, which differ in what their \<open>write_iplb_location\<close>
  does; it is the first parameter.
\<close>

definition jump_linked :: "('d, unit) fw \<Rightarrow> 'd hw \<Rightarrow> u64 \<Rightarrow> ('d, 'a) fw" where
  "jump_linked iplb_location hw address =
     seq write_subsystem_identification
    (seq iplb_location
    (bnd (gets (\<lambda>s. pbt (the_iplb s))) (\<lambda>p.
     seq (whenM (p = IPL_QEMU_SCSI)
       (seq (modify (\<lambda>s. s\<lparr>the_iplb := (the_iplb s)\<lparr>pbt := IPL_CCW\<rparr>\<rparr>))
       (bnd (gets the_iplb) (\<lambda>b. seq (dev_op (set_iplb hw b)) (ret ())))))
    (seq (whenM (address \<noteq> 0)
       (bnd read_reset_psw (\<lambda>psw.
        seq (modify (\<lambda>s. s\<lparr>save_psw := psw\<rparr>))
       (seq (write_reset_psw (RESET_PSW hw))
       (modify (\<lambda>s. s\<lparr>ipl_continue := address\<rparr>))))))
    (seq (sclp_print hw [10]) (stop NormalReset))))))"

definition low_kernel_linked :: "('d, unit) fw \<Rightarrow> 'd hw \<Rightarrow> ('d, 'a) fw" where
  "low_kernel_linked iplb_location hw =
     bnd (load (Phys S390EP) 6) (\<lambda>magic.
     seq (whenM (memcmp magic (lit ''S390EP'') = 0) (jump_linked iplb_location hw KERN_IMAGE_START))
    (bnd read_reset_psw (\<lambda>psw.
     seq (whenM (flag_on psw RESET_PSW_MASK) (jump_linked iplb_location hw 0))
    (jump_linked iplb_location hw KERN_IMAGE_START))))"

definition jump_to_IPL_code :: "'d hw \<Rightarrow> u64 \<Rightarrow> ('d, 'a) fw" where
  "jump_to_IPL_code hw address = jump_linked (write_iplb_location hw) hw address"

definition jump_to_low_kernel :: "'d hw \<Rightarrow> ('d, 'a) fw" where
  "jump_to_low_kernel hw = low_kernel_linked (write_iplb_location hw) hw"

lemma jump_to_low_kernel_unfold:
  "jump_to_low_kernel hw =
     bnd (load (Phys S390EP) 6) (\<lambda>magic.
     seq (whenM (memcmp magic (lit ''S390EP'') = 0) (jump_to_IPL_code hw KERN_IMAGE_START))
    (bnd read_reset_psw (\<lambda>psw.
     seq (whenM (flag_on psw RESET_PSW_MASK) (jump_to_IPL_code hw 0))
    (jump_to_IPL_code hw KERN_IMAGE_START))))"
  by (simp add: jump_to_low_kernel_def low_kernel_linked_def jump_to_IPL_code_def)

section \<open>Outcomes\<close>

context exit_contract begin

lemma low_core_outcome [outcome]:
  "outcome_ok X write_subsystem_identification" "outcome_ok X (write_iplb_location hw)"
  "outcome_ok X read_reset_psw" "outcome_ok X (write_reset_psw psw)"
  unfolding write_subsystem_identification_def write_iplb_location_def read_reset_psw_def write_reset_psw_def
  by (intro outcome)+

end

text \<open>The programs that hand over rely on the hand-over itself to keep the promise.\<close>

locale boot_contract = exit_contract X for X :: "exit \<Rightarrow> 'd machine \<Rightarrow> bool" +
  fixes hw :: "'d hw"
  assumes hand_over: "outcome_ok X (jump_to_IPL_code hw address :: ('d, unit) fw)"
begin

lemma jump_outcome [outcome]:
  "outcome_ok X (jump_to_IPL_code hw a :: ('d, unit) fw)" "outcome_ok X (jump_to_low_kernel hw :: ('d, unit) fw)"
  unfolding jump_to_low_kernel_unfold by (intro outcome hand_over)+

end

section \<open>The hand-over\<close>

text \<open>
  What the machine looks like when it is handed over: the low core names the boot device and
  the IPL parameter block, whose type the firmware of the guest understands.
\<close>

definition handed_over :: "'d hw \<Rightarrow> exit \<Rightarrow> 'd machine \<Rightarrow> bool" where
  "handed_over hw e t \<longleftrightarrow> (e = NormalReset \<longrightarrow>
     mem_get (mem t) 0xb8 2 = to_be 2 (sch_id (blk_schid t)) \<and>
     mem_get (mem t) 0xba 2 = to_be 2 (sch_no (blk_schid t)) \<and>
     mem_get (mem t) 0xbc 4 = replicate 4 0 \<and>
     (the_cutype t = CU_TYPE_VIRTIO \<and> cu_model t \<noteq> VIRTIO_ID_NET \<longrightarrow>
        mem_get (mem t) 0x14 4 = to_be 4 (iplb_addr hw)) \<and>
     pbt (the_iplb t) \<noteq> IPL_QEMU_SCSI)"


text \<open>The low core \<open>jump_to_IPL_code\<close> leaves, and the state it prints the final newline in.\<close>

definition hand_over_mem :: "'d hw \<Rightarrow> u64 \<Rightarrow> 'd machine \<Rightarrow> u64 \<Rightarrow> u8" where
  "hand_over_mem hw address s =
     (let m = mem_put 0xbc (to_be 4 (0 :: u32)) (mem_put 0xba (to_be 2 (sch_no (blk_schid s)))
                (mem_put 0xb8 (to_be 2 (sch_id (blk_schid s))) (mem s)));
          m = (if the_cutype s = CU_TYPE_VIRTIO \<and> cu_model s \<noteq> VIRTIO_ID_NET
               then mem_put 0x14 (to_be 4 (iplb_addr hw)) m else m) in
      if address \<noteq> 0 then mem_put 0 (to_be 8 (RESET_PSW hw)) m else m)"

lemma hand_over_mem_get:
  "mem_get (hand_over_mem hw a s) 0xb8 2 = to_be 2 (sch_id (blk_schid s))"
  "mem_get (hand_over_mem hw a s) 0xba 2 = to_be 2 (sch_no (blk_schid s))"
  "mem_get (hand_over_mem hw a s) 0xbc 4 = to_be 4 (0 :: u32)"
  "the_cutype s = CU_TYPE_VIRTIO \<Longrightarrow> cu_model s \<noteq> VIRTIO_ID_NET \<Longrightarrow>
     mem_get (hand_over_mem hw a s) 0x14 4 = to_be 4 (iplb_addr hw)"
  "a \<noteq> 0 \<Longrightarrow> mem_get (hand_over_mem hw a s) 0 8 = to_be 8 (RESET_PSW hw)"
  "a = 0 \<Longrightarrow> mem_get (hand_over_mem hw a s) 0 8 = mem_get (mem s) 0 8"
  unfolding hand_over_mem_def Let_def
  by (simp_all add: mem_get_put_disjoint mem_get_put_to_be)

lemma jump_to_IPL_code_eq:
  "jump_to_IPL_code (hw :: 'd hw) a s = bnd (sclp_print hw [10]) (\<lambda>_. stop NormalReset)
     (s\<lparr>mem := hand_over_mem hw a s,
        the_iplb := (the_iplb s)\<lparr>pbt := if pbt (the_iplb s) = IPL_QEMU_SCSI then IPL_CCW else pbt (the_iplb s)\<rparr>,
        save_psw := if a \<noteq> 0 then be (mem_get (mem s) 0 8) else save_psw s,
        ipl_continue := if a \<noteq> 0 then a else ipl_continue s,
        io := (io s)\<lparr>dev := if pbt (the_iplb s) = IPL_QEMU_SCSI
          then snd (set_iplb hw ((the_iplb s)\<lparr>pbt := IPL_CCW\<rparr>) (dev (io s))) else dev (io s)\<rparr>\<rparr>)"
proof -
  have psw: "mem_get (hand_over_mem hw 0 s) 0 8 = mem_get (mem s) 0 8" for s :: "'d machine" by (simp add: hand_over_mem_get)
  have cu: "cu_model (s\<lparr>mem := m\<rparr>) = cu_model s" for m by (simp add: cu_model_def)
  have m: "(hand_over_mem hw a s) = (if a \<noteq> 0 then mem_put 0 (to_be 8 (RESET_PSW hw)) (hand_over_mem hw 0 s)
      else hand_over_mem hw 0 s)" by (simp add: hand_over_mem_def Let_def)
  have low: "seq write_subsystem_identification (seq (write_iplb_location hw) f) s =
      f (s\<lparr>mem := hand_over_mem hw 0 s\<rparr>)" for f
    by (simp add: write_subsystem_identification_def write_iplb_location_def bnd_assoc cu hand_over_mem_def
        Let_def)
  show ?thesis
    unfolding jump_to_IPL_code_def jump_linked_def low unfolding m
    by (cases s) (simp add: bnd_assoc bnd_dev_op read_reset_psw_def write_reset_psw_def psw)
qed

lemma jump_reset:
  assumes "jump_to_IPL_code hw a s = Some (Stop NormalReset, t)"
  obtains j where "t = s\<lparr>mem := hand_over_mem hw a s,
        the_iplb := (the_iplb s)\<lparr>pbt := if pbt (the_iplb s) = IPL_QEMU_SCSI then IPL_CCW else pbt (the_iplb s)\<rparr>,
        save_psw := if a \<noteq> 0 then be (mem_get (mem s) 0 8) else save_psw s,
        ipl_continue := if a \<noteq> 0 then a else ipl_continue s, io := j\<rparr>"
proof -
  let ?u = "s\<lparr>mem := hand_over_mem hw a s,
        the_iplb := (the_iplb s)\<lparr>pbt := if pbt (the_iplb s) = IPL_QEMU_SCSI then IPL_CCW else pbt (the_iplb s)\<rparr>,
        save_psw := if a \<noteq> 0 then be (mem_get (mem s) 0 8) else save_psw s,
        ipl_continue := if a \<noteq> 0 then a else ipl_continue s,
        io := (io s)\<lparr>dev := if pbt (the_iplb s) = IPL_QEMU_SCSI
          then snd (set_iplb hw ((the_iplb s)\<lparr>pbt := IPL_CCW\<rparr>) (dev (io s))) else dev (io s)\<rparr>\<rparr>"
  from assms [unfolded jump_to_IPL_code_eq] have "sclp_print hw [10] ?u = Some (Ret (), t)"
  proof (cases rule: bnd_cases)
    case (stop e)
    have "outcome_ok (\<lambda>e _. e \<noteq> NormalReset) (sclp_print hw [10])" by (intro outcome)
    with stop show ?thesis using outcome_ok_Stop by fastforce
  qed simp
  from sclp_print_frame [OF this] that show thesis by auto
qed

lemma any_jump: "outcome_ok (\<lambda>_ _. True) (jump_to_IPL_code hw a)"
proof -
  have "outcome_ok (\<lambda>_ _. True) (stop e)" for e by (simp add: outcome_ok_def)
  then show ?thesis
    unfolding jump_to_IPL_code_def jump_linked_def
    by (intro outcome; simp add: shape_def)
qed


lemma jump_hands_over: "outcome_ok (handed_over hw) (jump_to_IPL_code hw a)"
proof (rule outcome_okI)
  fix s r t assume "jump_to_IPL_code hw a s = Some (r, t)"
  with any_jump [of hw a] show "shape t = shape s" by (rule outcome_ok_shape)
next
  fix s e t
  assume run: "jump_to_IPL_code hw a s = Some (Stop e, t)"
  show "handed_over hw e t"
  proof (cases "e = NormalReset")
    case True
    with run obtain j where "t = s\<lparr>mem := hand_over_mem hw a s,
        the_iplb := (the_iplb s)\<lparr>pbt := if pbt (the_iplb s) = IPL_QEMU_SCSI then IPL_CCW else pbt (the_iplb s)\<rparr>,
        save_psw := if a \<noteq> 0 then be (mem_get (mem s) 0 8) else save_psw s,
        ipl_continue := if a \<noteq> 0 then a else ipl_continue s, io := j\<rparr>"
      using jump_reset by blast
    moreover from this have "cu_model t = cu_model s" by (simp add: cu_model_def)
    ultimately show ?thesis
      by (simp add: handed_over_def hand_over_mem_get to_be_zero)
  qed (simp add: handed_over_def)
qed

interpretation hand_over: boot_contract "handed_over hw" hw for hw :: "'d hw"
proof unfold_locales
  show "outcome_ok (handed_over hw) (jump_to_IPL_code hw address :: ('d, unit) fw)" for address
    by (rule jump_hands_over)
qed (simp_all add: handed_over_def)

interpretation any_boot: boot_contract "\<lambda>_ _. True" hw for hw :: "'d hw"
  by unfold_locales (rule any_jump)

lemma jump_to_IPL_code_resets:
  assumes "length (scr (io s) Sccb) = 4096"
  shows "\<exists>j. jump_to_IPL_code hw a s = Some (Stop NormalReset, s\<lparr>mem := hand_over_mem hw a s,
        the_iplb := (the_iplb s)\<lparr>pbt := if pbt (the_iplb s) = IPL_QEMU_SCSI then IPL_CCW else pbt (the_iplb s)\<rparr>,
        save_psw := if a \<noteq> 0 then be (mem_get (mem s) 0 8) else save_psw s,
        ipl_continue := if a \<noteq> 0 then a else ipl_continue s, io := j\<rparr>)"
proof -
  let ?u = "s\<lparr>mem := hand_over_mem hw a s,
        the_iplb := (the_iplb s)\<lparr>pbt := if pbt (the_iplb s) = IPL_QEMU_SCSI then IPL_CCW else pbt (the_iplb s)\<rparr>,
        save_psw := if a \<noteq> 0 then be (mem_get (mem s) 0 8) else save_psw s,
        ipl_continue := if a \<noteq> 0 then a else ipl_continue s,
        io := (io s)\<lparr>dev := if pbt (the_iplb s) = IPL_QEMU_SCSI
          then snd (set_iplb hw ((the_iplb s)\<lparr>pbt := IPL_CCW\<rparr>) (dev (io s))) else dev (io s)\<rparr>\<rparr>"
  obtain j where "sclp_print hw [10] ?u = Some (Ret (), ?u\<lparr>io := j\<rparr>)"
    by (rule sclp_printE [of ?u "[10]" hw]) (use assms in simp_all)
  then have "jump_to_IPL_code hw a s = Some (Stop NormalReset, ?u\<lparr>io := j\<rparr>)"
    unfolding jump_to_IPL_code_eq by (subst bnd_Ret) (simp_all add: stop_def)
  then show ?thesis by (intro exI [of _ j]) simp
qed


lemma bnd_jump [simp]: "bnd (jump_to_IPL_code hw a) f = jump_to_IPL_code hw a"
  by (simp add: jump_to_IPL_code_def jump_linked_def bnd_assoc_fun)


text \<open>Where \<open>jump_to_low_kernel\<close> continues: 0 stands for the system's own PSW.\<close>

definition where_boots :: "(u64 \<Rightarrow> u8) \<Rightarrow> u64" where
  "where_boots m =
     (if mem_get m S390EP 6 = lit ''S390EP'' then KERN_IMAGE_START
      else if be (mem_get m 0 8) AND RESET_PSW_MASK \<noteq> 0 then 0 else KERN_IMAGE_START)"

lemma jump_to_low_kernel_eq: "jump_to_low_kernel hw s = jump_to_IPL_code hw (where_boots (mem s)) s"
  by (simp add: jump_to_low_kernel_unfold where_boots_def read_reset_psw_def memcmp_0_iff)

section \<open>Properties\<close>

text \<open>
  C17: the hand-over to an address survives the reset: the machine restarts at
  \<open>jump_to_IPL_addr\<close> with the flags of \<open>RESET_PSW\<close>, which puts the PSW of the loaded system
  back and branches to that address.
\<close>

theorem boot_continues:
  assumes "length (scr (io s) Sccb) = 4096" "a \<noteq> 0"
  shows "\<exists>t u. jump_to_IPL_code hw a s = Some (Stop NormalReset :: unit result, t) \<and>
     mem_get (mem t) 0 8 = to_be 8 (RESET_PSW hw) \<and>
     jump_to_IPL_addr t = Some (Ret a, u) \<and> mem_get (mem u) 0 8 = mem_get (mem s) 0 8"
proof -
  have psw: "to_be 8 (be (mem_get (mem s) 0 8) :: u64) = mem_get (mem s) 0 8"
    using to_be_be [of "mem_get (mem s) 0 8", where ?'a = 64] by simp
  obtain j where "jump_to_IPL_code hw a s = Some (Stop NormalReset :: unit result, s\<lparr>mem := hand_over_mem hw a s,
        the_iplb := (the_iplb s)\<lparr>pbt := if pbt (the_iplb s) = IPL_QEMU_SCSI then IPL_CCW else pbt (the_iplb s)\<rparr>,
        save_psw := if a \<noteq> 0 then be (mem_get (mem s) 0 8) else save_psw s,
        ipl_continue := if a \<noteq> 0 then a else ipl_continue s, io := j\<rparr>)"
    (is "_ = Some (_, ?t)") using jump_to_IPL_code_resets [OF assms(1), of hw a] by blast
  moreover have "jump_to_IPL_addr ?t = Some (Ret a, ?t\<lparr>mem := mem_put 0 (mem_get (mem s) 0 8) (mem ?t)\<rparr>)"
    using assms(2) psw by (simp add: jump_to_IPL_addr_def write_reset_psw_def bnd_assoc ret_def)
  moreover have "mem_get (mem (?t\<lparr>mem := mem_put 0 (mem_get (mem s) 0 8) (mem ?t)\<rparr>)) 0 8 = mem_get (mem s) 0 8"
    using mem_get_put_same [of "mem_get (mem s) 0 8" 0 "mem ?t"] by simp
  moreover have "mem_get (mem ?t) 0 8 = to_be 8 (RESET_PSW hw)"
    using assms(2) by (simp add: hand_over_mem_get)
  ultimately show ?thesis by blast
qed

theorem boot_continues_witness:
  "\<exists>t u. jump_to_IPL_code console_hw KERN_IMAGE_START (blank []) = Some (Stop NormalReset :: unit result, t) \<and>
     mem_get (mem t) 0 8 = to_be 8 (RESET_PSW console_hw) \<and>
     jump_to_IPL_addr t = Some (Ret KERN_IMAGE_START, u) \<and> mem_get (mem u) 0 8 = replicate 8 0"
  using boot_continues [of "blank []" KERN_IMAGE_START console_hw]
  by (simp add: KERN_IMAGE_START_def mem_get_def blank_def map_replicate_const)


text \<open>
  \<open>jump_to_low_kernel\<close> always resets the machine, into the kernel at 0x10000 if the
  storage there carries the mark of a kernel image or the low PSW is no z/Architecture short
  PSW, and otherwise into the system's own PSW, which it leaves as it is.
\<close>

lemma low_kernel_boots:
  assumes "length (scr (io s) Sccb) = 4096"
  shows "\<exists>t. jump_to_low_kernel hw s = Some (Stop NormalReset :: unit result, t) \<and>
     (if where_boots (mem s) = 0
      then mem_get (mem t) 0 8 = mem_get (mem s) 0 8 \<and> ipl_continue t = ipl_continue s
      else mem_get (mem t) 0 8 = to_be 8 (RESET_PSW hw) \<and> ipl_continue t = KERN_IMAGE_START)"
proof -
  have "where_boots (mem s) = 0 \<or> where_boots (mem s) = KERN_IMAGE_START" by (simp add: where_boots_def)
  moreover have "KERN_IMAGE_START \<noteq> 0" by (simp add: KERN_IMAGE_START_def)
  moreover obtain j where "jump_to_IPL_code hw (where_boots (mem s)) s = Some (Stop NormalReset :: unit result,
        s\<lparr>mem := hand_over_mem hw (where_boots (mem s)) s,
        the_iplb := (the_iplb s)\<lparr>pbt := if pbt (the_iplb s) = IPL_QEMU_SCSI then IPL_CCW else pbt (the_iplb s)\<rparr>,
        save_psw := if where_boots (mem s) \<noteq> 0 then be (mem_get (mem s) 0 8) else save_psw s,
        ipl_continue := if where_boots (mem s) \<noteq> 0 then where_boots (mem s) else ipl_continue s, io := j\<rparr>)"
    using jump_to_IPL_code_resets [OF assms] by blast
  ultimately show ?thesis
    unfolding jump_to_low_kernel_eq
    by (intro exI conjI) (assumption, auto simp: hand_over_mem_get)
qed

lemma low_kernel_boots_witness:
  "\<exists>t. jump_to_low_kernel console_hw (blank []) = Some (Stop NormalReset :: unit result, t) \<and>
     ipl_continue t = 0x10000"
proof -
  have "where_boots (mem (blank ([] :: u8 list))) = 0x10000"
    by (auto simp: where_boots_def KERN_IMAGE_START_def lit_def dest: arg_cong [where f = hd])
  then show ?thesis
    using low_kernel_boots [of "blank []" console_hw] by (auto simp: KERN_IMAGE_START_def)
qed

end
