(* ===== verification/BlockSource.thy ===== *)
theory BlockSource
  imports VirtioBlk
begin

text \<open>
  What reading a disk means. \<open>block_source\<close> is the contract the boot code relies on: a read
  that fits puts the blocks into storage, succeeds, and changes nothing else the loader
  looks at. \<open>blk_host\<close> is a virtio-blk device in front of a disk, a function from byte
  offsets to bytes, and \<open>virtio_read_many\<close> with such a device keeps the contract.
\<close>

section \<open>A host with a disk\<close>

text \<open>Access of the host to what a pointer stands for, and of the loader's \<open>store\<close> to a good one.\<close>

fun pread :: "'d plat \<Rightarrow> ptr \<Rightarrow> nat \<Rightarrow> u8 list" where
  "pread p (Phys a) n = mem_get (p_mem p) a n"
| "pread p (Buf b i) n = slice i n (p_bufs p b)"
| "pread p (Scr b i) n = slice i n (p_scr p b)"

fun pwrite :: "ptr \<Rightarrow> u8 list \<Rightarrow> 'd plat \<Rightarrow> 'd plat" where
  "pwrite (Phys a) bs p = p\<lparr>p_mem := mem_put a bs (p_mem p)\<rparr>"
| "pwrite (Buf b i) bs p = p\<lparr>p_bufs := (p_bufs p)(b := splice i bs (p_bufs p b))\<rparr>"
| "pwrite (Scr b i) bs p = p\<lparr>p_scr := (p_scr p)(b := splice i bs (p_scr p b))\<rparr>"

fun put :: "ptr \<Rightarrow> u8 list \<Rightarrow> 'd machine \<Rightarrow> 'd machine" where
  "put (Phys a) bs s = s\<lparr>mem := mem_put a bs (mem s)\<rparr>"
| "put (Buf b i) bs s = s\<lparr>bufs := (bufs s)(b := splice i bs (bufs s b))\<rparr>"
| "put (Scr b i) bs s = s\<lparr>io := (io s)\<lparr>scr := (scr (io s))(b := splice i bs (scr (io s) b))\<rparr>\<rparr>"

fun room :: "ptr \<Rightarrow> nat \<Rightarrow> 'd machine \<Rightarrow> bool" where
  "room (Phys a) n s \<longleftrightarrow> True"
| "room (Buf b i) n s \<longleftrightarrow> i + n \<le> length (bufs s b)"
| "room (Scr b i) n s \<longleftrightarrow> i + n \<le> length (scr (io s) b)"

text \<open>What only the driver itself may overwrite: the device configuration and the request blocks.\<close>

fun config_ptr :: "ptr \<Rightarrow> bool" where
  "config_ptr (Buf b i) \<longleftrightarrow> b = VConfig \<or> b = VSenseId"
| "config_ptr (Scr b i) \<longleftrightarrow> True"
| "config_ptr (Phys a) \<longleftrightarrow> False"

lemma store_put: "room p (length bs) s \<Longrightarrow> store p bs s = Some (Ret (), put p bs s)"
  by (cases p) simp_all

lemma bnd_store_put: "room p (length bs) s \<Longrightarrow> bnd (store p bs) f s = f () (put p bs s)"
  by (simp add: bnd_def store_put)

lemma load_put: "room p (length bs) s \<Longrightarrow> length bs < 2 ^ 64 \<Longrightarrow> n = length bs \<Longrightarrow> load p n (put p bs s) = Some (Ret bs, put p bs s)"
  by (cases p) (simp_all add: mem_get_put_same)

lemma to_plat_put: "to_plat (put p bs s) = pwrite p bs (to_plat s)"
  by (cases p) (simp_all add: to_plat_def)

lemma overlay_upd:
  "\<forall>b. length (x b) = length (y b) \<Longrightarrow> (\<lambda>b. overlay (x b) (y b)) = x"
  by (simp add: fun_eq_iff)

text \<open>\<open>u\<close> differs from \<open>s\<close> only where the host can write.\<close>

definition host_wrote :: "'d machine \<Rightarrow> 'd machine \<Rightarrow> bool" where
  "host_wrote s u \<longleftrightarrow> (\<exists>m bf sc. u = s\<lparr>mem := m, bufs := bf, io := (io s)\<lparr>scr := sc\<rparr>\<rparr> \<and>
     (\<forall>b. length (bf b) = length (bufs s b)) \<and> (\<forall>b. length (sc b) = length (scr (io s) b)))"

lemma host_wrote_refl: "host_wrote s s"
  unfolding host_wrote_def by (intro exI [of _ "mem s"] exI [of _ "bufs s"] exI [of _ "scr (io s)"]) simp

lemma host_wrote_put:
  assumes "host_wrote s u" "room p (length bs) u"
  shows "host_wrote s (put p bs u)"
proof -
  from assms(1) obtain m bf sc where u: "u = s\<lparr>mem := m, bufs := bf, io := (io s)\<lparr>scr := sc\<rparr>\<rparr>"
    "\<forall>b. length (bf b) = length (bufs s b)" "\<forall>b. length (sc b) = length (scr (io s) b)"
    unfolding host_wrote_def by blast
  show ?thesis
  proof (cases p)
    case (Phys a)
    with u show ?thesis unfolding host_wrote_def
      by (intro exI [of _ "mem_put a bs m"] exI [of _ bf] exI [of _ sc]) simp
  next
    case (Buf b i)
    with u assms(2) show ?thesis unfolding host_wrote_def
      by (intro exI [of _ m] exI [of _ "bf(b := splice i bs (bf b))"] exI [of _ sc]) simp
  next
    case (Scr b i)
    with u assms(2) show ?thesis unfolding host_wrote_def
      by (intro exI [of _ m] exI [of _ bf] exI [of _ "sc(b := splice i bs (sc b))"]) simp
  qed
qed

lemma from_plat_wrote: "host_wrote s u \<Longrightarrow> from_plat (to_plat u) s = u"
  unfolding host_wrote_def by (elim exE conjE) (simp add: from_plat_def to_plat_def)

lemma room_put [simp]: "room p (length bs) u \<Longrightarrow> room q n (put p bs u) \<longleftrightarrow> room q n u"
  by (cases p; cases q) simp_all

lemma put_put: "length x = length y \<Longrightarrow> room p (length y) s \<Longrightarrow> put p x (put p y s) = put p x s"
  by (cases p) (simp_all add: splice_splice_same mem_put_same)

lemma host_wrote_same:
  assumes "host_wrote s u"
  shows "vd u = vd s" "rmem (io u) = rmem (io s)" "vrings (io u) = vrings (io s)" "dev (io u) = dev (io s)"
    "length (bufs u b) = length (bufs s b)" "length (scr (io u) c) = length (scr (io s) c)" "rings_idle u = rings_idle s"
  using assms by (auto simp: host_wrote_def rings_idle_def idle_def)

lemma put_io: "\<not> config_ptr p \<Longrightarrow> (put p x s)\<lparr>io := j\<rparr> = put p x (s\<lparr>io := j\<rparr>)"
  by (cases p) simp_all

lemma put_Scr_io: "(put (Scr c i) x s)\<lparr>io := j\<rparr> = s\<lparr>io := j\<rparr>"
  by simp

lemma room_io: "\<not> config_ptr p \<Longrightarrow> room p n (s\<lparr>io := j\<rparr>) \<longleftrightarrow> room p n s"
  by (cases p) simp_all

lemma room_le: "room p n s \<Longrightarrow> m \<le> n \<Longrightarrow> room p m s"
  by (cases p) auto

lemma put_append:
  assumes "room p (length x + length y) s" "length x + length y \<le> 2 ^ 64" "k = length x"
  shows "put (ptr_add p k) y (put p x s) = put p (x @ y) s"
  using assms by (cases p) (simp_all add: mem_put_append splice_append)

text \<open>
  The requests of virtio-blk: a header, one piece of memory for the data, a status byte. The
  disk is a function from byte offsets to bytes; a request that is no read is refused.
\<close>

definition serve_blk :: "(u64 \<Rightarrow> u8) \<Rightarrow> vring_desc list \<Rightarrow> 'd plat \<Rightarrow> 'd plat" where
  "serve_blk disk c p = (case c of
       [h, d, st] \<Rightarrow>
         (let hdr = pread p (d_addr h) 16 in
          if (be (slice 0 4 hdr) :: u32) = VIRTIO_BLK_T_IN
          then pwrite (d_addr st) [0] (pwrite (d_addr d) (mem_get disk (be (slice 8 8 hdr) * 512) (unat (d_len d))) p)
          else pwrite (d_addr st) [2] p)
     | _ \<Rightarrow> p)"

lemma pwrite_rings: "pwrite q bs (p\<lparr>p_rmem := r\<rparr>) = (pwrite q bs p)\<lparr>p_rmem := r\<rparr>"
  by (cases q) simp_all

lemma pread_rings: "pread (p\<lparr>p_rmem := r\<rparr>) q n = pread p q n"
  by (cases q) simp_all

lemma serve_blk_rings: "serve_blk disk c (p\<lparr>p_rmem := r\<rparr>) = (serve_blk disk c p)\<lparr>p_rmem := r\<rparr>"
  by (simp add: serve_blk_def pwrite_rings pread_rings Let_def split: list.splits)

definition blk_cmds :: "ptr \<Rightarrow> s32 \<Rightarrow> virtio_cmd list" where
  "blk_cmds p len = [\<lparr>vc_data = Scr OutHdr 0, vc_size = 16, vc_flags = VRING_DESC_F_NEXT\<rparr>,
     \<lparr>vc_data = p, vc_size = len, vc_flags = VRING_DESC_F_WRITE OR VRING_DESC_F_NEXT\<rparr>,
     \<lparr>vc_data = Scr BlkStatus 0, vc_size = 1, vc_flags = VRING_DESC_F_WRITE\<rparr>]"

lemma chained_blk_cmds: "chained (blk_cmds p len)"
  by (simp add: blk_cmds_def VRING_DESC_F_NEXT_def VRING_DESC_F_WRITE_def VRING_HIDDEN_IS_CHAIN_def)

lemma bnd_ret_right [simp]: "bnd m ret = m"
  by (rule ext) (simp add: bnd_def ret_def split: option.splits prod.splits result.splits)

lemma bnd_cong_Ret: "(\<And>x t. m s = Some (Ret x, t) \<Longrightarrow> f x t = g x t) \<Longrightarrow> bnd m f s = bnd m g s"
  by (simp add: bnd_def split: option.splits prod.splits result.splits)

lemma send_buf_block_size: "vring_send_buf q p l f s = Some (r, t) \<Longrightarrow> virtio_get_block_size t = virtio_get_block_size s"
  by (auto simp: vring_send_buf_def bnd_def get_vr_def get_rm_def set_rm_def set_vr_def modify_def stop_def
      virtio_get_block_size_def cu_model_def blk_physical_block_exp_def blk_blk_size_def split: if_splits sum.splits)

lemma blk_flags:
  "VRING_DESC_F_WRITE OR VRING_HIDDEN_IS_CHAIN OR VRING_DESC_F_NEXT = (VRING_DESC_F_WRITE OR VRING_DESC_F_NEXT) OR VRING_HIDDEN_IS_CHAIN"
  by (simp add: ac_simps)

lemma blk_sends:
  "bnd (vring_send_buf q (Scr OutHdr 0) 16 VRING_DESC_F_NEXT) (\<lambda>_.
     bnd (gets virtio_get_block_size) (\<lambda>bs.
     bnd (vring_send_buf q p (bs * n) (VRING_DESC_F_WRITE OR VRING_HIDDEN_IS_CHAIN OR VRING_DESC_F_NEXT)) (\<lambda>_.
     bnd (vring_send_buf q (Scr BlkStatus 0) 1 (VRING_DESC_F_WRITE OR VRING_HIDDEN_IS_CHAIN)) k))) s
   = bnd (send_cmds q (blk_cmds p (virtio_get_block_size s * n)) 0) k s"
proof -
  have fl: "VRING_DESC_F_NEXT \<noteq> 0" "(VRING_DESC_F_WRITE OR VRING_DESC_F_NEXT) AND VRING_DESC_F_NEXT \<noteq> 0"
    "VRING_DESC_F_WRITE AND VRING_DESC_F_NEXT = 0"
    by (simp_all add: VRING_DESC_F_NEXT_def VRING_DESC_F_WRITE_def)
  show ?thesis
    unfolding blk_cmds_def blk_flags
    by (simp add: fl bnd_assoc) (rule bnd_cong_Ret, simp add: send_buf_block_size bnd_assoc)
qed

text \<open>A machine whose virtio-blk disk is set up and has no request under way.\<close>

definition blk_ready :: "'d machine \<Rightarrow> bool" where
  "blk_ready s \<longleftrightarrow> rings_idle s \<and> cu_model s = VIRTIO_ID_BLOCK \<and> cmd_vr_idx (vd s) < nr_vqs (vd s) \<and>
     length (scr (io s) OutHdr) = 16 \<and> length (scr (io s) BlkStatus) = 1 \<and> length (scr (io s) Sccb) = 4096"

lemma virtio_blk_read_many_eq:
  "virtio_blk_read_many hw b p n s = (let q = cmd_vr_idx (vd s) in
     bnd (store (Scr OutHdr 0) (out_hdr (virtio_sector_adjust s b))) (\<lambda>_ s1.
     bnd (send_cmds q (blk_cmds p (virtio_get_block_size s1 * n)) 0) (\<lambda>_.
     bnd (vring_wait_reply hw) (\<lambda>_.
     bnd (get_vr q) (\<lambda>v.
     bnd (drain_irqs hw (vr_schid v)) (\<lambda>rc.
       if rc \<noteq> 0 then ret 1 else bnd (load_u8 (Scr BlkStatus 0)) (\<lambda>status. ret (uint status)))))) s1) s)"
  unfolding virtio_blk_read_many_def Let_def
  by (subst bnd_gets, unfold prod.case, rule bnd_cong_Ret) (simp only: blk_sends [symmetric])

locale blk_host = ring_host hw "serve_blk disk" clk for hw :: "'d hw" and disk clk
begin

lemma blk_read_run:
  assumes "store (Scr OutHdr 0) (out_hdr (virtio_sector_adjust s b)) s = Some (Ret (), s1)"
    "virtio_get_block_size s1 = virtio_get_block_size s"
    "send_cmds (cmd_vr_idx (vd s)) (blk_cmds p (virtio_get_block_size s * n)) 0 s1 = Some (Ret (), u)"
    "vring_wait_reply hw u = Some (Ret k, t)" "cmd_vr_idx (vd s) < length (vrings (io t))"
    "load_u8 (Scr BlkStatus 0) t = Some (Ret st, t)"
  shows "virtio_blk_read_many hw b p n s = Some (Ret (uint st), t)"
  using assms unfolding virtio_blk_read_many_eq Let_def
  by (simp add: bnd_def [of "store _ _"] del: store.simps) (simp add: bnd_def get_vr_def ret_def)

lemma blk_read:
  assumes "blk_ready s" "\<not> config_ptr p" "room p len s" "len = unat (virtio_get_block_size s * n)"
  shows "\<exists>t. virtio_blk_read_many hw b p n s = Some (Ret 0, t) \<and> blk_ready t \<and>
    t\<lparr>io := io s\<rparr> = put p (mem_get disk (virtio_sector_adjust s b * 512) len) s \<and> dev (io t) = dev (io s)"
proof -
  let ?q = "cmd_vr_idx (vd s)" and ?data = "mem_get disk (virtio_sector_adjust s b * 512) len"
  let ?hdr = "out_hdr (virtio_sector_adjust s b)" and ?cs = "blk_cmds p (virtio_get_block_size s * n)"
  let ?s1 = "put (Scr OutHdr 0) ?hdr s"
  have hdr: "length ?hdr = 16" by (simp add: out_hdr_def)
  from assms(1) have s: "rings_idle s" "?q < nr_vqs (vd s)" "length (scr (io s) OutHdr) = 16" "length (scr (io s) BlkStatus) = 1"
    by (auto simp: blk_ready_def)
  have i1: "rings_idle ?s1" "nr_vqs (vd ?s1) = nr_vqs (vd s)" "virtio_get_block_size ?s1 = virtio_get_block_size s"
    using s(1) by (simp_all add: rings_idle_def idle_def virtio_get_block_size_def cu_model_def blk_physical_block_exp_def blk_blk_size_def)
  have rd: "pread (to_plat ?s1) (Scr OutHdr 0) 16 = ?hdr" using hdr s(3) slice_whole [of ?hdr] by (simp add: to_plat_def)
  have f: "(be (slice 0 4 ?hdr) :: u32) = VIRTIO_BLK_T_IN" "(be (slice 8 8 ?hdr) :: u64) = virtio_sector_adjust s b"
    by (simp_all add: out_hdr_def slice_def)
  have sv: "serve_blk disk (descs 0 ?cs) (to_plat ?s1) = pwrite (Scr BlkStatus 0) [0] (pwrite p ?data (to_plat ?s1))"
    unfolding serve_blk_def blk_cmds_def i1(3) [symmetric]
    by (simp only: descs.simps list.case Let_def desc_fields virtio_cmd.simps rd f) (simp add: assms(4) i1(3) [simplified])
  let ?t = "served ?q ?cs ?s1"
  have r: "length ?data = len" by simp
  have rm: "room p (length ?data) ?s1" "room (Scr BlkStatus 0) (length [0 :: u8]) ?s1"
    using assms(2, 3) s(4) by (cases p; simp)+
  have fp: "from_plat (serve_blk disk (descs 0 ?cs) (to_plat ?s1)) ?s1 = put (Scr BlkStatus 0) [0] (put p ?data ?s1)"
    unfolding sv to_plat_put [symmetric]
    by (rule from_plat_wrote [OF host_wrote_put [OF host_wrote_put [OF host_wrote_refl rm(1)]]])
       (simp only: room_put [OF rm(1)] rm(2))
  have ch: "chained ?cs" "length ?cs \<le> 4" by (rule chained_blk_cmds) (simp add: blk_cmds_def)
  have q: "?q < nr_vqs (vd ?s1)" using i1(2) s(2) by simp
  note run = send_cmds_idle [OF i1(1) q ch] wait_reply_served [OF i1(1) q ch] and idle = served_idle [OF i1(1) q ch]
  have st: "store (Scr OutHdr 0) ?hdr s = Some (Ret (), ?s1)" using s(3) hdr by (intro store_put) simp
  have vr: "?q < length (vrings (io ?t))"
    using s(1, 2) by (simp add: served_frame rings_idle_def idle_def)
  have scr_t: "scr (io ?t) = scr (io (put (Scr BlkStatus 0) [0] (put p ?data ?s1)))"
    unfolding served_frame fp ..
  have sts: "load_u8 (Scr BlkStatus 0) ?t = Some (Ret 0, ?t)"
    using scr_t s(4) assms(2) by (cases p) (simp_all add: load_u8_def bnd_def ret_def slice_def splice_def)
  have "virtio_blk_read_many hw b p n s = Some (Ret 0, ?t)"
    using blk_read_run [OF st i1(3) run vr sts] by simp
  moreover have "blk_ready ?t"
  proof -
    have "bufs ?t VSenseId = bufs s VSenseId" unfolding served_frame fp using assms(2) by (cases p) auto
    moreover have "vd ?t = vd s" unfolding served_frame by simp
    moreover have "length (scr (io ?t) OutHdr) = 16" "length (scr (io ?t) BlkStatus) = 1"
      "length (scr (io ?t) Sccb) = length (scr (io s) Sccb)"
      unfolding scr_t using s(3, 4) assms(2) hdr by (cases p; simp)+
    ultimately show ?thesis using idle assms(1) unfolding blk_ready_def cu_model_def by simp
  qed
  moreover have "?t\<lparr>io := io s\<rparr> = put p ?data s"
    unfolding served_frame fp using assms(2) by (cases p) simp_all
  moreover have "dev (io ?t) = dev (io s)"
    unfolding served_frame sv using assms(2) by (cases p) (simp_all add: to_plat_def)
  ultimately show ?thesis by blast
qed

end

section \<open>The contract\<close>

locale block_source =
  fixes hw :: "'d hw" and ok :: "'d machine \<Rightarrow> bool" and bs :: s32 and limit :: nat and content :: "u64 \<Rightarrow> nat \<Rightarrow> u8 list"
  assumes read: "ok s \<Longrightarrow> \<not> config_ptr p \<Longrightarrow> room p len s \<Longrightarrow> 0 < unat n \<Longrightarrow> len = unat bs * unat n \<Longrightarrow>
      len < 2 ^ 31 \<Longrightarrow> unat b + unat n \<le> limit \<Longrightarrow>
      \<exists>t. virtio_read_many hw b p n s = Some (Ret 0, t) \<and> ok t \<and> t\<lparr>io := io s\<rparr> = put p (content b len) s"
    and put_ok: "ok s \<Longrightarrow> \<not> config_ptr p \<Longrightarrow> room p (length x) s \<Longrightarrow> ok (put p x s)"
    and console_ok: "ok s \<Longrightarrow> console_step hw (io s) j \<Longrightarrow> ok (s\<lparr>io := j\<rparr>)"
    and console: "ok s \<Longrightarrow> length (scr (io s) Sccb) = 4096"
    and block_size: "ok s \<Longrightarrow> virtio_get_block_size s = bs"
    and length_content: "length (content b k) = k"

definition disk_content :: "(u64 \<Rightarrow> u8) \<Rightarrow> s32 \<Rightarrow> u64 \<Rightarrow> nat \<Rightarrow> u8 list" where
  "disk_content disk bs b n = mem_get disk (b * int_to_u64 (s32_div bs VIRTIO_SECTOR_SIZE) * 512) n"

lemma blk_ready_put: "blk_ready s \<Longrightarrow> \<not> config_ptr p \<Longrightarrow> blk_ready (put p x s)"
  by (cases p) (auto simp: blk_ready_def rings_idle_def idle_def cu_model_def)

lemma rings_idle_console: "console_step hw (io s) j \<Longrightarrow> rings_idle (s\<lparr>io := j\<rparr>) \<longleftrightarrow> rings_idle s"
  using console_step_frame [of hw "io s" j] by (simp add: rings_idle_def idle_def)

lemma blk_ready_Sccb: "blk_ready s \<Longrightarrow> length (scr (io s) Sccb) = 4096"
  by (simp add: blk_ready_def)

lemma blk_ready_console: "blk_ready s \<Longrightarrow> console_step hw (io s) j \<Longrightarrow> blk_ready (s\<lparr>io := j\<rparr>)"
  using console_step_frame [of hw "io s" j] console_step_length [of hw "io s" j] rings_idle_console [of hw s j]
  by (simp add: blk_ready_def cu_model_def)

lemma block_size_put: "\<not> config_ptr p \<Longrightarrow> virtio_get_block_size (put p x s) = virtio_get_block_size s"
  by (cases p) (auto simp: virtio_get_block_size_def cu_model_def blk_physical_block_exp_def blk_blk_size_def)

lemma block_size_io: "virtio_get_block_size (s\<lparr>io := j\<rparr>) = virtio_get_block_size s"
  by (simp add: virtio_get_block_size_def cu_model_def blk_physical_block_exp_def blk_blk_size_def)

sublocale blk_host \<subseteq> blocks: block_source hw "\<lambda>s. blk_ready s \<and> virtio_get_block_size s = bs" bs "2 ^ 65" "disk_content disk bs" for bs
proof unfold_locales
  fix s :: "'d machine" and p len b and n :: s32
  assume s: "blk_ready s \<and> virtio_get_block_size s = bs" "\<not> config_ptr p" "room p len s" and n: "len = unat bs * unat n" "len < 2 ^ 31"
  then have "len = unat (bs * n)" by (simp add: unat_word_ariths)
  with s obtain t where t: "virtio_blk_read_many hw b p n s = Some (Ret 0, t)" "blk_ready t"
    "t\<lparr>io := io s\<rparr> = put p (mem_get disk (virtio_sector_adjust s b * 512) len) s"
    using blk_read [of s p len n b] by auto
  have "virtio_get_block_size t = virtio_get_block_size s"
    using t(3) s(2) by (metis block_size_io block_size_put)
  moreover have "virtio_read_many hw b p n s = virtio_blk_read_many hw b p n s"
    using s(1) by (simp add: virtio_read_many_def blk_ready_def)
  ultimately show "\<exists>t. virtio_read_many hw b p n s = Some (Ret 0, t) \<and> (blk_ready t \<and> virtio_get_block_size t = bs) \<and>
      t\<lparr>io := io s\<rparr> = put p (disk_content disk bs b len) s"
    using t s(1) by (auto simp: disk_content_def virtio_sector_adjust_def)
qed (auto simp: blk_ready_put blk_ready_console block_size_put block_size_io disk_content_def blk_ready_Sccb)

text \<open>A machine with a virtio-blk disk behind it, for concrete runs.\<close>

definition disk_hw :: "(u64 \<Rightarrow> u8) \<Rightarrow> 'd hw" where
  "disk_hw disk = no_hw\<lparr>hypercall := (\<lambda>nr a q cookie p. (cookie, answered (serve_blk disk) (unat q) p)),
     tsch := (\<lambda>sch p. ((1, \<lparr>irb_scsw = \<lparr>ctrl = 0, scsw_cpa = 0, dstat = 0x0c, cstat = 0\<rparr>\<rparr>), p))\<rparr>"

interpretation disk_hw: blk_host "disk_hw disk :: 'd hw" disk 0 for disk
  by unfold_locales (simp_all add: disk_hw_def no_hw_def serve_blk_rings)

definition boot_disk :: "u64 \<Rightarrow> u8" where
  "boot_disk x = (if x = 0x5004 then 10 else if x = 0x5005 then 0x10 else if x = 0x9000 then 42 else 0)"

definition disk_machine :: "nat machine" where
  "disk_machine = (blank 0)\<lparr>bufs := (\<lambda>b. replicate (buf_size b) 0)
       (VSenseId := [0, 0x38, 0x32, 2], VConfig := [0, 0, 0, 0, 0, 1, 0, 0] @ replicate 10 0 @ [15, 12, 0, 0, 0x10, 0] @ replicate 12 0),
     vd := blank_vdev,
     io := (io (blank 0))\<lparr>rmem := [blank_ring\<lparr>rm_desc := replicate 4 \<lparr>d_addr = Phys 0, d_len = 0, d_flags = 0, d_next = 0\<rparr>,
         avail_ring := replicate 4 0, used_ring := replicate 4 (0, 0)\<rparr>],
       vrings := [blank_vring\<lparr>vr_num := 4\<rparr>]\<rparr>\<rparr>"

lemma disk_machine_ready: "blk_ready disk_machine" "virtio_get_block_size disk_machine = 4096" "length (bufs disk_machine Bprs) = 8192"
  by (simp_all add: disk_machine_def blk_ready_def rings_idle_def idle_def ring_wf_def blank_ring_def blank_vring_def blank_vdev_def
    cu_model_def VIRTIO_ID_BLOCK_def Let_def virtio_get_block_size_def blk_blk_size_def blk_physical_block_exp_def slice_def be_def nth_append)

lemma disk_geometry: "virtio_get_heads disk_machine = 15" "virtio_get_sectors disk_machine = 12"
    "virtio_guessed_disk_nature disk_machine = GDN_NONE" "virtio_get_blocks disk_machine = Some (Ret 0x2000, disk_machine)"
proof -
  show "virtio_get_heads disk_machine = 15" "virtio_get_sectors disk_machine = 12" "virtio_guessed_disk_nature disk_machine = GDN_NONE"
    by (simp_all add: disk_machine_def virtio_get_heads_def virtio_get_sectors_def cu_model_def blk_heads_def blk_sectors_def
      nth_append VIRTIO_ID_BLOCK_def virtio_guessed_disk_nature_def blank_vdev_def)
  have "blk_capacity disk_machine = 0x10000" "cu_model disk_machine = VIRTIO_ID_BLOCK"
    using disk_machine_ready(1) by (simp_all add: disk_machine_def blk_capacity_def slice_def be_def blk_ready_def)
  then show "virtio_get_blocks disk_machine = Some (Ret 0x2000, disk_machine)"
    by (simp add: virtio_get_blocks_def disk_machine_ready(2) s32_div_def VIRTIO_SECTOR_SIZE_def Let_def)
qed

section \<open>Properties\<close>




theorem send_cmds_chain_witness:
  "\<exists>m v. send_cmds 0 (blk_cmds (Phys 0x20000) 4096) 0 disk_machine = Some (Ret (), set_ring 0 m v disk_machine) \<and>
     chain (rm_desc m) (length (rm_desc m)) (unat (avail_ring m ! 0)) = descs 0 (blk_cmds (Phys 0x20000) 4096)"
proof -
  have r: "idle 0 disk_machine" using disk_machine_ready(1) by (simp add: blk_ready_def rings_idle_def disk_machine_def blank_vdev_def)
  then have i: "has_ring 0 disk_machine" "ring_wf (rmem (io disk_machine) ! 0) (vrings (io disk_machine) ! 0)"
    "next_idx (vrings (io disk_machine) ! 0) = 0" by (simp_all add: idle_def Let_def)
  have l: "length (rm_desc (rmem (io disk_machine) ! 0)) = 4" "avail_idx (rmem (io disk_machine) ! 0) = 0"
    by (simp_all add: disk_machine_def blank_ring_def)
  have len: "length (blk_cmds (Phys 0x20000) 4096) \<le> length (rm_desc (rmem (io disk_machine) ! 0))"
    by (simp add: l blk_cmds_def)
  obtain m v where m: "send_cmds 0 (blk_cmds (Phys 0x20000) 4096) 0 disk_machine = Some (Ret (), set_ring 0 m v disk_machine)"
    "chain (rm_desc m) (length (rm_desc m)) (unat (avail_ring m ! 0)) = descs 0 (blk_cmds (Phys 0x20000) 4096)"
    using send_cmds_chain [OF i chained_blk_cmds len] by (auto simp: Let_def l)
  then show ?thesis by blast
qed

end
