(* ===== verification/BootRecords.thy ===== *)
theory BootRecords
  imports Prelude
begin

text \<open>
  The on-disk records of \<open>bootmap.h\<close> as C lays them out: packed structures and unions, and where
  a member is in them. The boot map code reads the records from its sector buffers by these
  offsets.
\<close>

section \<open>Packed types\<close>

datatype ctype = Bytes nat | Array nat ctype | Struct members | Union members
  and members = End | Member string ctype members

definition c_struct :: "(string \<times> ctype) list \<Rightarrow> ctype" where
  "c_struct fs = Struct (foldr (\<lambda>(n, t) m. Member n t m) fs End)"

definition c_union :: "(string \<times> ctype) list \<Rightarrow> ctype" where
  "c_union fs = Union (foldr (\<lambda>(n, t) m. Member n t m) fs End)"

text \<open>\<open>sizeof\<close>; \<open>total\<close> and \<open>widest\<close> for the members of a structure and of a union.\<close>

fun sizeof :: "ctype \<Rightarrow> nat" and total :: "members \<Rightarrow> nat" and widest :: "members \<Rightarrow> nat" where
  "sizeof (Bytes n) = n"
| "sizeof (Array n t) = n * sizeof t"
| "sizeof (Struct m) = total m"
| "sizeof (Union m) = widest m"
| "total End = 0"
| "total (Member n t m) = sizeof t + total m"
| "widest End = 0"
| "widest (Member n t m) = max (sizeof t) (widest m)"

text \<open>A path of member names and indices; \<open>entry[]\<close> is an array without a bound.\<close>

datatype step = Fld string | Idx nat

fun locate :: "ctype \<Rightarrow> step list \<Rightarrow> nat option"
  and locate_struct :: "members \<Rightarrow> string \<Rightarrow> step list \<Rightarrow> nat option"
  and locate_union :: "members \<Rightarrow> string \<Rightarrow> step list \<Rightarrow> nat option" where
  "locate t [] = Some 0"
| "locate (Bytes n) (x # p) = (case x of Idx i \<Rightarrow> if p = [] then Some i else None | Fld f \<Rightarrow> None)"
| "locate (Array n t) (x # p) = (case x of Idx i \<Rightarrow> map_option (\<lambda>k. i * sizeof t + k) (locate t p) | Fld f \<Rightarrow> None)"
| "locate (Struct m) (x # p) = (case x of Fld f \<Rightarrow> locate_struct m f p | Idx i \<Rightarrow> None)"
| "locate (Union m) (x # p) = (case x of Fld f \<Rightarrow> locate_union m f p | Idx i \<Rightarrow> None)"
| "locate_struct End f p = None"
| "locate_struct (Member n t m) f p =
     (if n = f then locate t p else map_option (\<lambda>k. sizeof t + k) (locate_struct m f p))"
| "locate_union End f p = None"
| "locate_union (Member n t m) f p = (if n = f then locate t p else locate_union m f p)"

definition offset :: "ctype \<Rightarrow> step list \<Rightarrow> nat" where
  "offset t p = the (locate t p)"

section \<open>The records\<close>

definition ScsiBlockPtr :: ctype where
  "ScsiBlockPtr = c_struct [(''blockno'', Bytes 8), (''size'', Bytes 2), (''blockct'', Bytes 2),
     (''reserved'', Bytes 4)]"
definition FbaBlockPtr :: ctype where
  "FbaBlockPtr = c_struct [(''blockno'', Bytes 4), (''size'', Bytes 2), (''blockct'', Bytes 2)]"
definition EckdCHS :: ctype where
  "EckdCHS = c_struct [(''cylinder'', Bytes 2), (''head'', Bytes 2), (''sector'', Bytes 1)]"
definition EckdBlockPtr :: ctype where
  "EckdBlockPtr = c_struct [(''chs'', EckdCHS), (''size'', Bytes 2), (''count'', Bytes 1)]"
definition ExtEckdBlockPtr :: ctype where
  "ExtEckdBlockPtr = c_struct [(''bptr'', EckdBlockPtr), (''reserved'', Bytes 8)]"
definition BootMapPointer :: ctype where
  "BootMapPointer = c_union [(''scsi'', ScsiBlockPtr), (''fba'', FbaBlockPtr), (''eckd'', EckdBlockPtr),
     (''xeckd'', ExtEckdBlockPtr)]"
definition BootMapTable :: ctype where
  "BootMapTable = c_struct [(''magic'', Bytes 4), (''reserved'', Bytes 12), (''entry'', Array 0 BootMapPointer)]"
definition ComponentEntryData :: ctype where
  "ComponentEntryData = c_union [(''load_psw'', Bytes 8), (''load_addr'', Bytes 8)]"
definition ComponentEntry :: ctype where
  "ComponentEntry = c_struct [(''data'', ScsiBlockPtr), (''pad'', Bytes 7), (''component_type'', Bytes 1),
     (''compdat'', ComponentEntryData)]"
definition ComponentHeader :: ctype where
  "ComponentHeader = c_struct [(''magic'', Bytes 4), (''type'', Bytes 1), (''reserved'', Bytes 27)]"
definition ScsiMbr :: ctype where
  "ScsiMbr = c_struct [(''magic'', Bytes 4), (''version_id'', Bytes 4), (''reserved'', Bytes 8),
     (''pt'', ScsiBlockPtr)]"
definition XEckdMbr :: ctype where
  "XEckdMbr = c_struct [(''magic'', Bytes 4), (''version'', Bytes 1), (''bp_type'', Bytes 1), (''dev_type'', Bytes 1),
     (''flags'', Bytes 1), (''blockptr'', BootMapPointer), (''reserved'', Bytes 8)]"
definition BootMapScriptEntry :: ctype where
  "BootMapScriptEntry = c_struct [(''blkptr'', BootMapPointer), (''pad'', Bytes 7), (''type'', Bytes 1),
     (''address'', c_union [(''load_address'', Bytes 8), (''load_psw'', Bytes 8)])]"
definition BootMapScriptHeader :: ctype where
  "BootMapScriptHeader = c_struct [(''magic'', Bytes 4), (''type'', Bytes 1), (''reserved'', Bytes 27)]"
definition BootMapScript :: ctype where
  "BootMapScript = c_struct [(''header'', BootMapScriptHeader), (''entry'', Array 0 BootMapScriptEntry)]"
definition LDL_VTOC :: ctype where
  "LDL_VTOC = c_struct [(''magic'', Bytes 4), (''volser'', Bytes 6), (''reserved'', Bytes 69),
     (''LDL_version'', Bytes 1), (''formatted_blocks'', Bytes 8)]"
definition format_date :: ctype where
  "format_date = c_struct [(''YY'', Bytes 1), (''MM'', Bytes 1), (''DD'', Bytes 1), (''hh'', Bytes 1),
     (''mm'', Bytes 1), (''ss'', Bytes 1)]"
definition CMS_VTOC :: ctype where
  "CMS_VTOC = c_struct [(''magic'', Bytes 4), (''volser'', Bytes 6), (''version'', Bytes 2), (''block_size'', Bytes 4),
     (''disk_origin'', Bytes 4), (''blocks'', Bytes 4), (''formatted'', Bytes 4), (''CMS_blocks'', Bytes 4),
     (''CMS_used'', Bytes 4), (''FST_size'', Bytes 4), (''FST_per_CMS_blk'', Bytes 4), (''format_date'', format_date),
     (''reserved1'', Bytes 2), (''offset'', Bytes 4), (''next_hole'', Bytes 4), (''HBLK_hole_offset'', Bytes 4),
     (''alloc_map_usr_off'', Bytes 4), (''reserved2'', Bytes 4), (''shared_seg_name'', Bytes 8)]"
definition BootInfoBpIpl :: ctype where
  "BootInfoBpIpl = c_struct [(''bm_ptr'', c_union [(''eckd'', ExtEckdBlockPtr), (''linr'', ScsiBlockPtr)]),
     (''unused'', Bytes 16)]"
definition EckdDumpParam :: ctype where
  "EckdDumpParam = c_struct [(''start_blk'', Bytes 4), (''end_blk'', Bytes 4), (''blocksize'', Bytes 2),
     (''num_heads'', Bytes 1), (''bpt'', Bytes 1), (''reserved'', Bytes 4)]"
definition FbaDumpParam :: ctype where
  "FbaDumpParam = c_struct [(''start_blk'', Bytes 8), (''blockct'', Bytes 8)]"
definition BootInfoBpDump :: ctype where
  "BootInfoBpDump = c_struct [(''param'', c_union [(''eckd'', EckdDumpParam), (''fba'', FbaDumpParam)]),
     (''unused'', Bytes 16)]"
definition BootInfo :: ctype where
  "BootInfo = c_struct [(''magic'', Bytes 4), (''version'', Bytes 1), (''bp_type'', Bytes 1), (''dev_type'', Bytes 1),
     (''flags'', Bytes 1), (''bp'', c_union [(''dump'', BootInfoBpDump), (''ipl'', BootInfoBpIpl)])]"
definition EckdCdlIpl1 :: ctype where
  "EckdCdlIpl1 = c_struct [(''key'', Bytes 4), (''data'', Bytes 24)]"
definition EckdSeekArg :: ctype where
  "EckdSeekArg = c_struct [(''pad'', Bytes 2), (''chs'', EckdCHS), (''pad2'', Bytes 1)]"
definition EckdStage1b :: ctype where
  "EckdStage1b = c_struct [(''reserved'', Bytes 768), (''seek'', Array 24 EckdSeekArg), (''unused'', Bytes 64)]"
definition EckdStage1 :: ctype where
  "EckdStage1 = c_struct [(''reserved'', Bytes 72), (''seek'', Array 2 EckdSeekArg)]"
definition EckdCdlIpl2 :: ctype where
  "EckdCdlIpl2 = c_struct [(''key'', Bytes 4), (''stage1'', EckdStage1), (''mbr'', XEckdMbr), (''reserved'', Bytes 24)]"
definition EckdLdlIpl1 :: ctype where
  "EckdLdlIpl1 = c_struct [(''reserved'', Bytes 24), (''stage1'', EckdStage1), (''bip'', BootInfo)]"
definition IplVolumeLabel :: ctype where
  "IplVolumeLabel = c_struct [(''key'', Bytes 4), (''u'', c_union [(''data'', Bytes 80),
     (''f'', c_struct [(''key'', Bytes 4), (''volser'', Bytes 6), (''reserved'', Bytes 6)])])]"
definition IsoDirHdr :: ctype where
  "IsoDirHdr = c_struct [(''dr_len'', Bytes 1), (''ear_len'', Bytes 1), (''ext_loc'', Bytes 8), (''data_len'', Bytes 8),
     (''recording_datetime'', Bytes 7), (''file_flags'', Bytes 1), (''file_unit_size'', Bytes 1),
     (''gap_size'', Bytes 1), (''vol_seqnum'', Bytes 4), (''fileid_len'', Bytes 1)]"
definition IsoVdElTorito :: ctype where
  "IsoVdElTorito = c_struct [(''el_torito'', Bytes 32), (''unused0'', Bytes 32), (''bc_offset'', Bytes 4),
     (''unused1'', Bytes 1974)]"
definition IsoVdPrimary :: ctype where
  "IsoVdPrimary = c_struct [(''unused1'', Bytes 1), (''sys_id'', Bytes 32), (''vol_id'', Bytes 32),
     (''unused2'', Bytes 8), (''vol_space_size'', Bytes 8), (''unused3'', Bytes 32), (''vol_set_size'', Bytes 4),
     (''vol_seqnum'', Bytes 4), (''log_block_size'', Bytes 4), (''path_table_size'', Bytes 8),
     (''l_path_table'', Bytes 4), (''opt_l_path_table'', Bytes 4), (''m_path_table'', Bytes 4),
     (''opt_m_path_table'', Bytes 4), (''rootdir'', IsoDirHdr), (''root_null'', Bytes 1), (''reserved2'', Bytes 1858)]"
definition IsoVolDesc :: ctype where
  "IsoVolDesc = c_struct [(''type'', Bytes 1), (''ident'', Bytes 5), (''version'', Bytes 1),
     (''vd'', c_union [(''boot'', IsoVdElTorito), (''primary'', IsoVdPrimary)])]"
definition IsoBcValid :: ctype where
  "IsoBcValid = c_struct [(''platform_id'', Bytes 1), (''reserved'', Bytes 2), (''id'', Bytes 24),
     (''checksum'', Bytes 2), (''key'', Bytes 2)]"
definition IsoBcSection :: ctype where
  "IsoBcSection = c_struct [(''boot_type'', Bytes 1), (''load_segment'', Bytes 2), (''sys_type'', Bytes 1),
     (''unused'', Bytes 1), (''sector_count'', Bytes 2), (''load_rba'', Bytes 4), (''selection'', Bytes 20)]"
definition IsoBcHdr :: ctype where
  "IsoBcHdr = c_struct [(''platform_id'', Bytes 1), (''sect_num'', Bytes 2), (''id'', Bytes 28)]"
definition IsoBcEntry :: ctype where
  "IsoBcEntry = c_struct [(''id'', Bytes 1), (''body'', c_union [(''valid'', IsoBcValid), (''sect'', IsoBcSection),
     (''hdr'', IsoBcHdr)])]"

text \<open>Computing an offset or a size.\<close>

lemmas record_defs = offset_def c_struct_def c_union_def ScsiBlockPtr_def EckdCHS_def EckdBlockPtr_def ExtEckdBlockPtr_def
  FbaBlockPtr_def BootMapPointer_def BootMapTable_def ComponentEntryData_def ComponentEntry_def ComponentHeader_def ScsiMbr_def
  XEckdMbr_def BootMapScriptEntry_def BootMapScriptHeader_def BootMapScript_def LDL_VTOC_def format_date_def CMS_VTOC_def
  BootInfoBpIpl_def EckdDumpParam_def FbaDumpParam_def BootInfoBpDump_def BootInfo_def EckdCdlIpl1_def EckdSeekArg_def
  EckdStage1b_def EckdStage1_def EckdCdlIpl2_def EckdLdlIpl1_def IplVolumeLabel_def IsoDirHdr_def IsoVdElTorito_def
  IsoVdPrimary_def IsoVolDesc_def IsoBcValid_def IsoBcSection_def IsoBcHdr_def IsoBcEntry_def

end
