(* ===== verification/Eckd.thy ===== *)
theory Eckd
  imports Jump BlockSource BootRecords
begin

text \<open>
  Booting an ECKD DASD in CDL or LDL/CMS format (first half of \<open>bootmap.c\<close>, with the
  helpers of \<open>bootmap.h\<close>): block addresses, the block pointers of a boot map section, the
  boot menu in stage 2, the boot script. \<open>sec\<close>, \<open>_bprs\<close> and \<open>_s2\<close> are the buffers \<open>Sec\<close>,
  \<open>Bprs\<close> and \<open>S2\<close>; the structs laid over them are byte offsets.
\<close>

section \<open>bootmap.h\<close>

abbreviation (input) NULL_BLOCK_NR :: u64 where
  "NULL_BLOCK_NR \<equiv> 0xffffffffffffffff"
definition FREE_SPACE_FILLER :: u8 where
  "FREE_SPACE_FILLER = 0xaa"
definition ZIPL_MAGIC :: "u8 list" where
  "ZIPL_MAGIC = lit ''zIPL''"
definition ZIPL_MAGIC_EBCDIC :: "u8 list" where
  "ZIPL_MAGIC_EBCDIC = [0xa9, 0xc9, 0xd7, 0xd3]"
definition IPL1_MAGIC :: "u8 list" where
  "IPL1_MAGIC = [0xc9, 0xd7, 0xd3, 0xf1]"
definition VOL1_MAGIC :: "u8 list" where
  "VOL1_MAGIC = [0xe5, 0xd6, 0xd3, 0xf1]"
definition LNX1_MAGIC :: "u8 list" where
  "LNX1_MAGIC = [0xd3, 0xd5, 0xe7, 0xf1]"
definition CMS1_MAGIC :: "u8 list" where
  "CMS1_MAGIC = [0xc3, 0xd4, 0xe2, 0xf1]"
definition LDL1_VERSION :: u8 where
  "LDL1_VERSION = 0x40"
definition LDL2_VERSION :: u8 where
  "LDL2_VERSION = 0xf2"
definition BOOT_SCRIPT_EXEC :: u8 where
  "BOOT_SCRIPT_EXEC = 1"
definition BOOT_SCRIPT_LOAD :: u8 where
  "BOOT_SCRIPT_LOAD = 2"
definition BOOT_SCRIPT_SIGNATURE :: u8 where
  "BOOT_SCRIPT_SIGNATURE = 3"
definition STAGE2_BLK_CNT_MAX :: nat where
  "STAGE2_BLK_CNT_MAX = 24"

text \<open>\<open>EckdCHS\<close> and \<open>EckdBlockPtr\<close>, read from their bytes.\<close>

record eckd_chs =
  cylinder :: u16
  head :: u16
  sector :: u8

record eckd_block_ptr =
  chs :: eckd_chs
  bp_size :: u16
  bp_count :: u8

definition chs_of :: "u8 list \<Rightarrow> eckd_chs" where
  "chs_of b = \<lparr>cylinder = be (slice 0 2 b), head = be (slice 2 2 b), sector = b ! 4\<rparr>"

definition block_ptr_of :: "u8 list \<Rightarrow> eckd_block_ptr" where
  "block_ptr_of b = \<lparr>chs = chs_of b, bp_size = be (slice 5 2 b), bp_count = b ! 7\<rparr>"

definition print_volser :: "'d hw \<Rightarrow> u8 list \<Rightarrow> ('d, unit) fw" where
  "print_volser hw volser =
     (let ascii = ebcdic_to_ascii volser in
     seq (sclp_print hw (lit ''VOLSER=[''))
    (seq (sclp_print hw (c_str ascii)) (sclp_print hw (lit '']'' @ [10]))))"

definition unused_space :: "u8 list \<Rightarrow> bool" where
  "unused_space m \<longleftrightarrow> list_all (\<lambda>b. b = FREE_SPACE_FILLER) m"

definition is_null_block_number :: "u64 \<Rightarrow> bool" where
  "is_null_block_number x \<longleftrightarrow> x = NULL_BLOCK_NR"

definition read_block :: "'d hw \<Rightarrow> u64 \<Rightarrow> ptr \<Rightarrow> u8 list \<Rightarrow> ('d, unit) fw" where
  "read_block hw blockno buffer errmsg =
     bnd (virtio_read hw blockno buffer) (\<lambda>rc. IPL_assert hw (rc = 0) errmsg)"

definition block_size_ok :: "u32 \<Rightarrow> 'd machine \<Rightarrow> bool" where
  "block_size_ok block_size s \<longleftrightarrow> block_size = virtio_get_block_size s"

definition magic_match :: "u8 list \<Rightarrow> u8 list \<Rightarrow> bool" where
  "magic_match data magic \<longleftrightarrow> (be (take 4 data) :: u32) = be (take 4 magic)"

text \<open>The four bytes at a pointer, compared with a magic.\<close>

definition magic_at :: "ptr \<Rightarrow> u8 list \<Rightarrow> ('d, bool) fw" where
  "magic_at p magic = bnd (load p 4) (\<lambda>d. ret (magic_match d magic))"

section \<open>Block addresses\<close>

text \<open>
  The block number of a cylinder, head and sector; the head field has the four low bits of
  the head and the twelve high bits of the cylinder.
\<close>

definition chs_cylinder :: "eckd_chs \<Rightarrow> u64" where
  "chs_cylinder c = ucast (cylinder c) + push_bit 12 (ucast (head c AND 0xfff0))"

definition chs_head :: "eckd_chs \<Rightarrow> u64" where
  "chs_head c = ucast (head c AND 0x000f)"

definition eckd_block_num :: "eckd_chs \<Rightarrow> 'd machine \<Rightarrow> u64" where
  "eckd_block_num c s =
     (let sectors = ucast (virtio_get_sectors s); heads = ucast (virtio_get_heads s) in
      sectors * heads * chs_cylinder c + sectors * chs_head c + ucast (sector c) - 1)"

definition eckd_valid_address :: "eckd_block_ptr \<Rightarrow> ('d, bool) fw" where
  "eckd_valid_address p =
     bnd (gets (\<lambda>s. (virtio_get_heads s, virtio_get_sectors s, virtio_guessed_disk_nature s,
                     eckd_block_num (chs p) s))) (\<lambda>(heads, sectors, nature, block).
     if chs_head (chs p) \<ge> ucast heads \<or> sector (chs p) > sectors \<or> sector (chs p) \<le> 0
     then ret False
     else if nature = GDN_NONE
     then bnd virtio_get_blocks (\<lambda>blocks. ret (\<not> block \<ge> blocks))
     else ret True)"

text \<open>\<open>verify_boot_info\<close>: \<open>BootInfo\<close> at \<open>bip\<close>.\<close>

definition verify_boot_info :: "'d hw \<Rightarrow> nat \<Rightarrow> ('d, unit) fw" where
  "verify_boot_info hw bip =
     bnd (load (Buf Sec bip) 16) (\<lambda>b.
     bnd (gets (block_size_ok (be (slice (offset BootInfo [Fld ''bp'', Fld ''ipl'', Fld ''bm_ptr'', Fld ''eckd'', Fld ''bptr'', Fld ''size'']) 2 b)))) (\<lambda>size_ok.
     seq (IPL_assert hw (magic_match b ZIPL_MAGIC) (lit ''No zIPL sig in BootInfo''))
    (seq (IPL_assert hw (b ! (offset BootInfo [Fld ''version'']) = 1) (lit ''Wrong zIPL version''))
    (seq (IPL_assert hw (b ! (offset BootInfo [Fld ''bp_type'']) = 0) (lit ''DASD is not for IPL''))
    (seq (IPL_assert hw (b ! (offset BootInfo [Fld ''dev_type'']) = 0) (lit ''DASD is not ECKD''))
    (seq (IPL_assert hw (b ! (offset BootInfo [Fld ''flags'']) = 1) (lit ''Not for this arch''))
    (IPL_assert hw size_ok (lit ''Bad block size in zIPL section of the 1st record.''))))))))"

section \<open>Loading segments\<close>

text \<open>\<open>_bprs\<close> has \<open>8 * 1024 / 16\<close> entries.\<close>

abbreviation (input) max_bprs_entries :: nat where
  "max_bprs_entries \<equiv> 512"

definition fill_bprs :: "('d, unit) fw" where
  "fill_bprs = memset (Buf Bprs 0) FREE_SPACE_FILLER 8192"

text \<open>
  The loops of \<open>load_eckd_segments\<close> as one: entry \<open>j\<close> of the current chunk and the load
  address. The result is the block number at which the section ends, and the address.
\<close>

partial_function (option) segments_loop :: "'d hw \<Rightarrow> nat \<Rightarrow> u64 \<Rightarrow> ('d, u64 \<times> u64) fw" where
  "segments_loop hw j address s =
     bnd (load (Buf Bprs (16 * j)) 8) (\<lambda>e.
     bnd (gets (eckd_block_num (chs (block_ptr_of e)))) (\<lambda>block_nr.
       if is_null_block_number block_nr then ret (block_nr, address)
       else if j = max_bprs_entries - 1 then ret (block_nr, address)
       else
         bnd (gets (block_size_ok (ucast (bp_size (block_ptr_of e))))) (\<lambda>size_ok.
         seq (IPL_assert hw size_ok (lit ''bad chunk block size''))
        (bnd (eckd_valid_address (block_ptr_of e)) (\<lambda>valid.
         seq (IPL_assert hw valid (lit ''bad chunk ECKD addr''))
        (bnd (load (Buf Bprs (16 * (j + 1))) 8) (\<lambda>next.
         if bp_count (block_ptr_of e) = 0 \<and> unused_space next
         then seq fill_bprs
             (seq (read_block hw block_nr (Buf Bprs 0) (lit ''BPRS continuation read failed''))
             (\<lambda>s. segments_loop hw 0 address s))
         else
           bnd (virtio_read_many hw block_nr (Phys address) (ucast (bp_count (block_ptr_of e)) + 1)) (\<lambda>rc.
           seq (IPL_assert hw (rc = 0) (lit ''code chunk read failed''))
          (bnd (gets virtio_get_block_size) (\<lambda>bs.
           (\<lambda>s. segments_loop hw (j + 1)
              (address + int_to_u64 ((ucast (bp_count (block_ptr_of e)) + 1) * bs)) s))))))))))) s"

definition load_eckd_segments :: "'d hw \<Rightarrow> u64 \<Rightarrow> u64 \<Rightarrow> ('d, u64 \<times> u64) fw" where
  "load_eckd_segments hw blk address =
     seq fill_bprs
    (seq (read_block hw blk (Buf Bprs 0) (lit ''BPRS read failed''))
    (\<lambda>s. segments_loop hw 0 address s))"

section \<open>The menu\<close>

text \<open>\<open>s2_prev_blk\<close>, \<open>s2_cur_blk\<close> and \<open>s2_next_blk\<close> are 4096 bytes apart.\<close>

abbreviation (input) s2_prev_blk :: nat where
  "s2_prev_blk \<equiv> 0"
abbreviation (input) s2_cur_blk :: nat where
  "s2_cur_blk \<equiv> 4096"
abbreviation (input) s2_next_blk :: nat where
  "s2_next_blk \<equiv> 8192"

text \<open>The first of the \<open>n\<close> offsets from \<open>i\<close> on where the banner starts.\<close>

fun find_banner :: "nat \<Rightarrow> nat \<Rightarrow> ('d, nat option) fw" where
  "find_banner i 0 = ret None"
| "find_banner i (Suc n) =
     bnd (magic_at (Buf S2 (s2_cur_blk + i)) ZIPL_MAGIC_EBCDIC) (\<lambda>magic.
     if magic then ret (Some i) else find_banner (Suc i) n)"

definition find_zipl_boot_menu_banner :: "('d, nat option) fw" where
  "find_zipl_boot_menu_banner =
     bnd (gets virtio_get_block_size) (\<lambda>bs. find_banner 0 (nat (sint (bs - 4) + 1)))"

text \<open>The block \<open>EckdStage1b.seek[i].chs\<close> names.\<close>

definition seek_block :: "nat \<Rightarrow> ('d, u64) fw" where
  "seek_block i = bnd (load (Buf Sec (offset EckdStage1b [Fld ''seek'', Idx i, Fld ''chs''])) 5) (\<lambda>b. gets (eckd_block_num (chs_of b)))"

text \<open>The loop over the stage 2 blocks: \<open>n\<close> left from \<open>i\<close> on, and \<open>prev_block_nr\<close>.\<close>

fun stage2_loop :: "'d hw \<Rightarrow> nat \<Rightarrow> nat \<Rightarrow> u64 \<Rightarrow> ('d, s32) fw" where
  "stage2_loop hw i 0 prev_block_nr =
     seq (sclp_print hw (lit ''No zipl boot menu data found. Booting default entry.'')) (ret 0)"
| "stage2_loop hw i (Suc n) prev_block_nr =
     bnd (seek_block i) (\<lambda>cur_block_nr.
     if cur_block_nr = 0 \<or> is_null_block_number cur_block_nr
     then seq (sclp_print hw (lit ''No zipl boot menu data found. Booting default entry.'')) (ret 0)
     else
     seq (read_block hw cur_block_nr (Buf S2 s2_cur_blk) (lit ''Cannot read stage2 boot loader''))
    (bnd find_zipl_boot_menu_banner (\<lambda>banner.
     case banner of
       Some banner_offset \<Rightarrow>
         seq (whenM (prev_block_nr \<noteq> 0)
           (read_block hw prev_block_nr (Buf S2 s2_prev_blk) (lit ''Cannot read stage2 boot loader'')))
        (bnd (if i + 1 < STAGE2_BLK_CNT_MAX then seek_block (i + 1) else ret 0) (\<lambda>next_block_nr.
         seq (whenM (next_block_nr \<noteq> 0)
           (read_block hw next_block_nr (Buf S2 s2_next_blk) (lit ''Cannot read stage2 boot loader'')))
         (menu_get_zipl_boot_index hw (s2_cur_blk + banner_offset))))
     | None \<Rightarrow> stage2_loop hw (Suc i) n cur_block_nr)))"

definition fill_sec :: "('d, unit) fw" where
  "fill_sec = memset (Buf Sec 0) FREE_SPACE_FILLER 16384"

definition eckd_get_boot_menu_index :: "'d hw \<Rightarrow> u64 \<Rightarrow> ('d, s32) fw" where
  "eckd_get_boot_menu_index hw s1b_block_nr =
     seq fill_sec
    (seq (read_block hw s1b_block_nr (Buf Sec 0) (lit ''Cannot read stage1b boot loader''))
    (seq (memset (Buf S2 0) FREE_SPACE_FILLER 12288)
    (stage2_loop hw 0 STAGE2_BLK_CNT_MAX 0)))"

section \<open>The boot script\<close>

text \<open>The entry \<open>i\<close> of the script in \<open>sec\<close>.\<close>

abbreviation script_type :: "nat \<Rightarrow> ptr" where
  "script_type i \<equiv> Buf Sec (offset BootMapScript [Fld ''entry'', Idx i, Fld ''type''])"

abbreviation script_address :: "nat \<Rightarrow> ptr" where
  "script_address i \<equiv> Buf Sec (offset BootMapScript [Fld ''entry'', Idx i, Fld ''address''])"

text \<open>\<open>do block_nr = load_eckd_segments(block_nr, &address) while (block_nr != -1)\<close>.\<close>

partial_function (option) section_loop :: "'d hw \<Rightarrow> u64 \<Rightarrow> u64 \<Rightarrow> ('d, unit) fw" where
  "section_loop hw block_nr address s =
     bnd (load_eckd_segments hw block_nr address) (\<lambda>x.
       if is_null_block_number (fst x) then ret ()
       else (\<lambda>s. section_loop hw (fst x) (snd x) s)) s"

text \<open>The loop over the script entries; the result is the index of the entry that ends it.\<close>

partial_function (option) script_loop :: "'d hw \<Rightarrow> nat \<Rightarrow> ('d, nat) fw" where
  "script_loop hw i s =
     bnd (load_u8 (script_type i)) (\<lambda>t.
       if t = BOOT_SCRIPT_SIGNATURE then (\<lambda>s. script_loop hw (i + 1) s)
       else if t = BOOT_SCRIPT_LOAD
       then bnd (load_u64 (script_address i)) (\<lambda>address.
            bnd (load (Buf Sec (offset BootMapScript [Fld ''entry'', Idx i, Fld ''blkptr'', Fld ''xeckd'', Fld ''bptr'', Fld ''chs''])) 5) (\<lambda>b.
            bnd (gets (eckd_block_num (chs_of b))) (\<lambda>block_nr.
            seq (\<lambda>s. section_loop hw block_nr address s) (\<lambda>s. script_loop hw (i + 1) s))))
       else ret i) s"

definition run_eckd_boot_script :: "'d hw \<Rightarrow> u64 \<Rightarrow> u64 \<Rightarrow> ('d, unit) fw" where
  "run_eckd_boot_script hw bmt_block_nr s1b_block_nr =
     bnd (gets (\<lambda>s. (get_loadparm_index s, menu_is_enabled_zipl s))) (\<lambda>(loadparm0, menu).
     bnd (if menu then eckd_get_boot_menu_index hw s1b_block_nr else ret loadparm0) (\<lambda>loadparm.
     seq (IPL_assert hw (unat loadparm < MAX_BOOT_ENTRIES)
            (lit ''loadparm value greater than maximum number of boot entries allowed''))
    (seq fill_sec
    (seq (read_block hw bmt_block_nr (Buf Sec 0) (lit ''Cannot read Boot Map Table''))
    (bnd (load (Buf Sec (offset BootMapTable [Fld ''entry'', Idx (unat loadparm), Fld ''xeckd'', Fld ''bptr'', Fld ''chs''])) 5) (\<lambda>b.
     bnd (gets (eckd_block_num (chs_of b))) (\<lambda>block_nr.
     seq (IPL_assert hw (block_nr \<noteq> -1) (lit ''Cannot find Boot Map Table Entry''))
    (seq fill_sec
    (seq (read_block hw block_nr (Buf Sec 0) (lit ''Cannot read Boot Map Script''))
    (bnd (\<lambda>s. script_loop hw 0 s) (\<lambda>i.
     bnd (load_u8 (script_type i)) (\<lambda>t.
     seq (IPL_assert hw (t = BOOT_SCRIPT_EXEC) (lit ''Unknown script entry type''))
    (bnd (load_u64 (script_address i)) (\<lambda>psw.
     seq (write_reset_psw psw) (jump_to_IPL_code hw 0)))))))))))))))"

section \<open>Disk layouts\<close>

text \<open>
  The condition \<open>!mbr->dev_type == DEV_TYPE_ECKD\<close> negates first: with \<open>DEV_TYPE_ECKD = 0\<close> it is
  true exactly for a non-zero type.
\<close>

definition not_eckd_dev_type :: "u8 \<Rightarrow> bool" where
  "not_eckd_dev_type dev_type \<longleftrightarrow> (if dev_type = 0 then 1 else 0 :: nat) = 0"

definition ipl_eckd_cdl :: "'d hw \<Rightarrow> ('d, unit) fw" where
  "ipl_eckd_cdl hw =
     seq (sclp_print hw (lit ''CDL'' @ [10]))
    (seq fill_sec
    (seq (read_block hw 1 (Buf Sec 0) (lit ''Cannot read IPL2 record at block 1''))
    (bnd (magic_at (Buf Sec (offset EckdCdlIpl2 [Fld ''mbr'', Fld ''magic''])) ZIPL_MAGIC) (\<lambda>magic.
     if \<not> magic then sclp_print hw (lit ''No zIPL section in IPL2 record.'' @ [10])
     else
     bnd (load_u16 (Buf Sec (offset EckdCdlIpl2 [Fld ''mbr'', Fld ''blockptr'', Fld ''xeckd'', Fld ''bptr'', Fld ''size'']))) (\<lambda>bsize.
     bnd (gets (block_size_ok (ucast bsize))) (\<lambda>size_ok.
     if \<not> size_ok then sclp_print hw (lit ''Bad block size in zIPL section of IPL2 record.'' @ [10])
     else
     bnd (load_u8 (Buf Sec (offset EckdCdlIpl2 [Fld ''mbr'', Fld ''dev_type'']))) (\<lambda>dev_type.
     if not_eckd_dev_type dev_type
     then sclp_print hw (lit ''Non-ECKD device type in zIPL section of IPL2 record.'' @ [10])
     else
     bnd (load (Buf Sec (offset EckdCdlIpl2 [Fld ''mbr'', Fld ''blockptr'', Fld ''xeckd'', Fld ''bptr'', Fld ''chs''])) 5) (\<lambda>b.
     bnd (gets (eckd_block_num (chs_of b))) (\<lambda>bmt_block_nr.
     bnd (load (Buf Sec (offset EckdCdlIpl2 [Fld ''stage1'', Fld ''seek'', Idx 0, Fld ''chs''])) 5) (\<lambda>b.
     bnd (gets (eckd_block_num (chs_of b))) (\<lambda>s1b_block_nr.
     seq fill_sec
    (seq (read_block hw 2 (Buf Sec 0) (lit ''Cannot read Volume Label at block 2''))
    (bnd (magic_at (Buf Sec (offset IplVolumeLabel [Fld ''key''])) VOL1_MAGIC) (\<lambda>magic.
     if \<not> magic then sclp_print hw (lit ''Invalid magic of volume label block.'' @ [10])
     else
     bnd (magic_at (Buf Sec (offset IplVolumeLabel [Fld ''u'', Fld ''f'', Fld ''key''])) VOL1_MAGIC) (\<lambda>magic.
     if \<not> magic then sclp_print hw (lit ''Invalid magic of volser block.'' @ [10])
     else
     bnd (load (Buf Sec (offset IplVolumeLabel [Fld ''u'', Fld ''f'', Fld ''volser''])) 6) (\<lambda>volser.
     seq (print_volser hw volser)
     (run_eckd_boot_script hw bmt_block_nr s1b_block_nr)))))))))))))))))"

datatype eckd_ipl_mode = ECKD_NO_IPL | ECKD_CMS | ECKD_LDL | ECKD_LDL_UNLABELED

definition print_eckd_ldl_msg :: "'d hw \<Rightarrow> eckd_ipl_mode \<Rightarrow> ('d, unit) fw" where
  "print_eckd_ldl_msg hw mode =
     seq (sclp_print hw (if mode = ECKD_CMS then lit ''CMS'' else lit ''LDL''))
    (seq (sclp_print hw (lit '' version ''))
    (bnd (load_u8 (Buf Sec (offset LDL_VTOC [Fld ''LDL_version'']))) (\<lambda>version.
     seq (sclp_print hw
       (if version = LDL1_VERSION then lit ''1.'' @ [10]
        else if version = LDL2_VERSION then lit ''2.'' @ [10]
        else c_str [ebc2asc ! unat version, 63, 10, 0]))
    (bnd (load (Buf Sec (offset LDL_VTOC [Fld ''volser''])) 6) (print_volser hw)))))"

definition ipl_eckd_ldl :: "'d hw \<Rightarrow> eckd_ipl_mode \<Rightarrow> ('d, unit) fw" where
  "ipl_eckd_ldl hw mode =
     seq (whenM (mode \<noteq> ECKD_LDL_UNLABELED) (print_eckd_ldl_msg hw mode))
    (seq fill_sec
    (seq (read_block hw 0 (Buf Sec 0) (lit ''Cannot read block 0 to grab boot info.''))
    (bnd (magic_at (Buf Sec (offset EckdLdlIpl1 [Fld ''bip'', Fld ''magic''])) ZIPL_MAGIC) (\<lambda>magic.
     if mode = ECKD_LDL_UNLABELED \<and> \<not> magic then ret ()
     else
     seq (whenM (mode = ECKD_LDL_UNLABELED) (sclp_print hw (lit ''unlabeled LDL.'' @ [10])))
    (seq (verify_boot_info hw (offset EckdLdlIpl1 [Fld ''bip'']))
    (bnd (load (Buf Sec (offset EckdLdlIpl1 [Fld ''bip'', Fld ''bp'', Fld ''ipl'', Fld ''bm_ptr'', Fld ''eckd'', Fld ''bptr'', Fld ''chs''])) 5) (\<lambda>b.
     bnd (gets (eckd_block_num (chs_of b))) (\<lambda>bmt_block_nr.
     bnd (load (Buf Sec (offset EckdLdlIpl1 [Fld ''stage1'', Fld ''seek'', Idx 0, Fld ''chs''])) 5) (\<lambda>b.
     bnd (gets (eckd_block_num (chs_of b))) (\<lambda>s1b_block_nr.
     run_eckd_boot_script hw bmt_block_nr s1b_block_nr))))))))))"

text \<open>
  The digits of the block size, right aligned in the five stars: \<open>p\<close> counts down from 34
  to 30.
\<close>

function block_size_digits :: "nat \<Rightarrow> nat \<Rightarrow> u8 list \<Rightarrow> u8 list" where
  "block_size_digits n p msg =
     (if n \<noteq> 0 then block_size_digits (n div 10) (p - 1) (msg[p := word_of_nat (48 + n mod 10)])
      else if 30 \<le> p then block_size_digits 0 (p - 1) (msg[p := 32])
      else msg)"
  by pat_completeness auto
termination
  by (relation "measures [\<lambda>(n, p, msg). n, \<lambda>(n, p, msg). p]") auto

declare block_size_digits.simps [simp del]

definition eckd_msg :: "s32 \<Rightarrow> u8 list" where
  "eckd_msg n =
     (let msg = lit ''Using ECKD scheme (block size *****), '' in
      if 0 < sint n \<and> sint n \<le> 99999 then block_size_digits (unat n) 34 msg else msg)"

definition print_eckd_msg :: "'d hw \<Rightarrow> ('d, unit) fw" where
  "print_eckd_msg hw = bnd (gets virtio_get_block_size) (\<lambda>n. sclp_print hw (eckd_msg n))"

definition ipl_eckd :: "'d hw \<Rightarrow> ('d, unit) fw" where
  "ipl_eckd hw =
     seq (print_eckd_msg hw)
    (seq fill_sec
    (seq (read_block hw 0 (Buf Sec 0) (lit ''Cannot read block 0 on DASD''))
    (bnd (magic_at (Buf Sec 0) IPL1_MAGIC) (\<lambda>magic.
     if magic then ipl_eckd_cdl hw
     else
     seq fill_sec
    (seq (read_block hw 2 (Buf Sec 0) (lit ''Cannot read block 2''))
    (bnd (magic_at (Buf Sec 0) CMS1_MAGIC) (\<lambda>magic.
     seq (whenM magic (ipl_eckd_ldl hw ECKD_CMS))
    (bnd (magic_at (Buf Sec 0) LNX1_MAGIC) (\<lambda>magic.
     seq (whenM magic (ipl_eckd_ldl hw ECKD_LDL))
    (seq (ipl_eckd_ldl hw ECKD_LDL_UNLABELED)
    (ipl_eckd_cdl hw)))))))))))"

section \<open>Outcomes\<close>

context exit_contract begin

lemma block_outcome [outcome]:
  "outcome_ok X (print_volser hw v)" "outcome_ok X (read_block hw n p msg)" "outcome_ok X (magic_at p m)"
  "outcome_ok X (eckd_valid_address bp)" "outcome_ok X (verify_boot_info hw i)"
  "outcome_ok X fill_bprs" "outcome_ok X fill_sec"
  unfolding print_volser_def read_block_def magic_at_def eckd_valid_address_def verify_boot_info_def
    fill_bprs_def fill_sec_def
  by (intro outcome)+

lemma segments_loop_outcome [outcome]: "outcome_ok X (segments_loop hw j address)"
proof (rule outcome_ok_loopI)
  fix s y
  assume "segments_loop hw j address s = Some y"
  then show "outcome_at X s y"
  proof (rule segments_loop.raw_induct [rotated, of _ _ _ _ _ "\<lambda>hw j address. outcome_at X"], goal_cases)
    case (1 rec hw j address s y)
    have rec: "outcome_ok X (rec hw j address)" for hw j address by (rule outcome_ok_loopI) (rule 1(1))
    show ?case using 1(2) by (rule outcome_bnd_at) (intro outcome rec)+
  qed
qed

lemma load_eckd_segments_outcome [outcome]: "outcome_ok X (load_eckd_segments hw blk address)"
  unfolding load_eckd_segments_def by (intro outcome)

lemma find_banner_outcome [outcome]: "outcome_ok X (find_banner i n)"
  by (induction n arbitrary: i) (simp_all only: find_banner.simps, (intro outcome | assumption)+)

lemma seek_block_outcome [outcome]:
  "outcome_ok X find_zipl_boot_menu_banner" "outcome_ok X (seek_block i)"
  unfolding find_zipl_boot_menu_banner_def seek_block_def by (intro outcome)+

lemma stage2_loop_outcome [outcome]: "outcome_ok X (stage2_loop hw i n prev)"
  by (induction n arbitrary: i prev) (simp_all only: stage2_loop.simps, (intro outcome | assumption)+)

lemma eckd_get_boot_menu_index_outcome [outcome]: "outcome_ok X (eckd_get_boot_menu_index hw blk)"
  unfolding eckd_get_boot_menu_index_def by (intro outcome)

lemma section_loop_outcome [outcome]: "outcome_ok X (section_loop hw blk address)"
proof (rule outcome_ok_loopI)
  fix s y
  assume "section_loop hw blk address s = Some y"
  then show "outcome_at X s y"
  proof (rule section_loop.raw_induct [rotated, of _ _ _ _ _ "\<lambda>hw blk address. outcome_at X"], goal_cases)
    case (1 rec hw blk address s y)
    have rec: "outcome_ok X (rec hw blk address)" for hw blk address by (rule outcome_ok_loopI) (rule 1(1))
    show ?case using 1(2) by (rule outcome_bnd_at) (intro outcome rec)+
  qed
qed

lemma script_loop_outcome [outcome]: "outcome_ok X (script_loop hw i)"
proof (rule outcome_ok_loopI)
  fix s y
  assume "script_loop hw i s = Some y"
  then show "outcome_at X s y"
  proof (rule script_loop.raw_induct [rotated, of _ _ _ _ "\<lambda>hw i. outcome_at X"], goal_cases)
    case (1 rec hw i s y)
    have rec: "outcome_ok X (rec hw i)" for hw i by (rule outcome_ok_loopI) (rule 1(1))
    show ?case using 1(2) by (rule outcome_bnd_at) (intro outcome rec)+
  qed
qed

lemma eckd_message_outcome [outcome]:
  "outcome_ok X (print_eckd_ldl_msg hw mode)" "outcome_ok X (print_eckd_msg hw)"
  unfolding print_eckd_ldl_msg_def print_eckd_msg_def by (intro outcome)+

end

context boot_contract begin

lemma run_eckd_boot_script_outcome [outcome]: "outcome_ok X (run_eckd_boot_script hw bmt s1b)"
  unfolding run_eckd_boot_script_def by (intro outcome)

lemma ipl_eckd_outcome [outcome]:
  "outcome_ok X (ipl_eckd_cdl hw)" "outcome_ok X (ipl_eckd_ldl hw mode)" "outcome_ok X (ipl_eckd hw)"
  unfolding ipl_eckd_def ipl_eckd_cdl_def ipl_eckd_ldl_def by (intro outcome)+

end

section \<open>Block numbers\<close>

text \<open>The address of a block number, for a disk of that many heads and sectors a track.\<close>

definition chs_of_block :: "nat \<Rightarrow> nat \<Rightarrow> u64 \<Rightarrow> eckd_chs" where
  "chs_of_block heads sectors block =
     (let b = unat block; c = b div (heads * sectors) in
      \<lparr>cylinder = word_of_nat c, head = word_of_nat (c div 65536 * 16 + b div sectors mod heads),
       sector = word_of_nat (b mod sectors + 1)\<rparr>)"


lemma low_head: "unat (h AND 0x000f :: u16) = unat h mod 16"
proof -
  have "h AND 0x000f = take_bit 4 h" by (simp add: take_bit_eq_mask mask_eq_exp_minus_1)
  then show ?thesis by (simp only: unsigned_take_bit_eq) (simp add: take_bit_eq_mod)
qed

lemma high_cylinder: "push_bit 12 (ucast (h AND 0xfff0 :: u16)) = (push_bit 16 (ucast (drop_bit 4 h)) :: u64)"
proof -
  have "(0xfff0 :: u16) = NOT (mask 4)" by code_simp
  then have "h AND 0xfff0 = h AND NOT (mask 4)" by metis
  then have "h AND 0xfff0 = push_bit 4 (drop_bit 4 h)" by (simp only:) (rule bit_word_eqI, auto simp: bit_simps)
  then show ?thesis by (simp only:) (rule bit_word_eqI, auto simp: bit_simps dest: bit_imp_le_length)
qed

text \<open>The 28 bits of the cylinder.\<close>

definition cyl_nat :: "eckd_chs \<Rightarrow> nat" where
  "cyl_nat c = unat (cylinder c) + unat (head c) div 16 * 65536"

lemma cyl_nat_bound: "cyl_nat c < 2 ^ 28"
proof -
  have "unat (head c) div 16 < 4096"
    using unsigned_less [of "head c", where ?'a = nat] by (intro less_mult_imp_div_less) simp
  moreover have "unat (cylinder c) < 65536" using unsigned_less [of "cylinder c", where ?'a = nat] by simp
  ultimately show ?thesis by (simp add: cyl_nat_def)
qed

lemma chs_cylinder_eq: "chs_cylinder c = word_of_nat (cyl_nat c)"
proof -
  have d: "unat (drop_bit 4 (head c)) = unat (head c) div 16"
    by (simp only: drop_bit_eq_div unat_div) simp
  have "chs_cylinder c = word_of_nat (unat (cylinder c)) + word_of_nat (unat (drop_bit 4 (head c))) * 65536"
    unfolding chs_cylinder_def high_cylinder by (simp add: push_bit_eq_mult)
  then show ?thesis unfolding d by (simp add: cyl_nat_def)
qed

lemma unat_chs_head: "chs_head c = word_of_nat (unat (head c) mod 16)"
  unfolding chs_head_def low_head [symmetric] by simp

lemma eckd_block_num_nat:
  assumes "1 \<le> unat (sector c)"
  shows "unat (eckd_block_num c s) =
     (cyl_nat c * unat (virtio_get_heads s) + unat (head c) mod 16) * unat (virtio_get_sectors s) + unat (sector c) - 1"
proof -
  let ?h = "unat (virtio_get_heads s)" and ?t = "unat (virtio_get_sectors s)"
  have "eckd_block_num c s = word_of_nat (?t * ?h * cyl_nat c + ?t * (unat (head c) mod 16) + unat (sector c)) - 1"
    by (simp add: eckd_block_num_def Let_def chs_cylinder_eq unat_chs_head)
  also have "\<dots> = word_of_nat (?t * ?h * cyl_nat c + ?t * (unat (head c) mod 16) + unat (sector c) - 1)"
    using assms by (simp add: of_nat_diff)
  finally have e: "eckd_block_num c s =
     word_of_nat ((cyl_nat c * ?h + unat (head c) mod 16) * ?t + unat (sector c) - 1)"
    by (simp add: algebra_simps)
  have "?h < 2 ^ 8" "?t < 2 ^ 8" "unat (sector c) < 2 ^ 8"
    using unsigned_less [of "virtio_get_heads s", where ?'a = nat]
      unsigned_less [of "virtio_get_sectors s", where ?'a = nat] unsigned_less [of "sector c", where ?'a = nat]
    by simp_all
  then have "(cyl_nat c * ?h + unat (head c) mod 16) * ?t \<le> (2 ^ 28 * 2 ^ 8 + 16) * 2 ^ 8"
    using cyl_nat_bound [of c] by (intro mult_mono add_mono) auto
  then have "(cyl_nat c * ?h + unat (head c) mod 16) * ?t + unat (sector c) - 1 < 2 ^ 64"
    using \<open>unat (sector c) < 2 ^ 8\<close> by simp
  then show ?thesis unfolding e unat_of_nat by (simp add: take_bit_nat_eq_self)
qed


lemma chs_roundtrip_nat:
  fixes C H S h t :: nat
  assumes "H < h" "S < t"
  shows "((C * h + H) * t + S) div (h * t) = C" "((C * h + H) * t + S) div t mod h = H"
    "((C * h + H) * t + S) mod t = S"
proof -
  have q: "((C * h + H) * t + S) div t = C * h + H" using assms by simp
  then show "((C * h + H) * t + S) div t mod h = H" using assms by simp
  show "((C * h + H) * t + S) mod t = S" using assms by simp
  show "((C * h + H) * t + S) div (h * t) = C"
    unfolding mult.commute [of h] div_mult2_eq q using assms by simp
qed

definition chs_valid :: "'d machine \<Rightarrow> eckd_chs \<Rightarrow> bool" where
  "chs_valid s c \<longleftrightarrow> chs_head c < ucast (virtio_get_heads s) \<and> 0 < sector c \<and> sector c \<le> virtio_get_sectors s"

lemma chs_valid_nat: "chs_valid s c \<longleftrightarrow> unat (head c) mod 16 < unat (virtio_get_heads s) \<and>
    1 \<le> unat (sector c) \<and> unat (sector c) \<le> unat (virtio_get_sectors s)"
proof -
  have "unat (chs_head c) = unat (head c) mod 16"
    unfolding unat_chs_head by (simp add: unat_of_nat take_bit_nat_eq_self)
  moreover have "unat (ucast (virtio_get_heads s) :: u64) = unat (virtio_get_heads s)"
    using unsigned_less [of "virtio_get_heads s", where ?'a = nat]
    by (simp add: unsigned_ucast_eq take_bit_nat_eq_self)
  ultimately show ?thesis by (simp add: chs_valid_def word_less_nat_alt word_le_nat_alt Suc_le_eq)
qed

lemma eckd_block_num_inverse:
  assumes "chs_valid s c"
  shows "chs_of_block (unat (virtio_get_heads s)) (unat (virtio_get_sectors s)) (eckd_block_num c s) = c"
proof -
  let ?h = "unat (virtio_get_heads s)" and ?t = "unat (virtio_get_sectors s)" and ?H = "unat (head c)"
    and ?C = "unat (cylinder c)" and ?S = "unat (sector c)"
  from assms have v: "?H mod 16 < ?h" "1 \<le> ?S" "?S - 1 < ?t" by (auto simp: chs_valid_nat)
  have n: "unat (eckd_block_num c s) = (cyl_nat c * ?h + ?H mod 16) * ?t + (?S - 1)"
    unfolding eckd_block_num_nat [OF v(2)] using v(2) by simp
  have C: "?C < 65536" using unsigned_less [of "cylinder c", where ?'a = nat] by simp
  have c: "cyl_nat c div 65536 = ?H div 16" using C by (simp add: cyl_nat_def)
  have "(65536 :: u16) = 0" by code_simp
  then have "word_of_nat (cyl_nat c) = cylinder c"
    unfolding cyl_nat_def of_nat_add of_nat_mult of_nat_numeral by (simp only: mult_zero_right) simp
  moreover have "word_of_nat (?H div 16 * 16 + ?H mod 16) = head c"
    "word_of_nat (?S - 1 + 1) = sector c"
    using v(2) unfolding div_mult_mod_eq le_add_diff_inverse2 [OF v(2)] by simp_all
  ultimately show ?thesis
    unfolding chs_of_block_def Let_def n chs_roundtrip_nat [OF v(1, 3)] c by simp
qed


lemma eckd_valid_address_True:
  "eckd_valid_address p s = Some (Ret True, t) \<longleftrightarrow> chs_valid s (chs p) \<and> t = s \<and>
     (virtio_guessed_disk_nature s = GDN_NONE \<longrightarrow>
        (\<exists>n. virtio_get_blocks s = Some (Ret n, s) \<and> eckd_block_num (chs p) s < n))"
proof -
  have st: "u = s" if "virtio_get_blocks s = Some (r, u)" for r u
    using that by (auto simp: virtio_get_blocks_def Let_def split: if_splits)
  show ?thesis
    unfolding eckd_valid_address_def chs_valid_def
    by (auto simp: bnd_eq_Ret ret_def gets_def not_less not_le word_gt_0 dest: st split: if_splits)
qed

interpretation chs_code: coding "\<lambda>c. eckd_block_num c s"
  "chs_of_block (unat (virtio_get_heads s)) (unat (virtio_get_sectors s))" "chs_valid s" for s :: "'d machine"
  by unfold_locales (rule eckd_block_num_inverse)

text \<open>
  C20: an address that \<open>eckd_valid_address\<close> accepts can be read off its block number, which is
  $(C \cdot heads + H) \cdot sectors + S - 1$ with the cylinder's 28 bits, without wrap-around; so
  two accepted addresses have the same number only if they are the same.
\<close>

theorem eckd_address_roundtrip:
  assumes "eckd_valid_address p s = Some (Ret True, t)"
  shows "chs_of_block (unat (virtio_get_heads s)) (unat (virtio_get_sectors s)) (eckd_block_num (chs p) s) = chs p \<and>
    unat (eckd_block_num (chs p) s) =
      (cyl_nat (chs p) * unat (virtio_get_heads s) + unat (head (chs p)) mod 16) * unat (virtio_get_sectors s)
      + unat (sector (chs p)) - 1 \<and>
    (eckd_valid_address q s = Some (Ret True, s) \<longrightarrow>
       (eckd_block_num (chs p) s = eckd_block_num (chs q) s \<longleftrightarrow> chs p = chs q))"
  using assms by (auto simp: eckd_valid_address_True chs_code.dec_enc chs_code.enc_inject eckd_block_num_nat chs_valid_nat)

definition dasd :: "nat machine" where
  "dasd = (blank 0)\<lparr>bufs := (\<lambda>b. replicate (buf_size b) 0)(VSenseId := [0, 0x38, 0x32, 2], VConfig := replicate 18 0 @ [15, 12] @ replicate 16 0),
     vd := blank_vdev\<lparr>guessed_disk_nature := GDN_DASD\<rparr>\<rparr>"

definition a_track :: eckd_block_ptr where
  "a_track = \<lparr>chs = \<lparr>cylinder = 1, head = 0x12, sector = 3\<rparr>, bp_size = 4096, bp_count = 0\<rparr>"

theorem eckd_address_roundtrip_witness:
  "eckd_valid_address a_track dasd = Some (Ret True, dasd) \<and> unat (eckd_block_num (chs a_track) dasd) = 11796686 \<and>
   chs_of_block 15 12 (eckd_block_num (chs a_track) dasd) = chs a_track"
proof -
  have v: "eckd_valid_address a_track dasd = Some (Ret True, dasd)"
    unfolding eckd_valid_address_True
    by (simp add: chs_valid_nat a_track_def dasd_def virtio_get_heads_def virtio_get_sectors_def cu_model_def
      blk_heads_def blk_sectors_def nth_append VIRTIO_ID_BLOCK_def virtio_guessed_disk_nature_def)
  have g: "virtio_get_heads dasd = 15" "virtio_get_sectors dasd = 12"
    by (simp_all add: dasd_def virtio_get_heads_def virtio_get_sectors_def cu_model_def
      blk_heads_def blk_sectors_def nth_append VIRTIO_ID_BLOCK_def)
  show ?thesis using eckd_address_roundtrip [OF v, of a_track] v by (simp add: g a_track_def cyl_nat_def)
qed

end
