(* ===== verification/ZiplScsi.thy ===== *)
theory ZiplScsi
  imports Eckd
begin

text \<open>
  Booting a disk prepared by zipl for SCSI (second part of \<open>bootmap.c\<close>): the program table
  in block 0, the component table of a program, and the segments of a component. A
  \<open>ScsiBlockPtr\<close> has 16 bytes, \<open>blockno\<close> at 0 and \<open>blockct\<close> at 10; a component entry
  has 32 bytes, \<open>data.blockno\<close> at 0, \<open>component_type\<close> at 23 and \<open>compdat\<close> at 24.
\<close>

definition ZIPL_COMP_HEADER_IPL :: u8 where
  "ZIPL_COMP_HEADER_IPL = 0"
definition ZIPL_COMP_ENTRY_EXEC :: u8 where
  "ZIPL_COMP_ENTRY_EXEC = 1"
definition ZIPL_COMP_ENTRY_LOAD :: u8 where
  "ZIPL_COMP_ENTRY_LOAD = 2"
definition ZIPL_COMP_ENTRY_SIGNATURE :: u8 where
  "ZIPL_COMP_ENTRY_SIGNATURE = 3"

section \<open>Segments\<close>

abbreviation (input) max_entries :: nat where
  "max_entries \<equiv> 256"

definition bprs_err_msg :: "u64 \<Rightarrow> u8 list" where
  "bprs_err_msg blockno =
     fill_hex_val 30 (to_be 8 blockno) (lit ''zIPL failed to read BPRS at 0xZZZZZZZZZZZZZZZZ'')"

text \<open>
  The inner loop of \<open>zipl_load_segment\<close> from entry \<open>i\<close> on; the result is the block number
  at which it ends and the address.
\<close>

partial_function (option) bprs_loop :: "'d hw \<Rightarrow> nat \<Rightarrow> u64 \<Rightarrow> ('d, u64 \<times> u64) fw" where
  "bprs_loop hw i address s =
     bnd (load (Buf Sec (16 * i)) 16) (\<lambda>d.
       if (be (slice 0 8 d) :: u64) = 0 then ret (0, address)
       else if i = max_entries - 1 then ret (be (slice 0 8 d), address)
       else
         bnd (load (Buf Sec (16 * (i + 1))) 16) (\<lambda>next.
         if (be (slice 10 2 d) :: u16) = 0 \<and> unused_space next then ret (be (slice 0 8 d), address)
         else
           bnd (virtio_load_direct hw (be (slice 0 8 d)) (be (slice 8 8 d)) address) (\<lambda>address'.
           seq (IPL_assert hw (address' \<noteq> -1) (lit ''zIPL load segment failed''))
           (\<lambda>s. bprs_loop hw (i + 1) address' s)))) s"

partial_function (option) zipl_segment_loop :: "'d hw \<Rightarrow> u64 \<Rightarrow> u64 \<Rightarrow> ('d, unit) fw" where
  "zipl_segment_loop hw blockno address s =
     seq fill_sec
    (seq (read_block hw blockno (Buf Sec 0) (bprs_err_msg blockno))
    (bnd (\<lambda>s. bprs_loop hw 0 address s) (\<lambda>x.
       if fst x = 0 then ret () else (\<lambda>s. zipl_segment_loop hw (fst x) (snd x) s)))) s"

text \<open>For the component entry at \<open>entry\<close> of \<open>tmp_sec\<close>.\<close>

definition zipl_load_segment :: "'d hw \<Rightarrow> nat \<Rightarrow> ('d, unit) fw" where
  "zipl_load_segment hw entry =
     bnd (load_u64 (Buf TmpSec entry)) (\<lambda>blockno.
     bnd (load_u64 (Buf TmpSec (entry + 24))) (\<lambda>address.
     \<lambda>s. zipl_segment_loop hw blockno address s))"

section \<open>Programs\<close>

text \<open>
  The loop over the component entries; the result is the offset of the entry that ends it.
  A signature entry is skipped without the check that the next one lies in the sector.
\<close>

partial_function (option) component_loop :: "'d hw \<Rightarrow> nat \<Rightarrow> ('d, nat) fw" where
  "component_loop hw entry s =
     bnd (load_u8 (Buf TmpSec (entry + offset ComponentEntry [Fld ''component_type'']))) (\<lambda>t.
       if t = ZIPL_COMP_ENTRY_SIGNATURE then (\<lambda>s. component_loop hw (entry + sizeof ComponentEntry) s)
       else if t = ZIPL_COMP_ENTRY_LOAD
       then seq (zipl_load_segment hw entry)
           (seq (IPL_assert hw (entry + 2 * sizeof ComponentEntry \<le> 4096) (lit ''Wrong entry value''))
           (\<lambda>s. component_loop hw (entry + sizeof ComponentEntry) s))
       else ret entry) s"

text \<open>The local array \<open>tmp_sec\<close> holds whatever the stack held before block \<open>blockno\<close> is read.\<close>

definition zipl_run :: "'d hw \<Rightarrow> u64 \<Rightarrow> ('d, unit) fw" where
  "zipl_run hw blockno =
     seq (store (Buf TmpSec 0) (overlay (junk hw 4096) (replicate 4096 0)))
    (seq (read_block hw blockno (Buf TmpSec 0) (lit ''Cannot read header''))
    (bnd (magic_at (Buf TmpSec 0) ZIPL_MAGIC) (\<lambda>magic.
     seq (IPL_assert hw magic (lit ''No zIPL magic in header''))
    (bnd (load_u8 (Buf TmpSec (offset ComponentHeader [Fld ''type'']))) (\<lambda>header_type.
     seq (IPL_assert hw (header_type = ZIPL_COMP_HEADER_IPL) (lit ''Bad header type''))
    (bnd (\<lambda>s. component_loop hw (sizeof ComponentHeader) s) (\<lambda>entry.
     bnd (load_u8 (Buf TmpSec (entry + offset ComponentEntry [Fld ''component_type'']))) (\<lambda>t.
     seq (IPL_assert hw (t = ZIPL_COMP_ENTRY_EXEC) (lit ''No EXEC entry''))
    (bnd (load_u64 (Buf TmpSec (entry + offset ComponentEntry [Fld ''compdat'', Fld ''load_psw'']))) (\<lambda>psw.
     seq (write_reset_psw psw) (jump_to_IPL_code hw 0)))))))))))"

section \<open>The program table\<close>

text \<open>The entries in use.\<close>

definition table_entries :: "u8 list \<Rightarrow> bool list" where
  "table_entries sec = map (\<lambda>i. (be (slice (offset BootMapTable [Fld ''entry'', Idx i, Fld ''scsi'', Fld ''blockno'']) 8 sec) :: u64) \<noteq> 0) [0..<MAX_BOOT_ENTRIES]"

definition ipl_scsi :: "'d hw \<Rightarrow> ('d, unit) fw" where
  "ipl_scsi hw =
     bnd (gets get_loadparm_index) (\<lambda>loadparm0.
     seq fill_sec
    (seq (read_block hw 0 (Buf Sec 0) (lit ''Cannot read block 0''))
    (bnd (magic_at (Buf Sec 0) ZIPL_MAGIC) (\<lambda>magic.
     if \<not> magic then ret ()
     else
     seq (sclp_print hw (lit ''Using SCSI scheme.'' @ [10]))
    (bnd (load_u32 (Buf Sec (offset ScsiMbr [Fld ''version_id'']))) (\<lambda>version_id.
     seq (IPL_check hw (version_id = 1) (lit ''Unknown MBR layout version, assuming version 1''))
    (bnd (load_u64 (Buf Sec (offset ScsiMbr [Fld ''pt'', Fld ''blockno'']))) (\<lambda>pt.
     seq (IPL_assert hw (pt \<noteq> 0) (lit ''No Program Table''))
    (seq (read_block hw pt (Buf Sec 0) (lit ''Error reading Program Table''))
    (bnd (magic_at (Buf Sec 0) ZIPL_MAGIC) (\<lambda>magic.
     seq (IPL_assert hw magic (lit ''No zIPL magic in PT''))
    (bnd (load (Buf Sec 0) 512) (\<lambda>table.
     let valid_entries = table_entries table in
     seq (IPL_assert hw (True \<in> set valid_entries) (lit ''Empty Program Table''))
    (bnd (gets menu_is_enabled_enum) (\<lambda>menu.
     bnd (if menu then menu_get_enum_boot_index hw valid_entries else ret loadparm0) (\<lambda>loadparm.
     seq (IPL_assert hw (unat loadparm < MAX_BOOT_ENTRIES)
            (lit ''loadparm value greater than maximum number of boot entries allowed''))
    (bnd (load_u64 (Buf Sec (offset BootMapTable [Fld ''entry'', Idx (unat loadparm), Fld ''scsi'', Fld ''blockno'']))) (\<lambda>blockno.
     zipl_run hw blockno))))))))))))))))))"

section \<open>Outcomes\<close>

context exit_contract begin

lemma bprs_loop_outcome [outcome]: "outcome_ok X (bprs_loop hw i address)"
proof (rule outcome_ok_loopI)
  fix s y
  assume "bprs_loop hw i address s = Some y"
  then show "outcome_at X s y"
  proof (rule bprs_loop.raw_induct [rotated, of _ _ _ _ _ "\<lambda>hw i address. outcome_at X"], goal_cases)
    case (1 rec hw i address s y)
    have rec: "outcome_ok X (rec hw i address)" for hw i address by (rule outcome_ok_loopI) (rule 1(1))
    show ?case using 1(2) by (rule outcome_bnd_at) (intro outcome rec)+
  qed
qed

lemma zipl_segment_loop_outcome [outcome]: "outcome_ok X (zipl_segment_loop hw blk address)"
proof (rule outcome_ok_loopI)
  fix s y
  assume "zipl_segment_loop hw blk address s = Some y"
  then show "outcome_at X s y"
  proof (rule zipl_segment_loop.raw_induct [rotated, of _ _ _ _ _ "\<lambda>hw blk address. outcome_at X"], goal_cases)
    case (1 rec hw blk address s y)
    have rec: "outcome_ok X (rec hw blk address)" for hw blk address by (rule outcome_ok_loopI) (rule 1(1))
    show ?case using 1(2) by (rule outcome_bnd_at) (intro outcome rec)+
  qed
qed

lemma zipl_load_segment_outcome [outcome]: "outcome_ok X (zipl_load_segment hw i)"
  unfolding zipl_load_segment_def by (intro outcome)

lemma component_loop_outcome [outcome]: "outcome_ok X (component_loop hw i)"
proof (rule outcome_ok_loopI)
  fix s y
  assume "component_loop hw i s = Some y"
  then show "outcome_at X s y"
  proof (rule component_loop.raw_induct [rotated, of _ _ _ _ "\<lambda>hw i. outcome_at X"], goal_cases)
    case (1 rec hw i s y)
    have rec: "outcome_ok X (rec hw i)" for hw i by (rule outcome_ok_loopI) (rule 1(1))
    show ?case using 1(2) by (rule outcome_bnd_at) (intro outcome rec)+
  qed
qed

end

context boot_contract begin

lemma ipl_scsi_outcome [outcome]: "outcome_ok X (zipl_run hw blk)" "outcome_ok X (ipl_scsi hw)"
  unfolding ipl_scsi_def zipl_run_def by (intro outcome)+

end

end
