(* ===== verification/Sections.thy ===== *)
theory Sections
  imports Eckd
begin

text \<open>
  Loading a section of a boot map, for any device that keeps the contract \<open>block_source\<close>: what
  a section says, that \<open>load_eckd_segments\<close> loads it, and that a section without an end is
  never left.
\<close>

section \<open>Boot map sections\<close>

text \<open>
  What a section of a boot map says. Its first block holds block pointers, \<open>page\<close> with the
  filler the buffer had behind them; the pointers lead to the extents to be loaded until one
  has no block number or the buffer ends; a pointer to a single block that nothing follows
  leads to the next block of pointers. \<open>s\<close> gives the geometry.
\<close>

definition filled :: "nat \<Rightarrow> (u64 \<Rightarrow> nat \<Rightarrow> u8 list) \<Rightarrow> s32 \<Rightarrow> u64 \<Rightarrow> u8 list" where
  "filled m content bs blk = content blk (unat bs) @ replicate (m - unat bs) FREE_SPACE_FILLER"

abbreviation page :: "(u64 \<Rightarrow> nat \<Rightarrow> u8 list) \<Rightarrow> s32 \<Rightarrow> u64 \<Rightarrow> u8 list" where
  "page content bs blk \<equiv> filled 8192 content bs blk"

definition pointer_at :: "u8 list \<Rightarrow> nat \<Rightarrow> eckd_block_ptr" where
  "pointer_at pg j = block_ptr_of (slice (16 * j) 8 pg)"

definition good_pointer :: "s32 \<Rightarrow> 'd machine \<Rightarrow> eckd_block_ptr \<Rightarrow> bool" where
  "good_pointer bs s p \<longleftrightarrow> ucast (bp_size p) = bs \<and> eckd_valid_address p s = Some (Ret True, s)"

definition leads_on :: "u8 list \<Rightarrow> nat \<Rightarrow> bool" where
  "leads_on pg j \<longleftrightarrow> bp_count (pointer_at pg j) = 0 \<and> unused_space (slice (16 * (j + 1)) 8 pg)"

inductive section_of :: "(u64 \<Rightarrow> nat \<Rightarrow> u8 list) \<Rightarrow> s32 \<Rightarrow> nat \<Rightarrow> 'd machine \<Rightarrow> u64 \<Rightarrow> nat \<Rightarrow> (u64 \<times> nat) list \<Rightarrow> u64 \<Rightarrow> bool"
  for content bs limit s where
  section_null: "block = eckd_block_num (chs (pointer_at (page content bs blk) j)) s \<Longrightarrow> j < max_bprs_entries \<Longrightarrow>
     is_null_block_number block \<Longrightarrow> section_of content bs limit s blk j [] block"
| section_full: "block = eckd_block_num (chs (pointer_at (page content bs blk) j)) s \<Longrightarrow> j = max_bprs_entries - 1 \<Longrightarrow>
     section_of content bs limit s blk j [] block"
| section_extent: "p = pointer_at (page content bs blk) j \<Longrightarrow> block = eckd_block_num (chs p) s \<Longrightarrow>
     j < max_bprs_entries - 1 \<Longrightarrow> \<not> is_null_block_number block \<Longrightarrow> good_pointer bs s p \<Longrightarrow>
     unat block + (unat (bp_count p) + 1) \<le> limit \<Longrightarrow> \<not> leads_on (page content bs blk) j \<Longrightarrow> section_of content bs limit s blk (j + 1) xs e \<Longrightarrow>
     section_of content bs limit s blk j ((block, unat (bp_count p) + 1) # xs) e"
| section_next: "p = pointer_at (page content bs blk) j \<Longrightarrow> block = eckd_block_num (chs p) s \<Longrightarrow>
     j < max_bprs_entries - 1 \<Longrightarrow> \<not> is_null_block_number block \<Longrightarrow> good_pointer bs s p \<Longrightarrow>
     unat block + 1 \<le> limit \<Longrightarrow> leads_on (page content bs blk) j \<Longrightarrow> section_of content bs limit s block 0 xs e \<Longrightarrow>
     section_of content bs limit s blk j xs e"

fun loaded :: "(u64 \<Rightarrow> nat \<Rightarrow> u8 list) \<Rightarrow> nat \<Rightarrow> (u64 \<times> nat) list \<Rightarrow> u64 \<Rightarrow> (u64 \<Rightarrow> u8) \<Rightarrow> (u64 \<Rightarrow> u8)" where
  "loaded content n [] a m = m"
| "loaded content n ((block, k) # xs) a m =
     loaded content n xs (a + word_of_nat (k * n)) (mem_put a (content block (k * n)) m)"

definition extents_size :: "nat \<Rightarrow> (u64 \<times> nat) list \<Rightarrow> nat" where
  "extents_size n xs = sum_list (map (\<lambda>(b, k). k * n) xs)"

text \<open>The geometry is untouched as long as the device's configuration is.\<close>

definition same_disk :: "'d machine \<Rightarrow> 'd machine \<Rightarrow> bool" where
  "same_disk s t \<longleftrightarrow> bufs t VConfig = bufs s VConfig \<and> bufs t VSenseId = bufs s VSenseId \<and> vd t = vd s"

lemma same_disk_refl: "same_disk s s"
  by (simp add: same_disk_def)

lemma same_disk_trans: "same_disk s t \<Longrightarrow> same_disk t u \<Longrightarrow> same_disk s u"
  by (simp add: same_disk_def)

lemma same_disk_put: "\<not> config_ptr p \<Longrightarrow> same_disk s (put p x s)"
  by (cases p) (auto simp: same_disk_def)

lemma same_disk_io: "same_disk s (t\<lparr>io := j\<rparr>) \<longleftrightarrow> same_disk s t"
  by (simp add: same_disk_def)

lemma same_disk_geometry:
  assumes "same_disk s t"
  shows "virtio_get_heads t = virtio_get_heads s" "virtio_get_sectors t = virtio_get_sectors s"
    "virtio_guessed_disk_nature t = virtio_guessed_disk_nature s" "eckd_block_num c t = eckd_block_num c s"
  using assms
  by (simp_all add: same_disk_def virtio_get_heads_def virtio_get_sectors_def cu_model_def blk_heads_def blk_sectors_def
    virtio_guessed_disk_nature_def eckd_block_num_def)

lemma same_disk_valid:
  assumes "same_disk s t" "eckd_valid_address p s = Some (Ret True, s)"
  shows "eckd_valid_address p t = Some (Ret True, t)"
proof -
  have "virtio_get_blocks t = Some (Ret n, t)" if "virtio_get_blocks s = Some (Ret n, s)" for n
    using that assms(1) by (auto simp: same_disk_def virtio_get_blocks_def Let_def virtio_get_block_size_def cu_model_def
      blk_physical_block_exp_def blk_blk_size_def blk_capacity_def split: if_splits)
  then show ?thesis
    using assms by (auto simp: eckd_valid_address_True chs_valid_def same_disk_geometry [OF assms(1)])
qed


text \<open>The bytes of a pointer's extent do not overflow.\<close>

lemma extent_bytes:
  fixes bs :: s32 and c :: u8
  assumes "unat bs \<le> 8192"
  shows "unat (ucast c + 1 :: s32) = unat c + 1" "(unat c + 1) * unat bs < 2 ^ 31"
    "int_to_u64 ((ucast c + 1) * bs) = word_of_nat ((unat c + 1) * unat bs)"
proof -
  have c: "unat c < 256" using unsigned_less [of c, where ?'a = nat] by simp
  then show u: "unat (ucast c + 1 :: s32) = unat c + 1"
    by (simp add: unat_word_ariths unsigned_ucast_eq take_bit_nat_eq_self)
  have "(unat c + 1) * unat bs \<le> 256 * 8192" using c assms by (intro mult_mono) simp_all
  then show less: "(unat c + 1) * unat bs < 2 ^ 31" by simp
  let ?w = "(ucast c + 1) * bs"
  have w: "unat ?w = (unat c + 1) * unat bs" using u less by (simp add: unat_word_ariths)
  with less have "unat ?w < 2 ^ 31" by simp
  from scast_small [OF this] show "int_to_u64 ?w = word_of_nat ((unat c + 1) * unat bs)" unfolding w .
qed

context block_source begin

lemma read_many_ok:
  assumes "ok s" "\<not> config_ptr p" "room p len s" "0 < unat n" "len = unat bs * unat n" "len < 2 ^ 31"
    "unat b + unat n \<le> limit"
  obtains t where "virtio_read_many hw b p n s = Some (Ret 0, t)" "ok t" "same_disk s t"
    "mem t = mem (put p (content b len) s)" "bufs t = bufs (put p (content b len) s)"
proof -
  obtain t where t: "virtio_read_many hw b p n s = Some (Ret 0, t)" "ok t" "t\<lparr>io := io s\<rparr> = put p (content b len) s"
    using read [OF assms] by blast
  from t(3) have "mem t = mem (put p (content b len) s)" "bufs t = bufs (put p (content b len) s)"
    by (metis machine.select_convs(1) machine.surjective machine.update_convs(14), metis machine.select_convs(2) machine.surjective machine.update_convs(14))
  moreover have "same_disk s t" using same_disk_put [OF assms(2), of s "content b len"] t(3) same_disk_io by metis
  ultimately show ?thesis using t that by blast
qed

lemma read_filled:
  assumes "ok s" "length (bufs s b) = m" "b \<noteq> VConfig" "b \<noteq> VSenseId" "unat bs \<le> m" "m < 2 ^ 31" "unat blk + 1 \<le> limit"
  obtains t where "seq (memset (Buf b 0) FREE_SPACE_FILLER m) (read_block hw blk (Buf b 0) msg) s = Some (Ret (), t)" "ok t"
    "same_disk s t" "mem t = mem s" "bufs t b = filled m content bs blk" "\<forall>c. c \<noteq> b \<longrightarrow> bufs t c = bufs s c"
proof -
  let ?s = "put (Buf b 0) (replicate m FREE_SPACE_FILLER) s"
  have o: "ok ?s" using assms by (intro put_ok) simp_all
  have r: "room (Buf b 0) (unat bs) ?s" using assms by simp
  obtain t where t: "virtio_read_many hw blk (Buf b 0) 1 ?s = Some (Ret 0, t)" "ok t" "same_disk ?s t"
    "mem t = mem (put (Buf b 0) (content blk (unat bs)) ?s)" "bufs t = bufs (put (Buf b 0) (content blk (unat bs)) ?s)"
    using read_many_ok [OF o _ r, of 1 blk] assms(3-7) by auto
  have "seq (memset (Buf b 0) FREE_SPACE_FILLER m) (read_block hw blk (Buf b 0) msg) s = Some (Ret (), t)"
    using assms(2) t(1) by (simp add: bnd_def memset_def read_block_def virtio_read_def IPL_assert_def ret_def)
  moreover have "bufs t b = filled m content bs blk"
    using t(5) assms(2, 5) length_content [of blk "unat bs"] by (simp add: filled_def splice_def)
  moreover have "same_disk s t"
    using t(3) same_disk_put [of "Buf b 0"] same_disk_trans assms(3, 4) by fastforce
  ultimately show ?thesis using that t by simp
qed

lemma read_page:
  assumes "ok s" "length (bufs s Bprs) = 8192" "unat bs \<le> 8192" "unat b + 1 \<le> limit"
  obtains t where "seq fill_bprs (read_block hw b (Buf Bprs 0) msg) s = Some (Ret (), t)" "ok t" "same_disk s t"
    "mem t = mem s" "bufs t Bprs = page content bs b" "\<forall>c. c \<noteq> Bprs \<longrightarrow> bufs t c = bufs s c"
  using read_filled [OF assms(1, 2) _ _ assms(3) _ assms(4), of msg] unfolding fill_bprs_def by auto

lemma load_pointer:
  assumes "bufs t Bprs = page content bs blk" "unat bs \<le> 8192" "j < 512"
  shows "load (Buf Bprs (16 * j)) 8 t = Some (Ret (slice (16 * j) 8 (page content bs blk)), t)"
  using assms length_content [of blk "unat bs"] by (simp add: filled_def)

lemma segments_step_extent:
  assumes "bufs t Bprs = page content bs blk" "unat bs \<le> 8192" "j < max_bprs_entries - 1"
    and "p = pointer_at (page content bs blk) j" "eckd_block_num (chs p) t = block" "\<not> is_null_block_number block"
    and "ucast (bp_size p) = bs" "ok t" "eckd_valid_address p t = Some (Ret True, t)"
    and "\<not> leads_on (page content bs blk) j"
    and "virtio_read_many hw block (Phys a) (ucast (bp_count p) + 1) t = Some (Ret 0, t')" "ok t'"
  shows "segments_loop hw j a t = segments_loop hw (j + 1) (a + int_to_u64 ((ucast (bp_count p) + 1) * bs)) t'"
  using assms load_pointer [OF assms(1, 2), of j] load_pointer [OF assms(1, 2), of "j + 1"]
    block_size [OF assms(8)] block_size [OF assms(12)]
  by (subst segments_loop.simps, simp add: bnd_Ret pointer_at_def leads_on_def block_size_ok_def) blast

lemma segments_step_next:
  assumes "bufs t Bprs = page content bs blk" "unat bs \<le> 8192" "j < max_bprs_entries - 1"
    and "p = pointer_at (page content bs blk) j" "eckd_block_num (chs p) t = block" "\<not> is_null_block_number block"
    and "ucast (bp_size p) = bs" "ok t" "eckd_valid_address p t = Some (Ret True, t)"
    and "leads_on (page content bs blk) j"
    and "seq fill_bprs (read_block hw block (Buf Bprs 0) (lit ''BPRS continuation read failed'')) t = Some (Ret (), t')"
  shows "segments_loop hw j a t = segments_loop hw 0 a t'"
proof -
  have "segments_loop hw j a t =
      bnd (seq fill_bprs (read_block hw block (Buf Bprs 0) (lit ''BPRS continuation read failed''))) (\<lambda>_ s. segments_loop hw 0 a s) t"
    using assms load_pointer [OF assms(1, 2), of j] load_pointer [OF assms(1, 2), of "j + 1"]
      block_size [OF assms(8)]
    by (subst segments_loop.simps) (simp add: bnd_Ret pointer_at_def leads_on_def block_size_ok_def bnd_assoc)
  then show ?thesis using assms(11) by (simp add: bnd_Ret)
qed

lemma segments_loop_loads:
  assumes "section_of content bs limit s blk j xs e" "unat bs \<le> 8192"
  shows "ok t \<Longrightarrow> same_disk s t \<Longrightarrow> bufs t Bprs = page content bs blk \<Longrightarrow>
    \<exists>u. segments_loop hw j a t = Some (Ret (e, a + word_of_nat (extents_size (unat bs) xs)), u) \<and>
      ok u \<and> same_disk s u \<and> mem u = loaded content (unat bs) xs a (mem t) \<and> (\<forall>c. c \<noteq> Bprs \<longrightarrow> bufs u c = bufs t c)"
  using assms(1)
proof (induction arbitrary: t a)
  case (section_null block blk j)
  then show ?case
    using load_pointer [OF section_null.prems(3) assms(2)] same_disk_geometry(4) [OF section_null.prems(2)]
    by (subst segments_loop.simps) (simp add: bnd_Ret ret_def extents_size_def pointer_at_def)
next
  case (section_full block blk j)
  then show ?case
    using load_pointer [OF section_full.prems(3) assms(2), of j] same_disk_geometry(4) [OF section_full.prems(2)]
    by (subst segments_loop.simps) (simp add: bnd_Ret ret_def extents_size_def pointer_at_def)
next
  case (section_extent p blk j block xs e)
  let ?k = "unat (bp_count p) + 1"
  obtain t' where t': "virtio_read_many hw block (Phys a) (ucast (bp_count p) + 1) t = Some (Ret 0, t')" "ok t'" "same_disk t t'"
    "mem t' = mem_put a (content block (?k * unat bs)) (mem t)" "bufs t' = bufs t"
    using read_many_ok [OF section_extent.prems(1), of "Phys a" "?k * unat bs" "ucast (bp_count p) + 1" block]
      extent_bytes(1, 2) [OF assms(2), of "bp_count p"] section_extent.hyps(6) by auto
  have step: "segments_loop hw j a t = segments_loop hw (j + 1) (a + word_of_nat (?k * unat bs)) t'"
    unfolding extent_bytes(3) [OF assms(2), symmetric]
    using section_extent t'(1, 2) assms(2) same_disk_geometry(4) [OF section_extent.prems(2)] same_disk_valid [OF section_extent.prems(2)]
    by (intro segments_step_extent) (auto simp: good_pointer_def)
  have "same_disk s t'" using section_extent.prems(2) t'(3) by (rule same_disk_trans)
  then obtain u where u: "segments_loop hw (j + 1) (a + word_of_nat (?k * unat bs)) t' =
      Some (Ret (e, a + word_of_nat (?k * unat bs) + word_of_nat (extents_size (unat bs) xs)), u)" "ok u" "same_disk s u"
      "mem u = loaded content (unat bs) xs (a + word_of_nat (?k * unat bs)) (mem t')" "\<forall>c. c \<noteq> Bprs \<longrightarrow> bufs u c = bufs t' c"
    using section_extent.IH [OF t'(2)] t'(5) section_extent.prems(3) by metis
  then show ?case unfolding step by (simp add: extents_size_def t'(4, 5) add.assoc)
next
  case (section_next p blk j block xs e)
  have "length (bufs t Bprs) = 8192" using section_next.prems(3) assms(2) length_content [of blk "unat bs"] by (simp add: filled_def)
  then obtain t' where t': "seq fill_bprs (read_block hw block (Buf Bprs 0) (lit ''BPRS continuation read failed'')) t = Some (Ret (), t')"
    "ok t'" "same_disk t t'" "mem t' = mem t" "bufs t' Bprs = page content bs block" "\<forall>c. c \<noteq> Bprs \<longrightarrow> bufs t' c = bufs t c"
    using read_page [OF section_next.prems(1) _ assms(2) section_next.hyps(6)] by metis
  have "segments_loop hw j a t = segments_loop hw 0 a t'"
    using section_next t'(1) assms(2) same_disk_geometry(4) [OF section_next.prems(2)] same_disk_valid [OF section_next.prems(2)]
    by (intro segments_step_next) (auto simp: good_pointer_def)
  then show ?case
    using section_next.IH [OF t'(2) same_disk_trans [OF section_next.prems(2) t'(3)] t'(5)] t'(4, 6) by simp
qed

lemma load_segments:
  assumes "ok s" "length (bufs s Bprs) = 8192" "unat bs \<le> 8192" "unat blk + 1 \<le> limit" "section_of content bs limit s blk 0 xs e"
  shows "\<exists>t. load_eckd_segments hw blk a s = Some (Ret (e, a + word_of_nat (extents_size (unat bs) xs)), t) \<and>
    ok t \<and> same_disk s t \<and> mem t = loaded content (unat bs) xs a (mem s) \<and> (\<forall>c. c \<noteq> Bprs \<longrightarrow> bufs t c = bufs s c)"
proof -
  obtain t where t: "seq fill_bprs (read_block hw blk (Buf Bprs 0) (lit ''BPRS read failed'')) s = Some (Ret (), t)"
    "ok t" "same_disk s t" "mem t = mem s" "bufs t Bprs = page content bs blk" "\<forall>c. c \<noteq> Bprs \<longrightarrow> bufs t c = bufs s c"
    using read_page [OF assms(1-4)] by metis
  have "load_eckd_segments hw blk a s =
      bnd (seq fill_bprs (read_block hw blk (Buf Bprs 0) (lit ''BPRS read failed''))) (\<lambda>_ s. segments_loop hw 0 a s) s"
    by (simp add: load_eckd_segments_def bnd_assoc)
  also have "\<dots> = segments_loop hw 0 a t" using t(1) by (simp add: bnd_Ret)
  finally show ?thesis using segments_loop_loads [OF assms(5, 3) t(2, 3, 5)] t(4, 6) by simp
qed

lemma segments_loop_cycles:
  assumes "p = pointer_at (page content bs blk) 0" "eckd_block_num (chs p) s = blk" "\<not> is_null_block_number blk"
    and "good_pointer bs s p" "leads_on (page content bs blk) 0" "unat bs \<le> 8192" "unat blk + 1 \<le> limit"
  shows "ok t \<Longrightarrow> same_disk s t \<Longrightarrow> bufs t Bprs = page content bs blk \<Longrightarrow> segments_loop hw 0 a t \<noteq> Some y"
proof
  assume "ok t" "same_disk s t" "bufs t Bprs = page content bs blk" "segments_loop hw 0 a t = Some y"
  moreover have "segments_loop hw' j a t = Some y \<Longrightarrow>
      hw' = hw \<and> j = 0 \<and> ok t \<and> same_disk s t \<and> bufs t Bprs = page content bs blk \<longrightarrow> False" for hw' j a t y
  proof (erule segments_loop.raw_induct [rotated, of _ _ _ _ _ "\<lambda>hw' j a t y. hw' = hw \<and> j = 0 \<and> ok t \<and> same_disk s t \<and> bufs t Bprs = page content bs blk \<longrightarrow> False"], goal_cases)
    case (1 f hw' j a t y)
    show ?case
    proof
      assume i: "hw' = hw \<and> j = 0 \<and> ok t \<and> same_disk s t \<and> bufs t Bprs = page content bs blk"
      have v: "eckd_valid_address p t = Some (Ret True, t)" "ucast (bp_size p) = bs" "eckd_block_num (chs p) t = blk"
        using assms(2, 4) i same_disk_valid same_disk_geometry(4) by (auto simp: good_pointer_def)
      have "length (bufs t Bprs) = 8192" using i assms(6) length_content [of blk "unat bs"] by (simp add: filled_def)
      then obtain t' where t': "seq fill_bprs (read_block hw blk (Buf Bprs 0) (lit ''BPRS continuation read failed'')) t = Some (Ret (), t')"
        "ok t'" "same_disk t t'" "bufs t' Bprs = page content bs blk"
        using read_page [of t blk] i assms(6, 7) by metis
      have "Some y = bnd (seq fill_bprs (read_block hw blk (Buf Bprs 0) (lit ''BPRS continuation read failed''))) (\<lambda>_ s. f hw 0 a s) t"
        using 1(2) i assms v load_pointer [of t blk 0] load_pointer [of t blk 1] block_size [of t]
        by (simp add: bnd_Ret pointer_at_def leads_on_def block_size_ok_def bnd_assoc)
      then have "f hw 0 a t' = Some y" using t'(1) by (simp add: bnd_Ret)
      then show False using 1(1) t' i same_disk_trans by blast
    qed
  qed
  ultimately show False by blast
qed

end


lemma loaded_outside:
  assumes "extents_size n xs \<le> unat (x - a)" "\<And>b k. length (content b k) = k"
  shows "loaded content n xs a m x = m x"
  using assms(1)
proof (induction xs arbitrary: a m)
  case (Cons e xs)
  obtain b k where e: "e = (b, k)" by (cases e)
  have l: "k * n + extents_size n xs \<le> unat (x - a)" using Cons.prems by (simp add: e extents_size_def)
  then have kn: "k * n \<le> unat (x - a)" by simp
  then have "unat (word_of_nat (k * n) :: u64) = k * n"
    using unsigned_less [of "x - a", where ?'a = nat] by (simp add: unat_of_nat take_bit_nat_eq_self del: of_nat_mult)
  then have "unat (x - (a + word_of_nat (k * n))) = unat (x - a) - k * n"
    using kn by (simp add: diff_diff_add [symmetric] unat_sub word_le_nat_alt del: of_nat_mult)
  then have "loaded content n xs (a + word_of_nat (k * n)) (mem_put a (content b (k * n)) m) x = mem_put a (content b (k * n)) m x"
    using l by (intro Cons.IH) simp
  also have "\<dots> = m x" using kn assms(2) by (simp add: mem_put_def)
  finally show ?case by (simp add: e)
qed simp

lemma loaded_bytes:
  assumes "extents_size n xs < 2 ^ 64" "\<And>b k. length (content b k) = k"
  shows "mem_get (loaded content n xs a m) a (extents_size n xs) = concat (map (\<lambda>(b, k). content b (k * n)) xs)"
  using assms(1)
proof (induction xs arbitrary: a m)
  case Nil
  then show ?case by (simp add: extents_size_def mem_get_def)
next
  case (Cons e xs)
  obtain b k where e: "e = (b, k)" by (cases e)
  let ?m = "mem_put a (content b (k * n)) m" and ?r = "extents_size n xs"
  have t: "extents_size n (e # xs) = k * n + ?r" by (simp add: e extents_size_def)
  have "mem_get (loaded content n xs (a + word_of_nat (k * n)) ?m) a (k * n) = mem_get ?m a (k * n)"
  proof (rule nth_equalityI)
    fix i
    assume "i < length (mem_get (loaded content n xs (a + word_of_nat (k * n)) ?m) a (k * n))"
    then have i: "i < k * n" by simp
    have "a + word_of_nat i - (a + word_of_nat (k * n)) = word_of_nat (2 ^ 64 - (k * n - i))"
      using i Cons.prems t by (simp add: of_nat_diff del: of_nat_mult)
    then have "unat (a + word_of_nat i - (a + word_of_nat (k * n))) = 2 ^ 64 - (k * n - i)"
      using i by (simp add: unat_of_nat take_bit_nat_eq_self del: of_nat_mult)
    then have "?r \<le> unat (a + word_of_nat i - (a + word_of_nat (k * n)))" using Cons.prems t i by simp
    then show "mem_get (loaded content n xs (a + word_of_nat (k * n)) ?m) a (k * n) ! i = mem_get ?m a (k * n) ! i"
      using i assms(2) by (simp add: loaded_outside del: of_nat_mult)
  qed simp
  also have "\<dots> = content b (k * n)"
    using mem_get_put_same [of "content b (k * n)" a m] assms(2) Cons.prems t by simp
  finally show ?case
    using Cons.IH [of "a + word_of_nat (k * n)" ?m] Cons.prems t by (simp add: e mem_get_add del: of_nat_mult)
qed


text \<open>
  C6: \<open>load_eckd_segments\<close> on a virtio-blk disk: it always ends on a section whose pointers
  lead to an end, and then the storage at the load address holds the extents of the section
  one after the other, and no other byte has changed.
\<close>

theorem load_eckd_segments_bytes:
  assumes "block_source hw ok bs limit content" "ok s" "unat bs \<le> 8192" "length (bufs s Bprs) = 8192"
    and "section_of content bs limit s blk 0 xs e" "unat blk < limit" "extents_size (unat bs) xs < 2 ^ 64"
  shows "\<exists>t. load_eckd_segments hw blk a s = Some (Ret (e, a + word_of_nat (extents_size (unat bs) xs)), t) \<and>
    mem_get (mem t) a (extents_size (unat bs) xs) = concat (map (\<lambda>(b, k). content b (k * unat bs)) xs) \<and>
    (\<forall>x. extents_size (unat bs) xs \<le> unat (x - a) \<longrightarrow> mem t x = mem s x) \<and> ok t \<and> same_disk s t"
proof -
  obtain t where t: "load_eckd_segments hw blk a s = Some (Ret (e, a + word_of_nat (extents_size (unat bs) xs)), t)"
    "ok t" "same_disk s t" "mem t = loaded content (unat bs) xs a (mem s)"
    using block_source.load_segments [OF assms(1, 2, 4, 3) _ assms(5)] assms(6) by auto
  note l = block_source.length_content [OF assms(1)]
  show ?thesis using t loaded_bytes [OF assms(7) l] loaded_outside [OF _ l] by auto
qed

lemma slice_page: "off + k \<le> unat bs \<Longrightarrow> slice off k (page (disk_content d bs) bs blk) =
    mem_get d (blk * int_to_u64 (s32_div bs VIRTIO_SECTOR_SIZE) * 512 + word_of_nat off) k"
  by (rule nth_equalityI) (simp_all add: filled_def disk_content_def nth_slice nth_append add.assoc)

lemma boot_section: "section_of (disk_content boot_disk 4096) 4096 (2 ^ 65) disk_machine 5 0 [(9, 1)] (- 1)"
proof -
  have b: "int_to_u64 (s32_div 4096 VIRTIO_SECTOR_SIZE) = 8" by (simp add: s32_div_def VIRTIO_SECTOR_SIZE_def)
  let ?pg = "page (disk_content boot_disk 4096) 4096 5"
  have p0: "slice 0 8 ?pg = [0, 0, 0, 0, 10, 16, 0, 0]" and p1: "slice 16 8 ?pg = [0, 0, 0, 0, 0, 0, 0, 0]"
    by (simp_all add: slice_page b boot_disk_def byte_simps)
  define q where "q = pointer_at ?pg 0"
  have q: "q = \<lparr>chs = \<lparr>cylinder = 0, head = 0, sector = 10\<rparr>, bp_size = 0x1000, bp_count = 0\<rparr>"
    unfolding q_def pointer_at_def mult_zero_right p0 by (simp add: block_ptr_of_def chs_of_def slice_def be_def)
  define r where "r = pointer_at ?pg 1"
  have z: "r = \<lparr>chs = \<lparr>cylinder = 0, head = 0, sector = 0\<rparr>, bp_size = 0, bp_count = 0\<rparr>"
    unfolding r_def pointer_at_def mult_1_right p1 by (simp add: block_ptr_of_def chs_of_def slice_def be_def)
  note g = disk_geometry
  have n: "eckd_block_num (chs q) disk_machine = 9" "eckd_block_num (chs r) disk_machine = - 1"
    by (simp_all add: q z eckd_block_num_def g chs_cylinder_def chs_head_def)
  have "eckd_valid_address q disk_machine = Some (Ret True, disk_machine)"
    using n(1) by (simp add: eckd_valid_address_True chs_valid_nat g q)
  then have good: "good_pointer 4096 disk_machine q" by (simp add: good_pointer_def q)
  have cq: "bp_count q = 0" by (simp add: q)
  have "\<not> leads_on ?pg 0" using p1 by (simp add: leads_on_def unused_space_def FREE_SPACE_FILLER_def)
  moreover have "section_of (disk_content boot_disk 4096) 4096 (2 ^ 65) disk_machine 5 1 [] (- 1)"
    using n(2) by (intro section_null) (simp_all add: r_def is_null_block_number_def)
  ultimately have "section_of (disk_content boot_disk 4096) 4096 (2 ^ 65) disk_machine 5 0 [(9, unat (bp_count q) + 1)] (- 1)"
    using good n(1) cq by (intro section_extent [where p = q]) (simp_all add: q_def is_null_block_number_def)
  then show ?thesis by (simp add: q)
qed

theorem load_eckd_segments_bytes_witness:
  "\<exists>t. load_eckd_segments (disk_hw boot_disk) 5 0x20000 disk_machine = Some (Ret (- 1, 0x21000), t) \<and>
     mem t 0x20000 = 42 \<and> mem t 0x20001 = 0"
proof -
  have h: "block_source (disk_hw boot_disk :: nat hw) (\<lambda>s. blk_ready s \<and> virtio_get_block_size s = 4096) 4096 (2 ^ 65)
      (disk_content boot_disk 4096)" by (rule disk_hw.blocks.block_source_axioms)
  obtain t where t: "load_eckd_segments (disk_hw boot_disk) 5 0x20000 disk_machine =
      Some (Ret (- 1, 0x20000 + word_of_nat (extents_size 4096 [(9, 1)])), t)"
    "mem_get (mem t) 0x20000 (extents_size 4096 [(9, 1)]) = disk_content boot_disk 4096 9 4096"
    using load_eckd_segments_bytes [OF h _ _ disk_machine_ready(3) boot_section, where a = "0x20000"] disk_machine_ready(1, 2)
    by (auto simp: extents_size_def)
  have "int_to_u64 (s32_div 4096 VIRTIO_SECTOR_SIZE) = 8" by (simp add: s32_div_def VIRTIO_SECTOR_SIZE_def)
  then have "mem t 0x20000 = boot_disk 0x9000" "mem t 0x20001 = boot_disk 0x9001"
    using arg_cong [OF t(2), of "\<lambda>xs. xs ! 0"] arg_cong [OF t(2), of "\<lambda>xs. xs ! 1"]
    by (simp_all add: extents_size_def disk_content_def)
  then show ?thesis using t(1) by (simp add: extents_size_def boot_disk_def)
qed

text \<open>
  C30: a block of pointers whose first entry leads on to the block itself makes the loader run
  for ever: nothing counts the blocks of a section.
\<close>

theorem load_eckd_segments_cycle:
  assumes "block_source hw ok bs limit content" "ok s" "unat bs \<le> 8192" "length (bufs s Bprs) = 8192" "unat blk < limit"
    and "p = pointer_at (page content bs blk) 0" "eckd_block_num (chs p) s = blk" "\<not> is_null_block_number blk"
    and "good_pointer bs s p" "leads_on (page content bs blk) 0"
  shows "load_eckd_segments hw blk a s = None"
proof -
  from assms(5) have l: "unat blk + 1 \<le> limit" by simp
  obtain t where t: "seq fill_bprs (read_block hw blk (Buf Bprs 0) (lit ''BPRS read failed'')) s = Some (Ret (), t)"
    "ok t" "same_disk s t" "bufs t Bprs = page content bs blk"
    using block_source.read_page [OF assms(1, 2, 4, 3) l] by metis
  have "segments_loop hw 0 a t \<noteq> Some y" for y
    using block_source.segments_loop_cycles [OF assms(1, 6-10, 3) l] t by blast
  moreover have "load_eckd_segments hw blk a s =
      bnd (seq fill_bprs (read_block hw blk (Buf Bprs 0) (lit ''BPRS read failed''))) (\<lambda>_ s. segments_loop hw 0 a s) s"
    by (simp add: load_eckd_segments_def bnd_assoc)
  ultimately show ?thesis using t(1) by (simp add: bnd_Ret) (metis not_None_eq)
qed

definition looping_disk :: "u64 \<Rightarrow> u8" where
  "looping_disk x = (if x = 0x5004 then 6 else if x = 0x5005 then 0x10
     else if 0x5010 \<le> x \<and> x < 0x5018 then FREE_SPACE_FILLER else 0)"

theorem load_eckd_segments_cycle_witness:
  "load_eckd_segments (disk_hw looping_disk) 5 0x20000 disk_machine = None"
proof -
  have h: "block_source (disk_hw looping_disk :: nat hw) (\<lambda>s. blk_ready s \<and> virtio_get_block_size s = 4096) 4096 (2 ^ 65)
      (disk_content looping_disk 4096)" by (rule disk_hw.blocks.block_source_axioms)
  have b: "int_to_u64 (s32_div 4096 VIRTIO_SECTOR_SIZE) = 8" by (simp add: s32_div_def VIRTIO_SECTOR_SIZE_def)
  let ?pg = "page (disk_content looping_disk 4096) 4096 5"
  have p0: "slice 0 8 ?pg = [0, 0, 0, 0, 6, 16, 0, 0]" and p1: "slice 16 8 ?pg = [FREE_SPACE_FILLER, FREE_SPACE_FILLER,
      FREE_SPACE_FILLER, FREE_SPACE_FILLER, FREE_SPACE_FILLER, FREE_SPACE_FILLER, FREE_SPACE_FILLER, FREE_SPACE_FILLER]"
    by (simp_all add: slice_page b looping_disk_def byte_simps)
  have q: "pointer_at ?pg 0 = \<lparr>chs = \<lparr>cylinder = 0, head = 0, sector = 6\<rparr>, bp_size = 0x1000, bp_count = 0\<rparr>"
    unfolding pointer_at_def mult_zero_right p0 by (simp add: block_ptr_of_def chs_of_def slice_def be_def)
  have n: "eckd_block_num (chs (pointer_at ?pg 0)) disk_machine = 5"
    by (simp add: q eckd_block_num_def disk_geometry chs_cylinder_def chs_head_def)
  have "eckd_valid_address (pointer_at ?pg 0) disk_machine = Some (Ret True, disk_machine)"
    using n by (simp add: eckd_valid_address_True chs_valid_nat disk_geometry q)
  then have good: "good_pointer 4096 disk_machine (pointer_at ?pg 0)" by (simp add: good_pointer_def q)
  have "leads_on ?pg 0" using p1 q by (simp add: leads_on_def unused_space_def)
  then show ?thesis
    using load_eckd_segments_cycle [OF h _ _ disk_machine_ready(3) _ refl n _ good] disk_machine_ready(1, 2)
    by (simp add: is_null_block_number_def)
qed

end
