(* ===== verification/ZiplSections.thy ===== *)
theory ZiplSections
  imports ZiplScsi Sections
begin

text \<open>
  Loading a component of a SCSI boot map, for any device that keeps the contract
  \<open>block_source\<close>: what the lists of pointers of a component say, and that
  \<open>zipl_load_segment\<close> loads exactly that.
\<close>

section \<open>Pointers\<close>

abbreviation ptrs :: "(u64 \<Rightarrow> nat \<Rightarrow> u8 list) \<Rightarrow> s32 \<Rightarrow> u64 \<Rightarrow> u8 list" where
  "ptrs content bs blk \<equiv> filled 16384 content bs blk"

definition scsi_ptr :: "u8 list \<Rightarrow> nat \<Rightarrow> u8 list" where
  "scsi_ptr pg i = slice (16 * i) 16 pg"

definition p_block :: "u8 list \<Rightarrow> u64" where
  "p_block d = be (slice 0 8 d)"

definition p_size :: "u8 list \<Rightarrow> u16" where
  "p_size d = be (slice 8 2 d)"

definition p_count :: "u8 list \<Rightarrow> u16" where
  "p_count d = be (slice 10 2 d)"

lemma rec_list2_fields:
  assumes "length d = 16"
  shows "ucast (drop_bit 48 (be (slice 8 8 d) :: u64)) = (ucast (p_size d) :: s32)"
    "unat (ucast (drop_bit 32 (be (slice 8 8 d) :: u64) AND 0xffff) :: s32) = unat (p_count d)"
proof -
  let ?a = "slice 8 2 d" and ?b = "slice 10 2 d" and ?c = "slice 12 4 d"
  have "slice 8 8 d = ?a @ ?b @ ?c"
    using assms by (intro nth_equalityI) (auto simp: nth_slice nth_append)
  then have n: "be_nat (slice 8 8 d) = be_nat ?a * 2 ^ 48 + be_nat ?b * 2 ^ 32 + be_nat ?c"
    using assms by (simp add: be_nat_append)
  have l: "be_nat ?a < 65536" "be_nat ?b < 65536" "be_nat ?c < 2 ^ 32"
    using be_nat_bound [of ?a] be_nat_bound [of ?b] be_nat_bound [of ?c] assms by simp_all
  let ?w = "be (slice 8 8 d) :: u64"
  have "be_nat (slice 8 8 d) < 2 ^ 64" using be_nat_bound [of "slice 8 8 d"] assms by simp
  then have w: "unat ?w = be_nat (slice 8 8 d)" unfolding be_def by (simp add: unat_of_nat take_bit_nat_eq_self)
  have f: "unat (p_size d) = be_nat ?a" "unat (p_count d) = be_nat ?b"
    using l by (simp_all add: p_size_def p_count_def be_def unat_of_nat take_bit_nat_eq_self)
  have "unat (drop_bit 48 ?w) = be_nat ?a" unfolding drop_bit_eq_div unat_div using l by (simp add: w n)
  then show "ucast (drop_bit 48 ?w) = (ucast (p_size d) :: s32)"
    using f(1) l(1) by (simp add: word_unat_eq_iff unsigned_ucast_eq unsigned_take_bit_eq take_bit_nat_eq_self)
  have "drop_bit 32 ?w AND 0xffff = take_bit 16 (drop_bit 32 ?w)" by (simp add: take_bit_eq_mask mask_eq_exp_minus_1)
  then have "unat (drop_bit 32 ?w AND 0xffff) = unat (drop_bit 32 ?w) mod 65536"
    by (simp only: unsigned_take_bit_eq) (simp add: take_bit_eq_mod)
  also have "\<dots> = be_nat ?b"
  proof -
    have "unat ?w = (be_nat ?a * 65536 + be_nat ?b) * 2 ^ 32 + be_nat ?c" by (simp add: w n)
    then have "unat ?w div 2 ^ 32 = be_nat ?a * 65536 + be_nat ?b" using l(3) by simp
    then show ?thesis unfolding drop_bit_eq_div unat_div using l(2) by simp
  qed
  finally show "unat (ucast (drop_bit 32 ?w AND 0xffff) :: s32) = unat (p_count d)"
    using f(2) l(2) by (simp add: unsigned_ucast_eq unsigned_take_bit_eq take_bit_nat_eq_self)
qed

text \<open>
  What a list of pointers says: extents to load up to a pointer to no block; the last pointer
  of the table, and one that leads on to the next table, continue there.
\<close>

definition goes_on :: "u8 list \<Rightarrow> nat \<Rightarrow> bool" where
  "goes_on pg i \<longleftrightarrow> i = max_entries - 1 \<or> p_count (scsi_ptr pg i) = 0 \<and> unused_space (scsi_ptr pg (i + 1))"

inductive segment_of :: "(u64 \<Rightarrow> nat \<Rightarrow> u8 list) \<Rightarrow> s32 \<Rightarrow> nat \<Rightarrow> u64 \<Rightarrow> nat \<Rightarrow> (u64 \<times> nat) list \<Rightarrow> bool"
  for content bs limit where
  segment_end: "p_block (scsi_ptr (ptrs content bs blk) i) = 0 \<Longrightarrow> i < max_entries \<Longrightarrow> segment_of content bs limit blk i []"
| segment_next: "block = p_block (scsi_ptr (ptrs content bs blk) i) \<Longrightarrow> i < max_entries \<Longrightarrow> block \<noteq> 0 \<Longrightarrow>
     goes_on (ptrs content bs blk) i \<Longrightarrow> unat block + 1 \<le> limit \<Longrightarrow> segment_of content bs limit block 0 xs \<Longrightarrow>
     segment_of content bs limit blk i xs"
| segment_extent: "d = scsi_ptr (ptrs content bs blk) i \<Longrightarrow> block = p_block d \<Longrightarrow> i < max_entries \<Longrightarrow> block \<noteq> 0 \<Longrightarrow>
     \<not> goes_on (ptrs content bs blk) i \<Longrightarrow> ucast (p_size d) = bs \<Longrightarrow> unat block < 2 ^ 31 \<Longrightarrow> n = unat (p_count d) + 1 \<Longrightarrow>
     unat block + n \<le> limit \<Longrightarrow> n * unat bs < 2 ^ 31 \<Longrightarrow> segment_of content bs limit blk (i + 1) xs \<Longrightarrow>
     segment_of content bs limit blk i ((block, n) # xs)"

context block_source begin

lemma load_direct_ok:
  assumes "ok s" "unat blk < 2 ^ 31" "ucast (drop_bit 48 r2) = bs" "unat (ucast (drop_bit 32 r2 AND 0xffff) :: s32) = n"
    and "len = (n + 1) * unat bs" "len < 2 ^ 31" "n < 65536" "unat blk + (n + 1) \<le> limit"
  obtains t where "virtio_load_direct hw blk r2 a s = Some (Ret (a + word_of_nat len), t)" "ok t" "same_disk s t"
    "bufs t = bufs s" "mem t = mem_put a (content blk len) (mem s)"
proof -
  let ?k = "ucast (drop_bit 32 r2 AND 0xffff) + 1 :: s32"
  have k: "unat ?k = n + 1" using assms(4, 7) by (simp add: unat_word_ariths)
  have b: "int_to_u64 (ucast blk :: s32) = blk"
  proof -
    have u: "unat (ucast blk :: s32) = unat blk"
      using assms(2) by (simp add: unsigned_ucast_eq unsigned_take_bit_eq take_bit_nat_eq_self)
    show ?thesis using scast_small [of "ucast blk"] assms(2) u by simp
  qed
  have l: "int_to_u64 (?k * bs) = word_of_nat len"
  proof -
    have "unat (?k * bs) = len" using k assms(5, 6) by (simp add: unat_word_ariths)
    then show ?thesis using scast_small [of "?k * bs"] assms(6) by simp
  qed
  obtain j where j: "sclp_print hw (lit ''.'') s = Some (Ret (), s\<lparr>io := j\<rparr>)" "console_step hw (io s) j"
    using sclp_printE [OF console [OF assms(1)], of "lit ''.''"] by (auto simp: lit_def)
  have o: "ok (s\<lparr>io := j\<rparr>)" using console_ok [OF assms(1) j(2)] .
  obtain t where t: "virtio_read_many hw blk (Phys a) ?k (s\<lparr>io := j\<rparr>) = Some (Ret 0, t)" "ok t" "same_disk (s\<lparr>io := j\<rparr>) t"
    "mem t = mem (put (Phys a) (content blk len) (s\<lparr>io := j\<rparr>))" "bufs t = bufs (put (Phys a) (content blk len) (s\<lparr>io := j\<rparr>))"
    using read_many_ok [OF o, of "Phys a" len ?k blk] k assms(5, 6, 8) by (auto simp: mult.commute)
  have "virtio_load_direct hw blk r2 a s = Some (Ret (a + word_of_nat len), t)"
    using assms(3) block_size [OF assms(1)] block_size [OF t(2)] t(1) b l
    by (simp add: virtio_load_direct_def Let_def bnd_Ret j(1) ret_def)
  moreover have "same_disk s t" using t(3) by (simp add: same_disk_def)
  ultimately show ?thesis using t that by simp
qed

lemma load_scsi_ptr:
  assumes "bufs t Sec = ptrs content bs blk" "unat bs \<le> 16384" "i < 1024"
  shows "load (Buf Sec (16 * i)) 16 t = Some (Ret (scsi_ptr (ptrs content bs blk) i), t)"
    "length (scsi_ptr (ptrs content bs blk) i) = 16"
  using assms length_content [of blk "unat bs"] by (simp_all add: filled_def scsi_ptr_def)

lemma bprs_step_extent:
  assumes "bufs t Sec = ptrs content bs blk" "unat bs \<le> 16384" "i < max_entries"
    and "d = scsi_ptr (ptrs content bs blk) i" "p_block d \<noteq> 0" "\<not> goes_on (ptrs content bs blk) i"
    and "virtio_load_direct hw (p_block d) (be (slice 8 8 d)) a t = Some (Ret a', t')" "a' \<noteq> -1"
  shows "bprs_loop hw i a t = bprs_loop hw (i + 1) a' t'"
  using assms load_scsi_ptr [OF assms(1, 2), of i] load_scsi_ptr [OF assms(1, 2), of "i + 1"]
  by (subst bprs_loop.simps, simp add: bnd_Ret goes_on_def p_block_def p_count_def) blast

lemma bprs_stop:
  assumes "bufs t Sec = ptrs content bs blk" "unat bs \<le> 16384" "i < max_entries"
    and "d = scsi_ptr (ptrs content bs blk) i" "p_block d = 0 \<or> goes_on (ptrs content bs blk) i"
  shows "bprs_loop hw i a t = Some (Ret (p_block d, a), t)"
  using assms load_scsi_ptr [OF assms(1, 2), of i] load_scsi_ptr [OF assms(1, 2), of "i + 1"]
  by (subst bprs_loop.simps) (auto simp: bnd_Ret goes_on_def p_block_def p_count_def ret_def)

lemma read_ptrs:
  assumes "ok s" "length (bufs s Sec) = 16384" "unat bs \<le> 16384" "unat b + 1 \<le> limit"
  obtains t where "seq fill_sec (read_block hw b (Buf Sec 0) msg) s = Some (Ret (), t)" "ok t" "same_disk s t"
    "mem t = mem s" "bufs t Sec = ptrs content bs b" "\<forall>c. c \<noteq> Sec \<longrightarrow> bufs t c = bufs s c"
  using read_filled [OF assms(1, 2) _ _ assms(3) _ assms(4), of msg] unfolding fill_sec_def by auto

lemma segment_loop_unfold:
  assumes "seq fill_sec (read_block hw b (Buf Sec 0) (bprs_err_msg b)) s = Some (Ret (), t)"
  shows "zipl_segment_loop hw b a s = bnd (\<lambda>s. bprs_loop hw 0 a s)
    (\<lambda>x. if fst x = 0 then ret () else (\<lambda>s. zipl_segment_loop hw (fst x) (snd x) s)) t"
proof -
  have "zipl_segment_loop hw b a s = bnd (seq fill_sec (read_block hw b (Buf Sec 0) (bprs_err_msg b))) (\<lambda>_. bnd (\<lambda>s. bprs_loop hw 0 a s)
      (\<lambda>x. if fst x = 0 then ret () else (\<lambda>s. zipl_segment_loop hw (fst x) (snd x) s))) s"
    by (subst zipl_segment_loop.simps) (simp add: bnd_assoc)
  with assms show ?thesis by (simp add: bnd_Ret)
qed

lemma segment_loop_loads:
  assumes "segment_of content bs limit blk i xs" "unat bs \<le> 16384"
  shows "ok t \<Longrightarrow> bufs t Sec = ptrs content bs blk \<Longrightarrow> unat a + extents_size (unat bs) xs < 2 ^ 64 - 1 \<Longrightarrow>
    \<exists>u. bnd (\<lambda>s. bprs_loop hw i a s)
        (\<lambda>x. if fst x = 0 then ret () else (\<lambda>s. zipl_segment_loop hw (fst x) (snd x) s)) t = Some (Ret (), u) \<and>
      ok u \<and> same_disk t u \<and> mem u = loaded content (unat bs) xs a (mem t) \<and> (\<forall>c. c \<noteq> Sec \<longrightarrow> bufs u c = bufs t c)"
  using assms(1)
proof (induction arbitrary: t a)
  case (segment_end blk i)
  then show ?case
    using bprs_stop [OF segment_end.prems(2) assms(2) segment_end.hyps(2) refl, of a]
    by (simp add: bnd_Ret ret_def same_disk_refl)
next
  case (segment_next block blk i xs)
  have l: "length (bufs t Sec) = 16384"
    using segment_next.prems(2) assms(2) length_content [of blk "unat bs"] by (simp add: filled_def)
  obtain t' where t': "seq fill_sec (read_block hw block (Buf Sec 0) (bprs_err_msg block)) t = Some (Ret (), t')" "ok t'" "same_disk t t'"
    "mem t' = mem t" "bufs t' Sec = ptrs content bs block" "\<forall>c. c \<noteq> Sec \<longrightarrow> bufs t' c = bufs t c"
    using read_ptrs [OF segment_next.prems(1) l assms(2) segment_next.hyps(5)] by metis
  have "bprs_loop hw i a t = Some (Ret (block, a), t)"
    using bprs_stop [OF segment_next.prems(2) assms(2) segment_next.hyps(2) refl, of a] segment_next.hyps(1, 4) by simp
  moreover note segment_loop_unfold [OF t'(1), of a]
  moreover obtain u where u: "bnd (\<lambda>s. bprs_loop hw 0 a s)
        (\<lambda>x. if fst x = 0 then ret () else (\<lambda>s. zipl_segment_loop hw (fst x) (snd x) s)) t' = Some (Ret (), u)"
      "ok u" "same_disk t' u" "mem u = loaded content (unat bs) xs a (mem t')" "\<forall>c. c \<noteq> Sec \<longrightarrow> bufs u c = bufs t' c"
    using segment_next.IH [OF t'(2, 5) segment_next.prems(3)] by blast
  ultimately show ?case
    using segment_next.hyps(3) t'(3, 4, 6) same_disk_trans [OF t'(3) u(3)] by (simp add: bnd_Ret)
next
  case (segment_extent d blk i block n xs)
  have d: "length d = 16" using load_scsi_ptr(2) [OF segment_extent.prems(2) assms(2), of i] segment_extent.hyps(1, 3) by simp
  note f = rec_list2_fields [OF d]
  have n: "n = unat (p_count d) + 1" "unat (p_count d) < 65536"
    using segment_extent.hyps(8) unsigned_less [of "p_count d", where ?'a = nat] by simp_all
  have sz: "extents_size (unat bs) ((block, n) # xs) = n * unat bs + extents_size (unat bs) xs" by (simp add: extents_size_def)
  obtain t' where t': "virtio_load_direct hw block (be (slice 8 8 d)) a t = Some (Ret (a + word_of_nat (n * unat bs)), t')" "ok t'"
    "same_disk t t'" "bufs t' = bufs t" "mem t' = mem_put a (content block (n * unat bs)) (mem t)"
    using load_direct_ok [OF segment_extent.prems(1) segment_extent.hyps(7) _ f(2), of "n * unat bs" a]
      f(1) segment_extent.hyps(6, 9, 10) n by auto
  have a': "unat (a + word_of_nat (n * unat bs)) = unat a + n * unat bs"
    using segment_extent.prems(3) sz by (intro unat_add_small) simp
  then have a1: "a + word_of_nat (n * unat bs) \<noteq> - 1" and less: "unat (a + word_of_nat (n * unat bs)) + extents_size (unat bs) xs < 2 ^ 64 - 1"
    using segment_extent.prems(3) sz unsigned_minus_1_eq_mask [where ?'a = nat and ?'b = 64] by (auto simp: mask_eq_exp_minus_1)
  have p: "p_block d \<noteq> 0" using segment_extent.hyps(2, 4) by simp
  note t'(1) [unfolded segment_extent.hyps(2)]
  from bprs_step_extent [OF segment_extent.prems(2) assms(2) segment_extent.hyps(3, 1) p segment_extent.hyps(5) this a1]
  have step: "bprs_loop hw i a t = bprs_loop hw (i + 1) (a + word_of_nat (n * unat bs)) t'" .
  obtain u where u: "bnd (\<lambda>s. bprs_loop hw (i + 1) (a + word_of_nat (n * unat bs)) s)
        (\<lambda>x. if fst x = 0 then ret () else (\<lambda>s. zipl_segment_loop hw (fst x) (snd x) s)) t' = Some (Ret (), u)"
      "ok u" "same_disk t' u" "mem u = loaded content (unat bs) xs (a + word_of_nat (n * unat bs)) (mem t')"
      "\<forall>c. c \<noteq> Sec \<longrightarrow> bufs u c = bufs t' c"
    using segment_extent.IH [OF t'(2) _ less] t'(4) segment_extent.prems(2) by auto
  have "bnd (\<lambda>s. bprs_loop hw i a s) f t = bnd (\<lambda>s. bprs_loop hw (i + 1) (a + word_of_nat (n * unat bs)) s) f t'"
    for f :: "u64 \<times> u64 \<Rightarrow> ('d, unit) fw"
    using step by (simp add: bnd_def)
  from this [of "\<lambda>x. if fst x = 0 then ret () else (\<lambda>s. zipl_segment_loop hw (fst x) (snd x) s)"]
  have "bnd (\<lambda>s. bprs_loop hw i a s)
        (\<lambda>x. if fst x = 0 then ret () else (\<lambda>s. zipl_segment_loop hw (fst x) (snd x) s)) t = Some (Ret (), u)"
    unfolding u(1) by simp
  moreover have "mem u = loaded content (unat bs) ((block, n) # xs) a (mem t)" using u(4) t'(5) by (simp del: of_nat_mult)
  ultimately show ?case using u(2, 5) t'(4) same_disk_trans [OF t'(3) u(3)] by auto
qed

lemma segment_loop_starts:
  assumes "segment_of content bs limit blk 0 xs" "unat bs \<le> 16384" "ok s" "length (bufs s Sec) = 16384" "unat blk + 1 \<le> limit"
    and "unat a + extents_size (unat bs) xs < 2 ^ 64 - 1"
  obtains t where "zipl_segment_loop hw blk a s = Some (Ret (), t)" "ok t" "same_disk s t"
    "mem t = loaded content (unat bs) xs a (mem s)" "\<forall>c. c \<noteq> Sec \<longrightarrow> bufs t c = bufs s c"
proof -
  obtain t where t: "seq fill_sec (read_block hw blk (Buf Sec 0) (bprs_err_msg blk)) s = Some (Ret (), t)" "ok t" "same_disk s t"
    "mem t = mem s" "bufs t Sec = ptrs content bs blk" "\<forall>c. c \<noteq> Sec \<longrightarrow> bufs t c = bufs s c"
    using read_ptrs [OF assms(3, 4, 2, 5)] by metis
  obtain u where u: "zipl_segment_loop hw blk a s = Some (Ret (), u)" "ok u" "same_disk t u"
    "mem u = loaded content (unat bs) xs a (mem t)" "\<forall>c. c \<noteq> Sec \<longrightarrow> bufs u c = bufs t c"
    using segment_loop_loads [OF assms(1, 2) t(2, 5) assms(6)] unfolding segment_loop_unfold [OF t(1)] by blast
  show ?thesis
    by (rule that [OF u(1, 2) same_disk_trans [OF t(3) u(3)]]) (use u(4, 5) t(4, 6) in simp_all)
qed

end

text \<open>
  \<open>zipl_load_segment\<close> on a component entry in \<open>tmp_sec\<close> whose lists of pointers come to an
  end: it returns, the storage at the entry's load address holds the extents one after the
  other, and no other byte of storage and no buffer but \<open>sec\<close> has changed.
\<close>

lemma zipl_load_segment_bytes:
  assumes "block_source hw ok bs limit content" "ok s" "unat bs \<le> 16384" "length (bufs s Sec) = 16384"
    and "load_u64 (Buf TmpSec entry) s = Some (Ret blk, s)" "load_u64 (Buf TmpSec (entry + 24)) s = Some (Ret a, s)"
    and "segment_of content bs limit blk 0 xs" "unat blk < limit" "unat a + extents_size (unat bs) xs < 2 ^ 64 - 1"
  shows "\<exists>t. zipl_load_segment hw entry s = Some (Ret (), t) \<and>
    mem_get (mem t) a (extents_size (unat bs) xs) = concat (map (\<lambda>(b, k). content b (k * unat bs)) xs) \<and>
    (\<forall>x. extents_size (unat bs) xs \<le> unat (x - a) \<longrightarrow> mem t x = mem s x) \<and>
    (\<forall>c. c \<noteq> Sec \<longrightarrow> bufs t c = bufs s c) \<and> ok t \<and> same_disk s t"
proof -
  have "unat blk + 1 \<le> limit" using assms(8) by simp
  from block_source.segment_loop_starts [OF assms(1, 7, 3, 2, 4) this assms(9)]
  obtain t where t: "zipl_segment_loop hw blk a s = Some (Ret (), t)" "ok t" "same_disk s t"
    "mem t = loaded content (unat bs) xs a (mem s)" "\<forall>c. c \<noteq> Sec \<longrightarrow> bufs t c = bufs s c" by metis
  note l = block_source.length_content [OF assms(1)]
  have "zipl_load_segment hw entry s = Some (Ret (), t)"
    using assms(5, 6) t(1) by (simp add: zipl_load_segment_def bnd_Ret)
  then show ?thesis using t assms(9) loaded_bytes [OF _ l] loaded_outside [OF _ l] by auto
qed

definition zipl_disk :: "u64 \<Rightarrow> u8" where
  "zipl_disk x = (if x = 0x5007 then 9 else if x = 0x5008 then 0x10 else if x = 0x9000 then 42 else 0)"

definition zipl_machine :: "nat machine" where
  "zipl_machine = disk_machine\<lparr>bufs := (bufs disk_machine)(TmpSec := replicate 39 0 @ [5] @ replicate 21 0 @ [2] @ replicate 4034 0)\<rparr>"

lemma zipl_machine_ready:
  "blk_ready zipl_machine" "virtio_get_block_size zipl_machine = 4096" "length (bufs zipl_machine Sec) = 16384"
  "load_u64 (Buf TmpSec 32) zipl_machine = Some (Ret 5, zipl_machine)"
  "load_u64 (Buf TmpSec (32 + 24)) zipl_machine = Some (Ret 0x20000, zipl_machine)"
proof -
  show "blk_ready zipl_machine" using disk_machine_ready(1)
    by (simp add: zipl_machine_def blk_ready_def rings_idle_def idle_def Let_def cu_model_def)
  have "virtio_get_block_size zipl_machine = virtio_get_block_size disk_machine"
    unfolding zipl_machine_def virtio_get_block_size_def cu_model_def blk_physical_block_exp_def blk_blk_size_def by simp
  then show "virtio_get_block_size zipl_machine = 4096" using disk_machine_ready(2) by simp
  show "length (bufs zipl_machine Sec) = 16384" by (simp add: zipl_machine_def disk_machine_def)
  have "slice 32 8 (replicate 39 0 @ [5] @ replicate 21 0 @ [2] @ replicate 4034 0 :: u8 list) = [0, 0, 0, 0, 0, 0, 0, 5]"
    "slice 56 8 (replicate 39 0 @ [5] @ replicate 21 0 @ [2] @ replicate 4034 0 :: u8 list) = [0, 0, 0, 0, 0, 2, 0, 0]"
    by (simp_all add: slice_def numeral_nat)
  then show "load_u64 (Buf TmpSec 32) zipl_machine = Some (Ret 5, zipl_machine)"
    "load_u64 (Buf TmpSec (32 + 24)) zipl_machine = Some (Ret 0x20000, zipl_machine)"
    by (simp_all add: zipl_machine_def load_u64_def bnd_def ret_def be_def)
qed

lemma zipl_segment: "segment_of (disk_content zipl_disk 4096) 4096 (2 ^ 65) 5 0 [(9, 1)]"
proof -
  have b: "int_to_u64 (s32_div 4096 VIRTIO_SECTOR_SIZE) = 8" by (simp add: s32_div_def VIRTIO_SECTOR_SIZE_def)
  let ?pg = "ptrs (disk_content zipl_disk 4096) 4096 5"
  have sl: "slice off k ?pg = mem_get zipl_disk (0x5000 + word_of_nat off) k" if "off + k \<le> 4096" for off k
    using that by (intro nth_equalityI) (simp_all add: filled_def disk_content_def nth_slice nth_append add.assoc b)
  have p0: "scsi_ptr ?pg 0 = [0, 0, 0, 0, 0, 0, 0, 9, 0x10, 0, 0, 0, 0, 0, 0, 0]" and p1: "scsi_ptr ?pg 1 = [0, 0, 0, 0, 0, 0, 0, 0, 0, 0, 0, 0, 0, 0, 0, 0]"
    by (simp_all add: scsi_ptr_def sl zipl_disk_def byte_simps)
  have "\<not> goes_on ?pg 0" using p1 by (simp add: goes_on_def unused_space_def FREE_SPACE_FILLER_def)
  moreover have "segment_of (disk_content zipl_disk 4096) 4096 (2 ^ 65) 5 1 []"
    by (rule segment_end) (simp_all add: p1 [simplified] p_block_def be_def slice_def)
  ultimately show ?thesis
    by (intro segment_extent [OF refl]) (simp_all add: p0 p_block_def p_size_def p_count_def slice_def be_def)
qed

lemma zipl_load_segment_bytes_witness:
  "\<exists>t. zipl_load_segment (disk_hw zipl_disk) 32 zipl_machine = Some (Ret (), t) \<and> mem t 0x20000 = 42 \<and> mem t 0x21000 = 0"
proof -
  have h: "block_source (disk_hw zipl_disk :: nat hw) (\<lambda>s. blk_ready s \<and> virtio_get_block_size s = 4096) 4096 (2 ^ 65)
      (disk_content zipl_disk 4096)" by (rule disk_hw.blocks.block_source_axioms)
  obtain t where t: "zipl_load_segment (disk_hw zipl_disk) 32 zipl_machine = Some (Ret (), t)"
    "mem_get (mem t) 0x20000 (extents_size 4096 [(9, 1)]) = disk_content zipl_disk 4096 9 4096"
    "\<forall>x. extents_size 4096 [(9, 1)] \<le> unat (x - 0x20000) \<longrightarrow> mem t x = mem zipl_machine x"
    using zipl_load_segment_bytes [OF h _ _ zipl_machine_ready(3-5) zipl_segment] zipl_machine_ready(1, 2)
    by (auto simp: extents_size_def)
  have "int_to_u64 (s32_div 4096 VIRTIO_SECTOR_SIZE) = 8" by (simp add: s32_div_def VIRTIO_SECTOR_SIZE_def)
  then have "mem t 0x20000 = zipl_disk 0x9000"
    using arg_cong [OF t(2), of "\<lambda>xs. xs ! 0"] by (simp_all add: extents_size_def disk_content_def)
  moreover have "mem t 0x21000 = mem zipl_machine 0x21000" using t(3) by (simp add: extents_size_def)
  ultimately show ?thesis using t(1) by (simp add: zipl_disk_def zipl_machine_def disk_machine_def blank_def)
qed

end
