(* ===== verification/Image.thy ===== *)
theory Image
  imports Sections
begin

text \<open>
  A boot image: segments, each an address and the extents of the disk that belong there. What
  storage holds once they are loaded one after the other, and what is left of it when the
  machine is handed over with the reset PSW of the image; and the runs of the loader that only
  read a block or print. Shared by the boot maps of SCSI and of ECKD disks.
\<close>

section \<open>Segments in storage\<close>

type_synonym segment = "u64 \<times> (u64 \<times> nat) list"

fun image_mem :: "(u64 \<Rightarrow> nat \<Rightarrow> u8 list) \<Rightarrow> nat \<Rightarrow> segment list \<Rightarrow> (u64 \<Rightarrow> u8) \<Rightarrow> (u64 \<Rightarrow> u8)" where
  "image_mem content n [] m = m"
| "image_mem content n ((a, xs) # segs) m = image_mem content n segs (loaded content n xs a m)"

fun in_segment :: "nat \<Rightarrow> segment \<Rightarrow> u64 \<Rightarrow> bool" where
  "in_segment n (a, xs) x \<longleftrightarrow> unat (x - a) < extents_size n xs"

fun segment_bytes :: "(u64 \<Rightarrow> nat \<Rightarrow> u8 list) \<Rightarrow> nat \<Rightarrow> segment \<Rightarrow> u8 list" where
  "segment_bytes content n (a, xs) = concat (map (\<lambda>(b, k). content b (k * n)) xs)"

text \<open>The page of the reset PSW and of the hand-over data is not part of an image.\<close>

fun above_low_core :: "nat \<Rightarrow> segment \<Rightarrow> bool" where
  "above_low_core n (a, xs) \<longleftrightarrow> 0x200 \<le> unat a \<and> unat a + extents_size n xs < 2 ^ 64 - 1"

fun clear_of :: "nat \<Rightarrow> segment \<Rightarrow> segment \<Rightarrow> bool" where
  "clear_of n (a, xs) (b, ys) \<longleftrightarrow> unat a + extents_size n xs \<le> unat b \<or> unat b + extents_size n ys \<le> unat a"

definition well_placed :: "nat \<Rightarrow> segment list \<Rightarrow> bool" where
  "well_placed n segs \<longleftrightarrow> list_all (above_low_core n) segs \<and> sorted_wrt (clear_of n) segs"

lemma well_placed_simps [simp]:
  "well_placed n []"
  "well_placed n (g # segs) \<longleftrightarrow> above_low_core n g \<and> (\<forall>h\<in>set segs. clear_of n g h) \<and> well_placed n segs"
  by (auto simp: well_placed_def)

lemma loaded_append: "loaded content n (xs @ ys) a m = loaded content n ys (a + word_of_nat (extents_size n xs)) (loaded content n xs a m)"
  by (induction content n xs a m rule: loaded.induct) (simp_all add: extents_size_def add.assoc)

lemma extents_size_append [simp]: "extents_size n (xs @ ys) = extents_size n xs + extents_size n ys"
  by (simp add: extents_size_def)

lemma image_outside:
  assumes "\<And>b k. length (content b k) = k"
  shows "\<forall>g\<in>set segs. \<not> in_segment n g x \<Longrightarrow> image_mem content n segs m x = m x"
  by (induction segs arbitrary: m) (auto simp: not_less intro!: loaded_outside assms)

lemma clear_not_in:
  assumes "clear_of n (a, xs) h" "above_low_core n (a, xs)" "above_low_core n h" "i < extents_size n xs"
  shows "\<not> in_segment n h (a + word_of_nat i)"
proof (cases h)
  case (Pair b ys)
  have "unat (a + word_of_nat i) = unat a + i" using assms(2, 4) by (intro unat_add_small) simp
  then show ?thesis
    using assms Pair unsigned_less [of b, where ?'a = nat] unat_diff_wrap [of "a + word_of_nat i" b] by auto
qed

lemma image_bytes:
  assumes "\<And>b k. length (content b k) = k" "well_placed n segs" "(a, xs) \<in> set segs"
  shows "mem_get (image_mem content n segs m) a (extents_size n xs) = segment_bytes content n (a, xs)"
  using assms(2, 3)
proof (induction segs arbitrary: m)
  case (Cons g segs)
  obtain b ys where g: "g = (b, ys)" by (cases g)
  show ?case
  proof (cases "(a, xs) = g")
    case True
    have l: "list_all (above_low_core n) segs" using Cons.prems(1) by (simp add: well_placed_def)
    have "mem_get (image_mem content n segs m') a (extents_size n xs) = mem_get m' a (extents_size n xs)" for m'
    proof (rule nth_equalityI)
      fix i
      assume "i < length (mem_get (image_mem content n segs m') a (extents_size n xs))"
      then have i: "i < extents_size n xs" by simp
      have "\<forall>h\<in>set segs. \<not> in_segment n h (a + word_of_nat i)"
        using clear_not_in [of n a xs _ i] Cons.prems(1) True i l by (auto simp: list_all_iff)
      from image_outside [OF assms(1) this] i
      show "mem_get (image_mem content n segs m') a (extents_size n xs) ! i = mem_get m' a (extents_size n xs) ! i" by simp
    qed simp
    moreover have "extents_size n xs < 2 ^ 64" using Cons.prems(1) True by auto
    ultimately show ?thesis using True loaded_bytes [OF _ assms(1)] by (auto simp: g)
  next
    case False
    with Cons.prems show ?thesis using Cons.IH by (auto simp: g)
  qed
qed simp

section \<open>The machine an image is handed over in\<close>

definition booted :: "'d hw \<Rightarrow> (u64 \<Rightarrow> nat \<Rightarrow> u8 list) \<Rightarrow> nat \<Rightarrow> segment list \<Rightarrow> u64 \<Rightarrow> (u64 \<Rightarrow> u8) \<Rightarrow> 'd machine \<Rightarrow> bool" where
  "booted hw content n segs psw m t \<longleftrightarrow>
     (\<forall>g\<in>set segs. mem_get (mem t) (fst g) (extents_size n (snd g)) = segment_bytes content n g) \<and>
     mem_get (mem t) 0 8 = to_be 8 psw \<and> handed_over hw NormalReset t \<and>
     (\<forall>x. 0x200 \<le> unat x \<and> (\<forall>g\<in>set segs. \<not> in_segment n g x) \<longrightarrow> mem t x = m x)"

lemma hand_over_mem_above:
  assumes "0x200 \<le> unat x"
  shows "hand_over_mem hw a s x = mem s x"
proof -
  have "mem_put b bs m x = m x" if "unat b + length bs \<le> 0x200" for b bs m
    using that assms by (intro mem_put_other) (simp add: unat_diff_wrap)
  then show ?thesis by (simp add: hand_over_mem_def Let_def)
qed

lemma jump_booted:
  assumes "length (scr (io u) Sccb) = 4096" "\<And>b k. length (content b k) = k" "well_placed n segs"
    and "mem u = mem_put 0 (to_be 8 psw) (image_mem content n segs m)"
  shows "\<exists>t. jump_to_IPL_code hw 0 u = Some (Stop NormalReset :: unit result, t) \<and> booted hw content n segs psw m t"
proof -
  obtain t where t: "jump_to_IPL_code hw 0 u = Some (Stop NormalReset :: unit result, t)" "mem t = hand_over_mem hw 0 u"
    using jump_to_IPL_code_resets [OF assms(1), of hw 0] by fastforce
  have above: "mem t x = image_mem content n segs m x" if "0x200 \<le> unat x" for x
  proof -
    have "mem_put 0 (to_be 8 psw) (image_mem content n segs m) x = image_mem content n segs m x"
      using that by (intro mem_put_other) simp
    then show ?thesis using that by (simp add: t(2) hand_over_mem_above assms(4))
  qed
  have "mem_get (mem t) a (extents_size n xs) = segment_bytes content n (a, xs)" if "(a, xs) \<in> set segs" for a xs
  proof -
    have p: "above_low_core n (a, xs)" using that assms(3) by (auto simp: well_placed_def list_all_iff)
    have "mem_get (mem t) a (extents_size n xs) = mem_get (image_mem content n segs m) a (extents_size n xs)"
    proof (rule nth_equalityI)
      fix i
      assume "i < length (mem_get (mem t) a (extents_size n xs))"
      then have i: "i < extents_size n xs" by simp
      then have "unat (a + word_of_nat i) = unat a + i" using p by (intro unat_add_small) simp
      then have "mem t (a + word_of_nat i) = image_mem content n segs m (a + word_of_nat i)" using p by (intro above) simp
      then show "mem_get (mem t) a (extents_size n xs) ! i = mem_get (image_mem content n segs m) a (extents_size n xs) ! i"
        using i by simp
    qed simp
    then show ?thesis using image_bytes [OF assms(2, 3) that] by simp
  qed
  moreover have "mem_get (mem t) 0 8 = to_be 8 psw"
    by (simp add: t(2) hand_over_mem_get assms(4) mem_get_put_to_be)
  moreover have "handed_over hw NormalReset t" using outcome_ok_Stop [OF jump_hands_over t(1)] .
  moreover have "mem t x = m x" if "0x200 \<le> unat x" "\<forall>g\<in>set segs. \<not> in_segment n g x" for x
    using above [OF that(1)] image_outside [OF assms(2) that(2)] by simp
  ultimately show ?thesis using t(1) unfolding booted_def by (intro exI [of _ t] conjI) (auto simp del: segment_bytes.simps)
qed

section \<open>Reading into the buffers\<close>

text \<open>A run of the loader that prints, or that reads a block, and nothing else.\<close>

context block_source begin

lemma print_ok:
  assumes "ok s" "length (crlf str) \<le> 4082"
  obtains j where "sclp_print hw str s = Some (Ret (), s\<lparr>io := j\<rparr>)" "ok (s\<lparr>io := j\<rparr>)"
  using sclp_printE [OF console [OF assms(1)] assms(2)] console_ok [OF assms(1)] by metis

lemma check_ok:
  assumes "ok s" "length (crlf m) \<le> 4082"
  obtains j where "IPL_check hw b m s = Some (Ret (), s\<lparr>io := j\<rparr>)" "ok (s\<lparr>io := j\<rparr>)"
proof (cases b)
  case True
  then show ?thesis using that [of "io s"] assms(1) by (simp add: ret_def)
next
  case False
  obtain i where i: "sclp_print hw (10 # lit ''! WARNING: '') s = Some (Ret (), s\<lparr>io := i\<rparr>)" "ok (s\<lparr>io := i\<rparr>)"
    using print_ok [OF assms(1), of "10 # lit ''! WARNING: ''"] by (auto simp: lit_def)
  obtain j where j: "sclp_print hw m (s\<lparr>io := i\<rparr>) = Some (Ret (), s\<lparr>io := j\<rparr>)" "ok (s\<lparr>io := j\<rparr>)"
    using print_ok [OF i(2) assms(2)] by auto
  obtain k where k: "sclp_print hw (lit '' !'' @ [10]) (s\<lparr>io := j\<rparr>) = Some (Ret (), s\<lparr>io := k\<rparr>)" "ok (s\<lparr>io := k\<rparr>)"
    using print_ok [OF j(2), of "lit '' !'' @ [10]"] by (auto simp: lit_def)
  show ?thesis using that [OF _ k(2)] False by (simp add: IPL_check_def whenM_def bnd_Ret i(1) bnd_Ret j(1) k(1))
qed

lemma read_into:
  assumes "ok s" "b \<noteq> VConfig" "b \<noteq> VSenseId" "unat bs \<le> length (bufs s b)" "unat bs < 2 ^ 31" "unat blk < limit"
  obtains j where "read_block hw blk (Buf b 0) msg s = Some (Ret (),
      s\<lparr>bufs := (bufs s)(b := splice 0 (content blk (unat bs)) (bufs s b)), io := j\<rparr>)"
    "ok (s\<lparr>bufs := (bufs s)(b := splice 0 (content blk (unat bs)) (bufs s b)), io := j\<rparr>)"
proof -
  obtain t where t: "virtio_read_many hw blk (Buf b 0) 1 s = Some (Ret 0, t)" "ok t"
    "t\<lparr>io := io s\<rparr> = put (Buf b 0) (content blk (unat bs)) s"
    using read [OF assms(1), of "Buf b 0" "unat bs" 1 blk] assms(2-6) by auto
  have e: "t = s\<lparr>bufs := (bufs s)(b := splice 0 (content blk (unat bs)) (bufs s b)), io := io t\<rparr>"
    using arg_cong [OF t(3), of "\<lambda>u. u\<lparr>io := io t\<rparr>"] by simp
  have "read_block hw blk (Buf b 0) msg s = Some (Ret (), t)"
    using t(1) by (simp add: bnd_def read_block_def virtio_read_def ret_def)
  then show ?thesis using that [of "io t"] t(2) e by simp
qed

lemma read_sec:
  assumes "ok s" "length (bufs s Sec) = 16384" "unat bs \<le> 16384" "unat blk < limit"
  obtains j where "seq fill_sec (read_block hw blk (Buf Sec 0) msg) s =
      Some (Ret (), s\<lparr>bufs := (bufs s)(Sec := filled 16384 content bs blk), io := j\<rparr>)"
    "ok (s\<lparr>bufs := (bufs s)(Sec := filled 16384 content bs blk), io := j\<rparr>)"
proof -
  let ?s = "put (Buf Sec 0) (replicate 16384 FREE_SPACE_FILLER) s"
  have o: "ok ?s" using assms(2) by (intro put_ok [OF assms(1)]) simp_all
  have f: "fill_sec s = Some (Ret (), ?s)" using assms(2) by (simp add: fill_sec_def memset_def)
  have sp: "splice 0 (content blk (unat bs)) (replicate 16384 FREE_SPACE_FILLER) = filled 16384 content bs blk"
    by (simp add: filled_def splice_def length_content)
  obtain j where "read_block hw blk (Buf Sec 0) msg ?s = Some (Ret (), s\<lparr>bufs := (bufs s)(Sec := filled 16384 content bs blk), io := j\<rparr>)"
      "ok (s\<lparr>bufs := (bufs s)(Sec := filled 16384 content bs blk), io := j\<rparr>)"
    using read_into [OF o, of Sec blk msg] assms(2-4) sp by auto
  then show ?thesis using that f by (simp add: bnd_Ret)
qed

end

lemma seq_seq_Ret: "bnd m (\<lambda>_. n) s = Some (Ret x, t) \<Longrightarrow> bnd m (\<lambda>_. bnd n f) s = f x t"
  using bnd_Ret [of "bnd m (\<lambda>_. n)" s x t f] by (simp add: bnd_assoc)

lemma length_filled: "(\<And>b k. length (content b k) = k) \<Longrightarrow> unat bs \<le> m \<Longrightarrow> length (filled m content bs blk) = m"
  by (simp add: filled_def)

lemma magic_match_eq: "take 4 d = take 4 m \<Longrightarrow> magic_match d m"
  by (simp add: magic_match_def)

lemma load_Buf:
  assumes "length (bufs t b) = m"
  shows "i + 4 \<le> m \<Longrightarrow> magic_at (Buf b i) g t = Some (Ret (magic_match (slice i 4 (bufs t b)) g), t)"
    "i + 4 \<le> m \<Longrightarrow> load_u32 (Buf b i) t = Some (Ret (be (slice i 4 (bufs t b))), t)"
    "i + 8 \<le> m \<Longrightarrow> load_u64 (Buf b i) t = Some (Ret (be (slice i 8 (bufs t b))), t)"
    "i + n \<le> m \<Longrightarrow> load (Buf b i) n t = Some (Ret (slice i n (bufs t b)), t)"
  using assms by (simp_all add: magic_at_def load_u32_def load_u64_def bnd_def ret_def)

lemma magic_slice: "take 4 d = ZIPL_MAGIC \<Longrightarrow> magic_match (slice 0 4 d) ZIPL_MAGIC"
  by (simp add: magic_match_def slice_def ZIPL_MAGIC_def lit_def)

section \<open>Concrete disks\<close>

lemma disk_content_4k: "disk_content d 4096 b n = mem_get d (b * 0x1000) n"
proof -
  have "int_to_u64 (s32_div 4096 VIRTIO_SECTOR_SIZE) = 8" by (simp add: s32_div_def VIRTIO_SECTOR_SIZE_def)
  then show ?thesis by (simp add: disk_content_def mult.commute)
qed

lemma slice_filled_4k: "off + k \<le> 4096 \<Longrightarrow> 4096 \<le> m \<Longrightarrow>
    slice off k (filled m (disk_content d 4096) 4096 b) = mem_get d (b * 0x1000 + word_of_nat off) k"
  by (intro nth_equalityI) (simp_all add: filled_def disk_content_4k nth_slice nth_append add.assoc)

lemma slice_mem_get: "off + k \<le> n \<Longrightarrow> slice off k (mem_get d a n) = mem_get d (a + word_of_nat off) k"
  by (intro nth_equalityI) (simp_all add: nth_slice add.assoc)

lemma disk_machine_settings:
  "\<not> menu_is_enabled_enum disk_machine" "\<not> menu_is_enabled_zipl disk_machine" "\<not> is_cdrom (vd disk_machine)" "cu_model disk_machine \<noteq> VIRTIO_ID_NET"
  "get_loadparm_index disk_machine = 0" "length (bufs disk_machine Sec) = 16384" "length (bufs disk_machine TmpSec) = 4096"
  by (simp_all add: disk_machine_def menu_is_enabled_enum_def menu_is_enabled_zipl_def blank_def blank_vdev_def cu_model_def VIRTIO_ID_NET_def
    get_loadparm_index_def atoui_def)

end
