(* ===== verification/Iso.thy ===== *)
theory Iso
  imports ZiplScsi
begin

text \<open>
  Booting an El Torito ISO9660 image (third part of \<open>bootmap.c\<close>): finding the boot
  catalog and a bootable entry, looking the size of the boot image up in the directory
  tree, loading the image. \<open>vd\<close> and \<open>e\<close> are structs over \<open>sec\<close>, \<open>magic_sec\<close> and \<open>temp\<close>
  start at offset 2048 of it. The tables \<open>sec_loc\<close>, \<open>sec_offset\<close> and \<open>dir_rem\<close> are used by
  one function only, which sets an entry before it reads it: they are lists it passes on.
\<close>

abbreviation (input) ISO_SECTOR_SIZE :: nat where
  "ISO_SECTOR_SIZE \<equiv> 2048"
definition ISO_PRIMARY_VD_SECTOR :: u32 where
  "ISO_PRIMARY_VD_SECTOR = 16"
definition VOL_DESC_TYPE_BOOT :: u8 where
  "VOL_DESC_TYPE_BOOT = 0"
definition VOL_DESC_TYPE_PARTITION :: u8 where
  "VOL_DESC_TYPE_PARTITION = 3"
definition VOL_DESC_TERMINATOR :: u8 where
  "VOL_DESC_TERMINATOR = 255"
definition ISO_BC_HDR_VALIDATION :: u8 where
  "ISO_BC_HDR_VALIDATION = 1"
definition ISO_BC_BOOTABLE_SECTION :: u8 where
  "ISO_BC_BOOTABLE_SECTION = 0x88"
abbreviation (input) ISO9660_MAX_DIR_DEPTH :: nat where
  "ISO9660_MAX_DIR_DEPTH \<equiv> 8"

definition el_torito_magic :: "u8 list" where
  "el_torito_magic = lit ''EL TORITO SPECIFICATION'' @ replicate 16 0"

definition linux_s390_magic :: "u8 list" where
  "linux_s390_magic = [0x02, 0x00, 0x00, 0x18, 0x60, 0x00, 0x00, 0x50, 0x02, 0x00, 0x00, 0x68,
     0x60, 0x00, 0x00, 0x50, 0x40, 0x40, 0x40, 0x40, 0x40, 0x40, 0x40, 0x40, 0x00]"

section \<open>Descriptors and catalog entries\<close>

text \<open>On the bytes of \<open>IsoVolDesc\<close>.\<close>

definition is_iso_vd_valid :: "u8 list \<Rightarrow> bool" where
  "is_iso_vd_valid v \<longleftrightarrow>
     memcmp (slice (offset IsoVolDesc [Fld ''ident'']) 5 v) (lit ''CD001'') = 0 \<and>
     v ! (offset IsoVolDesc [Fld ''version'']) = 1 \<and> v ! (offset IsoVolDesc [Fld ''type'']) \<le> VOL_DESC_TYPE_PARTITION"

text \<open>On the 32 bytes of \<open>IsoBcEntry\<close>.\<close>

definition is_iso_bc_valid :: "u8 list \<Rightarrow> bool" where
  "is_iso_bc_valid e \<longleftrightarrow>
     e ! (offset IsoBcEntry [Fld ''id'']) = ISO_BC_HDR_VALIDATION \<and>
     (let id = e ! (offset IsoBcEntry [Fld ''body'', Fld ''valid'', Fld ''platform_id'']) in id = 0 \<or> id = 1 \<or> id = 2) \<and>
     e ! (offset IsoBcEntry [Fld ''body'', Fld ''valid'', Fld ''key'', Idx 0]) = 0x55 \<and> e ! (offset IsoBcEntry [Fld ''body'', Fld ''valid'', Fld ''key'', Idx 1]) = 0xaa \<and>
     (be (slice (offset IsoBcEntry [Fld ''body'', Fld ''valid'', Fld ''reserved'']) 2 e) :: u16) = 0"

text \<open>A both-endian number, read as 64 bits: the low half is the big-endian copy.\<close>

definition iso_733_to_u32 :: "u64 \<Rightarrow> u32" where
  "iso_733_to_u32 x = ucast x"

definition read_iso_sector :: "'d hw \<Rightarrow> u32 \<Rightarrow> ptr \<Rightarrow> string \<Rightarrow> ('d, unit) fw" where
  "read_iso_sector hw block_offset buf errmsg =
     bnd (virtio_read_many hw (ucast block_offset) buf 1) (\<lambda>rc. IPL_assert hw (rc = 0) (lit errmsg))"

definition read_iso_boot_image :: "'d hw \<Rightarrow> u32 \<Rightarrow> u64 \<Rightarrow> u32 \<Rightarrow> ('d, unit) fw" where
  "read_iso_boot_image hw block_offset load_addr blks_to_load =
     bnd (virtio_read_many hw (ucast block_offset) (Phys load_addr) blks_to_load) (\<lambda>rc.
     IPL_assert hw (rc = 0) (lit ''Failed to read boot image!''))"

text \<open>
  On the bytes of \<open>IsoBcSection\<close>; its numbers are little endian.
\<close>

definition sect_load_segment :: "u8 list \<Rightarrow> u16" where
  "sect_load_segment sect = be (slice (offset IsoBcSection [Fld ''load_segment'']) 2 sect)"

definition sect_sector_count :: "u8 list \<Rightarrow> u16" where
  "sect_sector_count sect = be (slice (offset IsoBcSection [Fld ''sector_count'']) 2 sect)"

definition sect_load_rba :: "u8 list \<Rightarrow> u32" where
  "sect_load_rba sect = be (slice (offset IsoBcSection [Fld ''load_rba'']) 4 sect)"

definition is_iso_bc_entry_compatible :: "'d hw \<Rightarrow> u8 list \<Rightarrow> ('d, bool) fw" where
  "is_iso_bc_entry_compatible hw sect =
     (if sect ! (offset IsoBcSection [Fld ''unused'']) \<noteq> 0 \<or> sect_sector_count sect = 0 then ret False
      else
      seq (read_iso_sector hw (bswap32 (sect_load_rba sect)) (Buf Sec ISO_SECTOR_SIZE)
             ''Failed to read image sector 0'')
     (bnd (load (Buf Sec (ISO_SECTOR_SIZE + 8)) 24) (\<lambda>m.
      ret (memcmp m (take 24 linux_s390_magic) = 0))))"

section \<open>The size of the boot image\<close>

record iso_dirs =
  sec_loc :: "u32 list"
  sec_offset :: "u32 list"
  dir_rem :: "u32 list"

text \<open>The directory record at offset \<open>off\<close> of \<open>temp\<close>, an \<open>IsoDirHdr\<close>.\<close>

definition load_dir_hdr :: "u32 \<Rightarrow> ('d, u8 list) fw" where
  "load_dir_hdr off = load (Buf Sec (ISO_SECTOR_SIZE + unat off)) (sizeof IsoDirHdr)"

definition dr_len :: "u8 list \<Rightarrow> u32" where
  "dr_len r = ucast (r ! (offset IsoDirHdr [Fld ''dr_len'']))"

definition ext_loc :: "u8 list \<Rightarrow> u32" where
  "ext_loc r = iso_733_to_u32 (be (slice (offset IsoDirHdr [Fld ''ext_loc'']) 8 r))"

definition data_len :: "u8 list \<Rightarrow> u32" where
  "data_len r = iso_733_to_u32 (be (slice (offset IsoDirHdr [Fld ''data_len'']) 8 r))"

definition file_flags :: "u8 list \<Rightarrow> u8" where
  "file_flags r = r ! (offset IsoDirHdr [Fld ''file_flags''])"

definition set_loc :: "nat \<Rightarrow> u32 \<Rightarrow> iso_dirs \<Rightarrow> iso_dirs" where
  "set_loc l x d = d\<lparr>sec_loc := (sec_loc d)[l := x]\<rparr>"

definition set_offset :: "nat \<Rightarrow> u32 \<Rightarrow> iso_dirs \<Rightarrow> iso_dirs" where
  "set_offset l x d = d\<lparr>sec_offset := (sec_offset d)[l := x]\<rparr>"

definition set_rem :: "nat \<Rightarrow> u32 \<Rightarrow> iso_dirs \<Rightarrow> iso_dirs" where
  "set_rem l x d = d\<lparr>dir_rem := (dir_rem d)[l := x]\<rparr>"

text \<open>The first sector of a directory: skip the records of itself and of its parent.\<close>

definition enter_dir :: "nat \<Rightarrow> iso_dirs \<Rightarrow> ('d, iso_dirs) fw" where
  "enter_dir level d =
     bnd (load_dir_hdr 0) (\<lambda>r.
     let d = set_rem level (data_len r - dr_len r) d; d = set_offset level (dr_len r) d in
     bnd (load_dir_hdr (dr_len r)) (\<lambda>r'.
     let d = set_rem level (dir_rem d ! level - dr_len r') d in
     ret (set_offset level (sec_offset d ! level + dr_len r') d)))"

text \<open>
  What one round does with the record \<open>r\<close> at the current offset: the file is found, the
  walk goes down, or it goes on at this level (with a warning when a subdirectory lies too
  deep).
\<close>

datatype walk = Found u32 | Down iso_dirs | Stay bool iso_dirs

definition walk_record :: "u32 \<Rightarrow> nat \<Rightarrow> u8 list \<Rightarrow> iso_dirs \<Rightarrow> walk" where
  "walk_record load_rba level r d =
     (let off = sec_offset d ! level in
      if dr_len r = 0 \<or> off = 2048
      then Stay False (set_loc level (sec_loc d ! level + 1) (set_offset level 0
             (set_rem level (dir_rem d ! level - (2048 - off)) d)))
      else if load_rba = ext_loc r then Found (data_len r)
      else
        let d = set_offset level (off + dr_len r) (set_rem level (dir_rem d ! level - dr_len r) d) in
        if flag_on (file_flags r) 0x2
        then if level = ISO9660_MAX_DIR_DEPTH - 1 then Stay True d
             else Down (set_rem (level + 1) 0 (set_offset (level + 1) 0 (set_loc (level + 1) (ext_loc r) d)))
        else Stay False d)"

text \<open>
  The loop, at level \<open>level \<ge> 0\<close>. Going up from level 0 reads \<open>sec_loc[-1]\<close>, which is out
  of bounds, before the loop's condition is tested.
\<close>

partial_function (option) file_size_loop :: "'d hw \<Rightarrow> u32 \<Rightarrow> nat \<Rightarrow> iso_dirs \<Rightarrow> ('d, u32) fw" where
  "file_size_loop hw load_rba level d s =
     seq (IPL_assert hw (sec_offset d ! level \<le> 2048) (lit ''Directory tree structure violation''))
    (seq (whenM (sec_offset d ! level = 0)
       (read_iso_sector hw (sec_loc d ! level) (Buf Sec ISO_SECTOR_SIZE) ''Failed to read ISO directory''))
    (if sec_offset d ! level = 0 \<and> dir_rem d ! level = 0
     then bnd (enter_dir level d) (\<lambda>d'. \<lambda>s. file_size_loop hw load_rba level d' s)
     else
       bnd (load_dir_hdr (sec_offset d ! level)) (\<lambda>r.
       case walk_record load_rba level r d of
         Found n \<Rightarrow> ret n
       | Down d' \<Rightarrow> (\<lambda>s. file_size_loop hw load_rba (level + 1) d' s)
       | Stay deep d' \<Rightarrow>
           seq (whenM deep (sclp_print hw (lit ''ISO-9660 directory depth limit exceeded'' @ [10])))
           (if dir_rem d' ! level = 0
            then if level = 0 then stop (Bad ''sec_loc index'')
                 else seq (read_iso_sector hw (sec_loc d' ! (level - 1)) (Buf Sec ISO_SECTOR_SIZE)
                             ''Failed to read ISO directory'')
                     (\<lambda>s. file_size_loop hw load_rba (level - 1) d' s)
            else (\<lambda>s. file_size_loop hw load_rba level d' s))))) s"

definition iso_get_file_size :: "'d hw \<Rightarrow> u32 \<Rightarrow> ('d, u32) fw" where
  "iso_get_file_size hw load_rba =
     seq (read_iso_sector hw ISO_PRIMARY_VD_SECTOR (Buf Sec 0) ''Failed to read ISO primary descriptor'')
    (bnd (load_u64 (Buf Sec (offset IsoVolDesc [Fld ''vd'', Fld ''primary'', Fld ''rootdir'', Fld ''ext_loc'']))) (\<lambda>x.
     \<lambda>s. file_size_loop hw load_rba 0
       \<lparr>sec_loc = iso_733_to_u32 x # replicate 7 0, sec_offset = replicate 8 0, dir_rem = replicate 8 0\<rparr> s))"

section \<open>Booting\<close>

definition load_iso_bc_entry :: "'d hw \<Rightarrow> u8 list \<Rightarrow> ('d, unit) fw" where
  "load_iso_bc_entry hw sect =
     (let rba = bswap32 (sect_load_rba sect) in
     bnd (iso_get_file_size hw rba) (\<lambda>real_size.
     let blks_to_load = (if real_size \<noteq> 0 then (real_size + 2048 - 1) div 2048
                         else ucast (drop_bit 2 (bswap16 (sect_sector_count sect)))) in
     seq (sclp_print hw (if real_size \<noteq> 0 then lit ''ISO boot image size verified'' @ [10]
                         else lit ''ISO boot image size could not be verified'' @ [10]))
    (seq (read_iso_boot_image hw rba (ucast (bswap16 (sect_load_segment sect))) blks_to_load)
    (jump_to_low_kernel hw))))"

text \<open>The loop over the volume descriptors; the first is in \<open>sec\<close>.\<close>

partial_function (option) vd_loop :: "'d hw \<Rightarrow> u32 \<Rightarrow> ('d, u32) fw" where
  "vd_loop hw block_num s =
     bnd (load (Buf Sec 0) 75) (\<lambda>v.
       if is_iso_vd_valid v \<and> v ! 0 \<noteq> VOL_DESC_TERMINATOR
       then if v ! 0 = VOL_DESC_TYPE_BOOT \<and> memcmp (slice (offset IsoVolDesc [Fld ''vd'', Fld ''boot'', Fld ''el_torito'']) 32 v) (take 32 el_torito_magic) = 0
            then ret (bswap32 (be (slice (offset IsoVolDesc [Fld ''vd'', Fld ''boot'', Fld ''bc_offset'']) 4 v)))
            else seq (read_iso_sector hw block_num (Buf Sec 0) ''Failed to read ISO volume descriptor'')
                     (\<lambda>s. vd_loop hw (block_num + 1) s)
       else ret 0) s"

definition find_iso_bc :: "'d hw \<Rightarrow> ('d, u32) fw" where
  "find_iso_bc hw =
     bnd (virtio_read_many hw (ucast ISO_PRIMARY_VD_SECTOR) (Buf Sec 0) 1) (\<lambda>rc.
     if rc \<noteq> 0 then ret 0 else (\<lambda>s. vd_loop hw (ISO_PRIMARY_VD_SECTOR + 1) s))"

text \<open>
  The scan of the catalog: \<open>n\<close> entries left from \<open>i\<close> on. The result is the body of the
  entry chosen.
\<close>

fun bc_scan :: "'d hw \<Rightarrow> nat \<Rightarrow> nat \<Rightarrow> u32 \<Rightarrow> ('d, u8 list option) fw" where
  "bc_scan hw i 0 loadparm = ret None"
| "bc_scan hw i (Suc n) loadparm =
     bnd (load (Buf Sec (32 * i)) 32) (\<lambda>e.
     if e ! 0 = ISO_BC_BOOTABLE_SECTION
     then bnd (is_iso_bc_entry_compatible hw (drop 1 e)) (\<lambda>ok.
          if ok then if loadparm \<le> 1 then ret (Some (drop 1 e)) else bc_scan hw (Suc i) n (loadparm - 1)
          else bc_scan hw (Suc i) n loadparm)
     else bc_scan hw (Suc i) n loadparm)"

definition find_iso_bc_entry :: "'d hw \<Rightarrow> ('d, u8 list option) fw" where
  "find_iso_bc_entry hw =
     bnd (find_iso_bc hw) (\<lambda>offset.
     bnd (gets get_loadparm_index) (\<lambda>loadparm.
     if offset = 0 then ret None
     else
     seq (read_iso_sector hw offset (Buf Sec 0) ''Failed to read El Torito boot catalog'')
    (bnd (load (Buf Sec 0) 32) (\<lambda>e.
     if \<not> is_iso_bc_valid e then panic hw (lit ''No valid boot catalog found!'' @ [10])
     else bnd (bc_scan hw 1 63 loadparm) (\<lambda>found.
       case found of
         Some sect \<Rightarrow> ret (Some sect)
       | None \<Rightarrow> panic hw (lit ''No suitable boot entry found on ISO-9660 media!'' @ [10]))))))"

definition ipl_iso_el_torito :: "'d hw \<Rightarrow> ('d, unit) fw" where
  "ipl_iso_el_torito hw =
     bnd (find_iso_bc_entry hw) (\<lambda>s.
     case s of Some sect \<Rightarrow> load_iso_bc_entry hw sect | None \<Rightarrow> ret ())"

section \<open>Outcomes\<close>

context exit_contract begin

lemma iso_read_outcome [outcome]:
  "outcome_ok X (read_iso_sector hw n p msg)" "outcome_ok X (read_iso_boot_image hw n a k)"
  "outcome_ok X (is_iso_bc_entry_compatible hw sect)" "outcome_ok X (load_dir_hdr off)"
  "outcome_ok X (enter_dir l dirs)"
  unfolding read_iso_sector_def read_iso_boot_image_def is_iso_bc_entry_compatible_def load_dir_hdr_def
    enter_dir_def
  by (intro outcome)+

lemma outcome_walk [outcome]:
  "(\<And>n. outcome_ok X (f n)) \<Longrightarrow> (\<And>d. outcome_ok X (g d)) \<Longrightarrow> (\<And>b d. outcome_ok X (h b d)) \<Longrightarrow>
     outcome_ok X (case w of Found n \<Rightarrow> f n | Down d \<Rightarrow> g d | Stay b d \<Rightarrow> h b d)"
  by (cases w) simp_all

lemma file_size_loop_outcome [outcome]: "outcome_ok X (file_size_loop hw rba l dirs)"
proof (rule outcome_ok_loopI)
  fix s y
  assume "file_size_loop hw rba l dirs s = Some y"
  then show "outcome_at X s y"
  proof (rule file_size_loop.raw_induct [rotated, of _ _ _ _ _ _ "\<lambda>hw rba l dirs. outcome_at X"], goal_cases)
    case (1 rec hw rba l dirs s y)
    have rec: "outcome_ok X (rec hw rba l dirs)" for hw rba l dirs by (rule outcome_ok_loopI) (rule 1(1))
    show ?case using 1(2) by (rule outcome_bnd_at) (intro outcome rec)+
  qed
qed

lemma iso_get_file_size_outcome [outcome]: "outcome_ok X (iso_get_file_size hw rba)"
  unfolding iso_get_file_size_def by (intro outcome)

lemma vd_loop_outcome [outcome]: "outcome_ok X (vd_loop hw n)"
proof (rule outcome_ok_loopI)
  fix s y
  assume "vd_loop hw n s = Some y"
  then show "outcome_at X s y"
  proof (rule vd_loop.raw_induct [rotated, of _ _ _ _ "\<lambda>hw n. outcome_at X"], goal_cases)
    case (1 rec hw n s y)
    have rec: "outcome_ok X (rec hw n)" for hw n by (rule outcome_ok_loopI) (rule 1(1))
    show ?case using 1(2) by (rule outcome_bnd_at) (intro outcome rec)+
  qed
qed

lemma bc_scan_outcome [outcome]: "outcome_ok X (bc_scan hw i n lp)"
  by (induction n arbitrary: i lp) (simp_all only: bc_scan.simps, (intro outcome | assumption)+)

lemma find_iso_bc_outcome [outcome]: "outcome_ok X (find_iso_bc hw)" "outcome_ok X (find_iso_bc_entry hw)"
  unfolding find_iso_bc_entry_def find_iso_bc_def by (intro outcome)+

end

context boot_contract begin

lemma ipl_iso_outcome [outcome]:
  "outcome_ok X (load_iso_bc_entry hw sect)" "outcome_ok X (ipl_iso_el_torito hw)"
  unfolding ipl_iso_el_torito_def load_iso_bc_entry_def by (intro outcome)+

end

end
