(* ===== verification/Bootmap.thy ===== *)
theory Bootmap
  imports Iso
begin

text \<open>
  Choosing how to boot from a virtio disk: the bus specific sequences and \<open>zipl_load\<close>, the
  end of \<open>bootmap.c\<close>.
\<close>

definition zipl_load_vblk :: "'d hw \<Rightarrow> ('d, unit) fw" where
  "zipl_load_vblk hw =
     bnd (gets virtio_guessed_disk_nature) (\<lambda>nature.
     seq (whenM (nature \<noteq> GDN_NONE) virtio_assume_iso9660)
    (seq (ipl_iso_el_torito hw)
    (bnd (gets virtio_guessed_disk_nature) (\<lambda>nature.
     seq (whenM (nature \<noteq> GDN_NONE)
       (seq (sclp_print hw (lit ''Using guessed DASD geometry.'' @ [10])) virtio_assume_eckd))
    (ipl_eckd hw)))))"

definition zipl_load_vscsi :: "'d hw \<Rightarrow> ('d, unit) fw" where
  "zipl_load_vscsi hw =
     bnd (gets virtio_get_block_size) (\<lambda>bs.
     seq (whenM (bs = VIRTIO_ISO_BLOCK_SIZE) (ipl_iso_el_torito hw))
    (seq (sclp_print hw (lit ''Using guessed DASD geometry.'' @ [10]))
    (seq virtio_assume_eckd
    (ipl_eckd hw))))"

definition zipl_load :: "'d hw \<Rightarrow> ('d, unit) fw" where
  "zipl_load hw =
     bnd (gets (\<lambda>s. is_cdrom (vd s))) (\<lambda>cdrom.
     seq (whenM cdrom
       (seq (ipl_iso_el_torito hw) (panic hw (10 # lit ''! Cannot IPL this ISO image !'' @ [10]))))
    (bnd (gets cu_model) (\<lambda>model.
     seq (whenM (model = VIRTIO_ID_NET)
       (bnd (gets (\<lambda>s. netboot_start_addr (vd s))) (jump_to_IPL_code hw)))
    (seq (ipl_scsi hw)
    (bnd (gets cu_model) (\<lambda>model.
     seq (if model = VIRTIO_ID_BLOCK then zipl_load_vblk hw
          else if model = VIRTIO_ID_SCSI then zipl_load_vscsi hw
          else panic hw (10 # lit ''! Unknown IPL device type !'' @ [10]))
     (sclp_print hw (lit ''zIPL load failed.'' @ [10]))))))))"

section \<open>Outcomes\<close>

context boot_contract begin

lemma zipl_load_outcome [outcome]:
  "outcome_ok X (zipl_load_vblk hw)" "outcome_ok X (zipl_load_vscsi hw)" "outcome_ok X (zipl_load hw)"
  unfolding zipl_load_def zipl_load_vblk_def zipl_load_vscsi_def by (intro outcome)+

end


section \<open>Properties\<close>

text \<open>
  The records of \<open>bootmap.h\<close> have the sizes the boot maps on disk have: a pointer of 16 bytes,
  script and component entries of 32, a stage 1b block of 1024, the boot info of an LDL disk at 0x70,
  catalog entries of 32; the block pointer and component readers take each member from its place.
  The one exception is the ISO volume descriptor: a primary descriptor fills its sector, but the
  declared boot record makes the union, and with it \<open>IsoVolDesc\<close>, one byte longer than a sector.
\<close>

theorem boot_record_layouts:
  "sizeof BootMapPointer = 16 \<and> sizeof ScsiBlockPtr = 16 \<and> sizeof ExtEckdBlockPtr = 16 \<and>
   sizeof BootMapScriptEntry = 32 \<and> sizeof ComponentEntry = 32 \<and> sizeof EckdStage1b = 1024 \<and>
   offset EckdLdlIpl1 [Fld ''bip''] = 0x70 \<and> sizeof IsoBcEntry = 32 \<and>
   offset IsoVolDesc [Fld ''vd''] + sizeof IsoVdPrimary = 2048 \<and> sizeof IsoVolDesc = 2049 \<and>
   block_ptr_of e = \<lparr>chs = \<lparr>cylinder = be (slice (offset EckdBlockPtr [Fld ''chs'', Fld ''cylinder'']) 2 e),
       head = be (slice (offset EckdBlockPtr [Fld ''chs'', Fld ''head'']) 2 e),
       sector = e ! offset EckdBlockPtr [Fld ''chs'', Fld ''sector'']\<rparr>,
     bp_size = be (slice (offset EckdBlockPtr [Fld ''size'']) 2 e), bp_count = e ! offset EckdBlockPtr [Fld ''count'']\<rparr> \<and>
   zipl_load_segment hw entry =
     bnd (load_u64 (Buf TmpSec (entry + offset ComponentEntry [Fld ''data'', Fld ''blockno'']))) (\<lambda>blockno.
     bnd (load_u64 (Buf TmpSec (entry + offset ComponentEntry [Fld ''compdat'', Fld ''load_addr'']))) (\<lambda>address.
     \<lambda>s. zipl_segment_loop hw blockno address s))"
  by (intro conjI) (simp_all add: record_defs block_ptr_of_def chs_of_def zipl_load_segment_def)

end
