(* ===== verification/ZiplBoot.thy ===== *)
theory ZiplBoot
  imports ZiplSections Image Bootmap
begin

text \<open>
  Booting a disk with a SCSI boot map, from block 0 to the hand-over, for any device that keeps
  the contract \<open>block_source\<close>: what the component table of a program and the program table of
  a disk say, and that \<open>zipl_load\<close> boots exactly that.
\<close>

section \<open>Programs\<close>

text \<open>
  The block of a program: a header, then component entries. \<open>pg\<close> is what is in \<open>tmp_sec\<close> after
  it has been read: the block, and behind it what the stack held there.
\<close>

definition program_page :: "'d hw \<Rightarrow> (u64 \<Rightarrow> nat \<Rightarrow> u8 list) \<Rightarrow> s32 \<Rightarrow> u64 \<Rightarrow> u8 list" where
  "program_page hw content bs blk = splice 0 (content blk (unat bs)) (overlay (junk hw 4096) (replicate 4096 0))"

definition comp_type :: "u8 list \<Rightarrow> nat \<Rightarrow> u8" where
  "comp_type pg entry = pg ! (entry + offset ComponentEntry [Fld ''component_type''])"

definition comp_block :: "u8 list \<Rightarrow> nat \<Rightarrow> u64" where
  "comp_block pg entry = be (slice (entry + offset ComponentEntry [Fld ''data'', Fld ''blockno'']) 8 pg)"

definition comp_data :: "u8 list \<Rightarrow> nat \<Rightarrow> u64" where
  "comp_data pg entry = be (slice (entry + offset ComponentEntry [Fld ''compdat'', Fld ''load_addr'']) 8 pg)"

text \<open>Entries to load, signatures skipped, up to the entry with the PSW of the program.\<close>

inductive program_of :: "(u64 \<Rightarrow> nat \<Rightarrow> u8 list) \<Rightarrow> s32 \<Rightarrow> nat \<Rightarrow> u8 list \<Rightarrow> nat \<Rightarrow> segment list \<Rightarrow> u64 \<Rightarrow> bool"
  for content bs limit pg where
  program_exec: "entry + 32 \<le> 4096 \<Longrightarrow> comp_type pg entry = ZIPL_COMP_ENTRY_EXEC \<Longrightarrow> psw = comp_data pg entry \<Longrightarrow>
     program_of content bs limit pg entry [] psw"
| program_signature: "entry + 32 \<le> 4096 \<Longrightarrow> comp_type pg entry = ZIPL_COMP_ENTRY_SIGNATURE \<Longrightarrow>
     program_of content bs limit pg (entry + 32) segs psw \<Longrightarrow> program_of content bs limit pg entry segs psw"
| program_load: "entry + 64 \<le> 4096 \<Longrightarrow> comp_type pg entry = ZIPL_COMP_ENTRY_LOAD \<Longrightarrow> unat (comp_block pg entry) < limit \<Longrightarrow>
     a = comp_data pg entry \<Longrightarrow> segment_of content bs limit (comp_block pg entry) 0 xs \<Longrightarrow>
     program_of content bs limit pg (entry + 32) segs psw \<Longrightarrow> program_of content bs limit pg entry ((a, xs) # segs) psw"

lemma component_layout [simp]:
  "offset ComponentEntry [Fld ''component_type''] = 23" "sizeof ComponentEntry = 32"
  "offset ComponentEntry [Fld ''data'', Fld ''blockno''] = 0"
  "offset ComponentEntry [Fld ''compdat'', Fld ''load_addr''] = 24"
  "offset ComponentEntry [Fld ''compdat'', Fld ''load_psw''] = 24" "sizeof ComponentHeader = 32"
  "offset ComponentHeader [Fld ''type''] = 4"
  by (simp_all add: record_defs)

lemma load_component:
  assumes "bufs t TmpSec = pg" "length pg = 4096" "entry + 32 \<le> 4096"
  shows "load_u8 (Buf TmpSec (entry + 23)) t = Some (Ret (comp_type pg entry), t)"
    "load_u64 (Buf TmpSec entry) t = Some (Ret (comp_block pg entry), t)"
    "load_u64 (Buf TmpSec (entry + 24)) t = Some (Ret (comp_data pg entry), t)"
  using assms by (simp_all add: load_u8_def load_u64_def bnd_def ret_def comp_type_def comp_block_def comp_data_def slice_def hd_drop_conv_nth)

context block_source begin

lemma component_step_load:
  assumes "bufs t TmpSec = pg" "length pg = 4096" "entry + 64 \<le> 4096" "comp_type pg entry = ZIPL_COMP_ENTRY_LOAD"
    and "zipl_segment_loop hw (comp_block pg entry) (comp_data pg entry) t = Some (Ret (), u)"
  shows "component_loop hw entry t = component_loop hw (entry + 32) u"
proof -
  have "zipl_load_segment hw entry t = Some (Ret (), u)"
    using load_component [OF assms(1, 2), of entry] assms(3, 5) by (simp add: zipl_load_segment_def bnd_Ret)
  then show ?thesis
    using load_component [OF assms(1, 2), of entry] assms(3, 4)
    by (subst component_loop.simps) (simp add: bnd_Ret ZIPL_COMP_ENTRY_LOAD_def ZIPL_COMP_ENTRY_SIGNATURE_def)
qed

lemma component_loop_loads:
  assumes "program_of content bs limit pg entry segs psw" "unat bs \<le> 16384" "length pg = 4096"
  shows "ok t \<Longrightarrow> bufs t TmpSec = pg \<Longrightarrow> length (bufs t Sec) = 16384 \<Longrightarrow> list_all (above_low_core (unat bs)) segs \<Longrightarrow>
    \<exists>e u. component_loop hw entry t = Some (Ret e, u) \<and> e + 32 \<le> 4096 \<and> comp_type pg e = ZIPL_COMP_ENTRY_EXEC \<and>
      comp_data pg e = psw \<and> ok u \<and> bufs u TmpSec = pg \<and> mem u = image_mem content (unat bs) segs (mem t)"
  using assms(1)
proof (induction arbitrary: t)
  case (program_exec entry psw)
  then have "component_loop hw entry t = Some (Ret entry, t)"
    using load_component [OF program_exec.prems(2) assms(3) program_exec.hyps(1)]
    by (subst component_loop.simps) (simp add: bnd_Ret ret_def ZIPL_COMP_ENTRY_EXEC_def ZIPL_COMP_ENTRY_LOAD_def ZIPL_COMP_ENTRY_SIGNATURE_def)
  then show ?case using program_exec by auto
next
  case (program_signature entry segs psw)
  have "component_loop hw entry t = component_loop hw (entry + 32) t"
    using load_component [OF program_signature.prems(2) assms(3) program_signature.hyps(1)] program_signature.hyps(2)
    by (subst component_loop.simps) (simp add: bnd_Ret)
  then show ?case using program_signature.IH [OF program_signature.prems] by simp
next
  case (program_load entry a xs segs psw)
  have b: "unat (comp_block pg entry) + 1 \<le> limit" using program_load.hyps(3) by simp
  have sz: "unat (comp_data pg entry) + extents_size (unat bs) xs < 2 ^ 64 - 1"
    using program_load.prems(4) program_load.hyps(4) by simp
  obtain t' where t': "zipl_segment_loop hw (comp_block pg entry) (comp_data pg entry) t = Some (Ret (), t')" "ok t'" "same_disk t t'"
    "mem t' = loaded content (unat bs) xs (comp_data pg entry) (mem t)" "\<forall>c. c \<noteq> Sec \<longrightarrow> bufs t' c = bufs t c"
    using segment_loop_starts [OF program_load.hyps(5) assms(2) program_load.prems(1, 3) b sz] by metis
  have "shape t' = shape t" using outcome_ok_shape [OF any_exit.zipl_segment_loop_outcome t'(1)] .
  then have "length (bufs t' Sec) = 16384" using program_load.prems(3) by (simp add: shape_def fun_eq_iff)
  then show ?case
    using program_load.IH [OF t'(2)] t'(4, 5) program_load.prems(2, 4) program_load.hyps(4)
      component_step_load [OF program_load.prems(2) assms(3) program_load.hyps(1, 2) t'(1)] by simp
qed

lemma zipl_run_boots:
  assumes "ok s" "unat bs \<le> 4096" "length (bufs s Sec) = 16384" "length (bufs s TmpSec) = 4096" "unat blk < limit"
    and "pg = program_page hw content bs blk" "take 4 pg = ZIPL_MAGIC" "pg ! 4 = ZIPL_COMP_HEADER_IPL"
    and "program_of content bs limit pg 32 segs psw" "well_placed (unat bs) segs"
  shows "\<exists>t. zipl_run hw blk s = Some (Stop NormalReset, t) \<and> booted hw content (unat bs) segs psw (mem s) t"
proof -
  define j0 where "j0 = overlay (junk hw 4096) (replicate 4096 0 :: u8 list)"
  define s1 where "s1 = put (Buf TmpSec 0) j0 s"
  have l0: "length j0 = 4096" by (simp add: j0_def)
  then have st: "store (Buf TmpSec 0) j0 s = Some (Ret (), s1)" using assms(4) by (simp add: s1_def)
  have o: "ok s1" unfolding s1_def using assms(4) l0 by (intro put_ok [OF assms(1)]) simp_all
  have pg: "length pg = 4096" using assms(2) by (simp add: assms(6) program_page_def length_content)
  obtain j where "read_block hw blk (Buf TmpSec 0) (lit ''Cannot read header'') s1 =
      Some (Ret (), s\<lparr>bufs := (bufs s)(TmpSec := pg), io := j\<rparr>)" "ok (s\<lparr>bufs := (bufs s)(TmpSec := pg), io := j\<rparr>)"
    using read_into [OF o, of TmpSec blk "lit ''Cannot read header''"] assms(2, 4, 5) l0
    by (auto simp: assms(6) program_page_def s1_def j0_def)
  then obtain u1 where j: "read_block hw blk (Buf TmpSec 0) (lit ''Cannot read header'') s1 = Some (Ret (), u1)" "ok u1"
      "bufs u1 TmpSec = pg" "length (bufs u1 Sec) = 16384" "mem u1 = mem s"
    using assms(3) by simp
  have m: "magic_at (Buf TmpSec 0) ZIPL_MAGIC u1 = Some (Ret True, u1)"
    using pg assms(7) j(3) by (simp add: magic_at_def bnd_def ret_def slice_def magic_match_def ZIPL_MAGIC_def lit_def)
  have ty: "load_u8 (Buf TmpSec 4) u1 = Some (Ret ZIPL_COMP_HEADER_IPL, u1)"
    using pg assms(8) j(3) by (simp add: load_u8_def bnd_def ret_def slice_def hd_drop_conv_nth)
  obtain e u where u: "component_loop hw 32 u1 = Some (Ret e, u)" "e + 32 \<le> 4096" "comp_type pg e = ZIPL_COMP_ENTRY_EXEC"
      "comp_data pg e = psw" "ok u" "bufs u TmpSec = pg" "mem u = image_mem content (unat bs) segs (mem s)"
    using component_loop_loads [OF assms(9) _ pg j(2-4)] assms(2, 10) j(5) by (auto simp: well_placed_def)
  note l = load_component [OF u(6) pg u(2)]
  have "zipl_run hw blk s = jump_to_IPL_code hw 0 (u\<lparr>mem := mem_put 0 (to_be 8 psw) (mem u)\<rparr>)"
    unfolding zipl_run_def j0_def [symmetric]
    by (simp add: bnd_Ret st j(1) m ty u(1) l u(3, 4) write_reset_psw_def del: store.simps)
  moreover have "length (scr (io (u\<lparr>mem := m\<rparr>)) Sccb) = 4096" for m using console [OF u(5)] by simp
  ultimately show ?thesis
    using jump_booted [OF _ length_content assms(10), where u = "u\<lparr>mem := mem_put 0 (to_be 8 psw) (mem u)\<rparr>" and psw = psw and m = "mem s" and hw = hw] u(7) by simp
qed

end

section \<open>Disks\<close>

text \<open>
  What a disk with a SCSI boot map has for the boot entry \<open>lp\<close>: the boot record in block 0 leads
  to the program table, its entry \<open>lp\<close> to a program.
\<close>

definition boot_record :: "(u64 \<Rightarrow> nat \<Rightarrow> u8 list) \<Rightarrow> s32 \<Rightarrow> u64 \<Rightarrow> u8 list" where
  "boot_record content bs blk = filled 16384 content bs blk"

definition table_block :: "u8 list \<Rightarrow> u64" where
  "table_block mbr = be (slice (offset ScsiMbr [Fld ''pt'', Fld ''blockno'']) 8 mbr)"

definition program_block :: "u8 list \<Rightarrow> nat \<Rightarrow> u64" where
  "program_block table lp = be (slice (offset BootMapTable [Fld ''entry'', Idx lp, Fld ''scsi'', Fld ''blockno'']) 8 table)"

definition scsi_boot_map :: "'d hw \<Rightarrow> (u64 \<Rightarrow> nat \<Rightarrow> u8 list) \<Rightarrow> s32 \<Rightarrow> nat \<Rightarrow> nat \<Rightarrow> segment list \<Rightarrow> u64 \<Rightarrow> bool" where
  "scsi_boot_map hw content bs limit lp segs psw \<longleftrightarrow>
     (let mbr = boot_record content bs 0; table = boot_record content bs (table_block mbr);
          blk = program_block table lp; pg = program_page hw content bs blk in
      take 4 mbr = ZIPL_MAGIC \<and> table_block mbr \<noteq> 0 \<and> unat (table_block mbr) < limit \<and>
      take 4 table = ZIPL_MAGIC \<and> lp < MAX_BOOT_ENTRIES \<and> blk \<noteq> 0 \<and> unat blk < limit \<and>
      take 4 pg = ZIPL_MAGIC \<and> pg ! 4 = ZIPL_COMP_HEADER_IPL \<and>
      program_of content bs limit pg 32 segs psw \<and> well_placed (unat bs) segs)"

lemma table_layout [simp]:
  "offset ScsiMbr [Fld ''version_id''] = 4" "offset ScsiMbr [Fld ''pt'', Fld ''blockno''] = 16"
  "offset BootMapTable [Fld ''entry'', Idx i, Fld ''scsi'', Fld ''blockno''] = 16 + 16 * i"
  by (simp_all add: record_defs)

lemma table_in_use:
  assumes "lp < 31" "program_block table lp \<noteq> 0" "512 \<le> length table"
  shows "True \<in> set (table_entries (slice 0 512 table))"
proof -
  have "slice (16 + 16 * lp) 8 (slice 0 512 table) = slice (16 + 16 * lp) 8 table"
    using assms(1, 3) by (intro nth_equalityI) (simp_all add: nth_slice)
  then have "table_entries (slice 0 512 table) ! lp" using assms(1, 2) by (simp add: table_entries_def program_block_def)
  then show ?thesis using assms(1) nth_mem [of lp "table_entries (slice 0 512 table)"] by (simp add: table_entries_def)
qed

context block_source begin

lemma ipl_scsi_runs:
  assumes "ok s" "unat bs \<le> 4096" "length (bufs s Sec) = 16384" "0 < limit" "\<not> menu_is_enabled_enum s"
    and "mbr = boot_record content bs 0" "table = boot_record content bs (table_block mbr)" "lp = unat (get_loadparm_index s)"
    and "take 4 mbr = ZIPL_MAGIC" "table_block mbr \<noteq> 0" "unat (table_block mbr) < limit" "take 4 table = ZIPL_MAGIC"
    and "lp < MAX_BOOT_ENTRIES" "True \<in> set (table_entries (slice 0 512 table))"
  obtains j where "ipl_scsi hw s = zipl_run hw (program_block table lp) (s\<lparr>bufs := (bufs s)(Sec := table), io := j\<rparr>)"
    "ok (s\<lparr>bufs := (bufs s)(Sec := table), io := j\<rparr>)" "length table = 16384"
proof -
  let ?st = "\<lambda>pg j. s\<lparr>bufs := (bufs s)(Sec := pg), io := j\<rparr>"
  have len: "length mbr = 16384" "length table = 16384"
    using assms(2) by (simp_all add: assms(6, 7) boot_record_def length_filled length_content)
  obtain j1 where j1: "seq fill_sec (read_block hw 0 (Buf Sec 0) (lit ''Cannot read block 0'')) s = Some (Ret (), ?st mbr j1)"
      "ok (?st mbr j1)"
    using read_sec [OF assms(1, 3), of 0 "lit ''Cannot read block 0''"] assms(2, 4) by (auto simp: assms(6) boot_record_def)
  obtain j2 where j2: "sclp_print hw (lit ''Using SCSI scheme.'' @ [10]) (?st mbr j1) = Some (Ret (), ?st mbr j2)" "ok (?st mbr j2)"
    using print_ok [OF j1(2), of "lit ''Using SCSI scheme.'' @ [10]"] by (auto simp: lit_def)
  obtain j3 where j3: "IPL_check hw (be (slice 4 4 mbr) = (1 :: u32)) (lit ''Unknown MBR layout version, assuming version 1'') (?st mbr j2) =
      Some (Ret (), ?st mbr j3)" "ok (?st mbr j3)"
    using check_ok [OF j2(2), of "lit ''Unknown MBR layout version, assuming version 1''"] by (auto simp: lit_def)
  have sp: "splice 0 (content (table_block mbr) (unat bs)) mbr = table"
    by (simp add: assms(6, 7) boot_record_def filled_def splice_def length_content)
  obtain j4 where j4: "read_block hw (table_block mbr) (Buf Sec 0) (lit ''Error reading Program Table'') (?st mbr j3) = Some (Ret (), ?st table j4)"
      "ok (?st table j4)"
    using read_into [OF j3(2), of Sec "table_block mbr" "lit ''Error reading Program Table''"] assms(2, 11) len sp by auto
  note l1 = load_Buf [of "?st mbr j" Sec for j, simplified, OF len(1)] and l2 = load_Buf [of "?st table j" Sec for j, simplified, OF len(2)]
  have tb: "be (slice 16 8 mbr) = table_block mbr" "be (slice (16 + 16 * i) 8 table) = program_block table i" for i
    by (simp_all add: table_block_def program_block_def)
  have "ipl_scsi hw s = zipl_run hw (program_block table lp) (?st table j4)"
    using assms(5, 8-14) magic_slice [of mbr] magic_slice [of table]
    by (simp add: ipl_scsi_def seq_seq_Ret [OF j1(1)] bnd_Ret j2(1) j3(1) j4(1) l1 l2 tb len menu_is_enabled_enum_def)
  then show ?thesis using that j4(2) len(2) by blast
qed

lemma ipl_scsi_boots:
  assumes "ok s" "unat bs \<le> 4096" "length (bufs s Sec) = 16384" "length (bufs s TmpSec) = 4096" "0 < limit"
    and "scsi_boot_map hw content bs limit (unat (get_loadparm_index s)) segs psw" "\<not> menu_is_enabled_enum s"
  shows "\<exists>t. ipl_scsi hw s = Some (Stop NormalReset, t) \<and> booted hw content (unat bs) segs psw (mem s) t"
proof -
  define mbr where "mbr = boot_record content bs 0"
  define table where "table = boot_record content bs (table_block mbr)"
  let ?lp = "unat (get_loadparm_index s)"
  note m = assms(6) [unfolded scsi_boot_map_def Let_def mbr_def [symmetric], folded table_def]
  have "512 \<le> length table" using assms(2) by (simp add: table_def boot_record_def length_filled length_content)
  then have "True \<in> set (table_entries (slice 0 512 table))" using table_in_use [of ?lp table] m by simp
  then obtain j where j: "ipl_scsi hw s = zipl_run hw (program_block table ?lp) (s\<lparr>bufs := (bufs s)(Sec := table), io := j\<rparr>)"
    "ok (s\<lparr>bufs := (bufs s)(Sec := table), io := j\<rparr>)" "length table = 16384"
    using ipl_scsi_runs [OF assms(1-3, 5, 7) mbr_def table_def refl] m by blast
  show ?thesis
    using zipl_run_boots [OF j(2) assms(2) _ _ _ refl, of "program_block table ?lp" segs psw] m assms(4) j(1, 3) by simp
qed

text \<open>
  Nothing checks that the entry the LOADPARM asks for is in use: an entry that is not has block
  number 0, and the boot record in block 0 passes for the header of a program.
\<close>

lemma ipl_scsi_unused:
  assumes "ok s" "unat bs \<le> 4096" "length (bufs s Sec) = 16384" "length (bufs s TmpSec) = 4096" "0 < limit" "\<not> menu_is_enabled_enum s"
    and "mbr = boot_record content bs 0" "table = boot_record content bs (table_block mbr)" "lp = unat (get_loadparm_index s)"
    and "take 4 mbr = ZIPL_MAGIC" "table_block mbr \<noteq> 0" "unat (table_block mbr) < limit" "take 4 table = ZIPL_MAGIC"
    and "lp < MAX_BOOT_ENTRIES" "True \<in> set (table_entries (slice 0 512 table))" "program_block table lp = 0" "8 \<le> unat bs"
    and "(be (slice 4 4 mbr) :: u32) = 1" "program_of content bs limit (program_page hw content bs 0) 32 segs psw" "well_placed (unat bs) segs"
  shows "\<exists>t. ipl_scsi hw s = Some (Stop NormalReset, t) \<and> booted hw content (unat bs) segs psw (mem s) t"
proof -
  obtain j where j: "ipl_scsi hw s = zipl_run hw 0 (s\<lparr>bufs := (bufs s)(Sec := table), io := j\<rparr>)"
    "ok (s\<lparr>bufs := (bufs s)(Sec := table), io := j\<rparr>)" "length table = 16384"
    using ipl_scsi_runs [OF assms(1-3, 5-15)] assms(16) by metis
  let ?pg = "program_page hw content bs 0"
  have same: "?pg ! i = mbr ! i" if "i < 8" for i
    using that assms(17) by (simp add: program_page_def assms(7) boot_record_def filled_def splice_def nth_append length_content)
  have l: "length ?pg = 4096" "length mbr = 16384"
    using assms(2) by (simp_all add: program_page_def assms(7) boot_record_def length_filled length_content)
  then have "take 4 ?pg = take 4 mbr" by (intro nth_equalityI) (simp_all add: same)
  moreover have "to_be 4 (be (slice 4 4 mbr) :: u32) = slice 4 4 mbr" using to_be_be [of "slice 4 4 mbr", where ?'a = 32] l by simp
  then have "slice 4 4 mbr ! 0 = to_be 4 (1 :: u32) ! 0" by (simp only: assms(18))
  then have "slice 4 4 mbr ! 0 = 0" by (simp add: to_be_def)
  then have "?pg ! 4 = ZIPL_COMP_HEADER_IPL" using same [of 4] l by (simp add: nth_slice ZIPL_COMP_HEADER_IPL_def)
  ultimately show ?thesis
    using zipl_run_boots [OF j(2) assms(2) _ _ _ refl _ _ assms(19, 20)] assms(4, 5, 10) j(1, 3) by simp
qed

end

section \<open>Properties\<close>

text \<open>
  C1: booting a virtio disk with a SCSI boot map: when the boot record, the program table, the
  program of the entry the LOADPARM names and the lists of pointers of its components are on
  the disk, \<open>zipl_load\<close> ends with the reset that starts the loaded system: every segment of
  the program is at its address, the reset PSW is the one of the program's last entry, the low
  core holds the hand-over data, and nothing else above it has changed.
\<close>

theorem zipl_load_boots_program:
  assumes "block_source hw ok bs limit content" "ok s" "unat bs \<le> 4096" "0 < limit"
    and "length (bufs s Sec) = 16384" "length (bufs s TmpSec) = 4096" "\<not> menu_is_enabled_enum s"
    and "\<not> is_cdrom (vd s)" "cu_model s \<noteq> VIRTIO_ID_NET"
    and "scsi_boot_map hw content bs limit (unat (get_loadparm_index s)) segs psw"
  shows "\<exists>t. zipl_load hw s = Some (Stop NormalReset, t) \<and> booted hw content (unat bs) segs psw (mem s) t"
proof -
  obtain t where t: "ipl_scsi hw s = Some (Stop NormalReset, t)" "booted hw content (unat bs) segs psw (mem s) t"
    using block_source.ipl_scsi_boots [OF assms(1-3, 5, 6, 4, 10, 7)] by blast
  then show ?thesis using assms(8, 9) by (simp add: zipl_load_def bnd_Stop)
qed

text \<open>
  C34: the LOADPARM may name an entry of the program table that is not in use. It has block
  number 0, which nothing refuses: the boot record of version 1 in block 0 is taken for the
  header of a program (the first byte of its version number for the type of the header), and
  what follows it in block 0 is loaded and started as that program.
\<close>

theorem unused_entry_boots_block_0:
  assumes "block_source hw ok bs limit content" "ok s" "unat bs \<le> 4096" "8 \<le> unat bs"
    and "length (bufs s Sec) = 16384" "length (bufs s TmpSec) = 4096" "\<not> menu_is_enabled_enum s"
    and "mbr = boot_record content bs 0" "table = boot_record content bs (table_block mbr)" "lp = unat (get_loadparm_index s)"
    and "take 4 mbr = ZIPL_MAGIC" "(be (slice 4 4 mbr) :: u32) = 1" "table_block mbr \<noteq> 0" "unat (table_block mbr) < limit"
    and "take 4 table = ZIPL_MAGIC" "True \<in> set (table_entries (slice 0 512 table))" "lp < MAX_BOOT_ENTRIES" "program_block table lp = 0"
    and "program_of content bs limit (program_page hw content bs 0) 32 segs psw" "well_placed (unat bs) segs"
  shows "\<exists>t. ipl_scsi hw s = Some (Stop NormalReset, t) \<and> booted hw content (unat bs) segs psw (mem s) t"
  using assms(14) by (intro block_source.ipl_scsi_unused [OF assms(1-3, 5, 6) _ assms(7-11, 13-15, 17, 16, 18, 4, 12, 19, 20)]) simp

text \<open>
  A disk with a boot map: the table in block 2, entry 0 of it leads to the program in block 3,
  whose one component is described in block 5 and consists of block 9. Block 0 has bytes behind
  the boot record that read as the last entry of a program.
\<close>

definition map_bytes :: "(u64 \<times> u8) list" where
  "map_bytes = [(0x0, 0x7a), (0x1, 0x49), (0x2, 0x50), (0x3, 0x4c), (0x7, 1), (0x17, 2), (0x37, 1), (0x3f, 7),
     (0x2000, 0x7a), (0x2001, 0x49), (0x2002, 0x50), (0x2003, 0x4c), (0x2017, 3),
     (0x3000, 0x7a), (0x3001, 0x49), (0x3002, 0x50), (0x3003, 0x4c), (0x3027, 5), (0x3037, 2), (0x303d, 2),
     (0x3057, 1), (0x305c, 0x80), (0x305d, 1), (0x5007, 9), (0x5008, 0x10), (0x9000, 42)]"

definition map_disk :: "u64 \<Rightarrow> u8" where
  "map_disk x = (case map_of map_bytes x of Some b \<Rightarrow> b | None \<Rightarrow> 0)"

lemma program_page_4k: "program_page hw (disk_content d 4096) 4096 b = mem_get d (b * 0x1000) 4096"
  by (simp add: program_page_def disk_content_4k splice_def)

lemma comp_mem_get:
  "entry + 32 \<le> n \<Longrightarrow> comp_type (mem_get d a n) entry = d (a + word_of_nat (entry + 23))"
  "entry + 32 \<le> n \<Longrightarrow> comp_block (mem_get d a n) entry = be (mem_get d (a + word_of_nat entry) 8)"
  "entry + 32 \<le> n \<Longrightarrow> comp_data (mem_get d a n) entry = be (mem_get d (a + word_of_nat (entry + 24)) 8)"
  by (simp_all add: comp_type_def comp_block_def comp_data_def slice_mem_get)

lemmas map_simps = map_disk_def map_bytes_def byte_simps ZIPL_MAGIC_def lit_def

lemma map_disk_program:
  "program_of (disk_content map_disk 4096) 4096 (2 ^ 65) (mem_get map_disk 0x3000 4096) 32 [(0x20000, [(9, 1)])] 0x80010000"
proof -
  let ?pg = "mem_get map_disk 0x3000 4096"
  have c: "comp_type ?pg 32 = ZIPL_COMP_ENTRY_LOAD" "comp_type ?pg 64 = ZIPL_COMP_ENTRY_EXEC"
    by (simp_all add: comp_mem_get map_disk_def map_bytes_def ZIPL_COMP_ENTRY_LOAD_def ZIPL_COMP_ENTRY_EXEC_def)
  have b: "comp_block ?pg 32 = 5" "comp_data ?pg 32 = 0x20000" "comp_data ?pg 64 = 0x80010000"
    by (simp_all add: comp_mem_get) (simp_all add: map_simps)
  have "segment_of (disk_content map_disk 4096) 4096 (2 ^ 65) 5 0 [(9, 1)]"
  proof -
    let ?p = "ptrs (disk_content map_disk 4096) 4096 5"
    have p0: "scsi_ptr ?p 0 = [0, 0, 0, 0, 0, 0, 0, 9, 0x10, 0, 0, 0, 0, 0, 0, 0]" and p1: "scsi_ptr ?p 1 = [0, 0, 0, 0, 0, 0, 0, 0, 0, 0, 0, 0, 0, 0, 0, 0]"
      by (simp_all add: scsi_ptr_def slice_filled_4k) (simp_all add: map_simps)
    have "\<not> goes_on ?p 0" using p1 by (simp add: goes_on_def unused_space_def FREE_SPACE_FILLER_def)
    moreover have "segment_of (disk_content map_disk 4096) 4096 (2 ^ 65) 5 1 []"
      by (rule segment_end) (simp_all add: p1 [simplified] p_block_def be_def slice_def)
    ultimately show ?thesis
      by (intro segment_extent [OF refl]) (simp_all add: p0 p_block_def p_size_def p_count_def slice_def be_def)
  qed
  then show ?thesis using b c by (intro program_load program_exec) simp_all
qed

lemma map_disk_boots: "scsi_boot_map (hw :: 'd hw) (disk_content map_disk 4096) 4096 (2 ^ 65) 0 [(0x20000, [(9, 1)])] 0x80010000"
proof -
  define mbr where "mbr = boot_record (disk_content map_disk 4096) 4096 0"
  define table where "table = boot_record (disk_content map_disk 4096) 4096 2"
  have t: "take 4 x = slice 0 4 x" for x :: "u8 list" by (simp add: slice_def)
  have m: "take 4 mbr = ZIPL_MAGIC" "table_block mbr = 2" "take 4 table = ZIPL_MAGIC" "program_block table 0 = 3"
    unfolding t mbr_def table_def boot_record_def table_block_def program_block_def
    by (simp_all add: slice_filled_4k) (simp_all add: map_simps)
  have p: "take 4 (mem_get map_disk 0x3000 4096) = ZIPL_MAGIC" "mem_get map_disk 0x3000 4096 ! 4 = ZIPL_COMP_HEADER_IPL"
    unfolding t by (simp_all add: slice_mem_get) (simp_all add: map_simps ZIPL_COMP_HEADER_IPL_def)
  show ?thesis
    unfolding scsi_boot_map_def Let_def mbr_def [symmetric] m(2) table_def [symmetric] m(4) program_page_4k
    using m p map_disk_program by (simp add: extents_size_def)
qed

theorem zipl_load_boots_program_witness:
  "\<exists>t. zipl_load (disk_hw map_disk) disk_machine = Some (Stop NormalReset, t) \<and> mem t 0x20000 = 42 \<and>
     mem_get (mem t) 0 8 = to_be 8 (0x80010000 :: u64)"
proof -
  have h: "block_source (disk_hw map_disk :: nat hw) (\<lambda>s. blk_ready s \<and> virtio_get_block_size s = 4096) 4096 (2 ^ 65)
      (disk_content map_disk 4096)" by (rule disk_hw.blocks.block_source_axioms)
  note d = disk_machine_settings
  obtain t where t: "zipl_load (disk_hw map_disk) disk_machine = Some (Stop NormalReset, t)"
    "booted (disk_hw map_disk) (disk_content map_disk 4096) 4096 [(0x20000, [(9, 1)])] 0x80010000 (mem disk_machine) t"
    using zipl_load_boots_program [OF h _ _ _ d(6, 7, 1, 3, 4)] map_disk_boots [of "disk_hw map_disk :: nat hw"] disk_machine_ready(1, 2) d(5)
    by fastforce
  have b: "mem_get (mem t) 0x20000 4096 = mem_get map_disk 0x9000 4096" "mem_get (mem t) 0 8 = to_be 8 (0x80010000 :: u64)"
    using t(2) by (simp_all add: booted_def extents_size_def disk_content_4k del: mem_get_numeral)
  have "mem t 0x20000 = map_disk 0x9000" using arg_cong [OF b(1), of "\<lambda>xs. xs ! 0"] by simp
  then show ?thesis using t(1) b(2) by (simp add: map_disk_def map_bytes_def)
qed

definition second_entry_machine :: "nat machine" where
  "second_entry_machine = disk_machine\<lparr>loadparm_str := [49, 0, 0, 0, 0, 0, 0, 0, 0]\<rparr>"

theorem unused_entry_boots_block_0_witness:
  "\<exists>t. ipl_scsi (disk_hw map_disk) second_entry_machine = Some (Stop NormalReset, t) \<and> mem_get (mem t) 0 8 = to_be 8 (7 :: u64)"
proof -
  have h: "block_source (disk_hw map_disk :: nat hw) (\<lambda>s. blk_ready s \<and> virtio_get_block_size s = 4096) 4096 (2 ^ 65)
      (disk_content map_disk 4096)" by (rule disk_hw.blocks.block_source_axioms)
  have r: "blk_ready second_entry_machine" "virtio_get_block_size second_entry_machine = 4096"
      "length (bufs second_entry_machine Sec) = 16384" "length (bufs second_entry_machine TmpSec) = 4096"
      "\<not> menu_is_enabled_enum second_entry_machine"
    using disk_machine_ready(1, 2) disk_machine_settings
    by (simp_all add: second_entry_machine_def blk_ready_def rings_idle_def idle_def Let_def cu_model_def virtio_get_block_size_def
      blk_physical_block_exp_def blk_blk_size_def menu_is_enabled_enum_def)
  have lp: "1 = unat (get_loadparm_index second_entry_machine)"
    by (simp add: second_entry_machine_def get_loadparm_index_def atoui_def isdigit_def)
  define mbr where "mbr = boot_record (disk_content map_disk 4096) 4096 0"
  define table where "table = boot_record (disk_content map_disk 4096) 4096 2"
  have tk: "take 4 x = slice 0 4 x" for x :: "u8 list" by (simp add: slice_def)
  have m: "take 4 mbr = ZIPL_MAGIC" "(be (slice 4 4 mbr) :: u32) = 1" "table_block mbr = 2" "take 4 table = ZIPL_MAGIC" "program_block table 1 = 0"
      "program_block table 0 = 3"
    unfolding tk mbr_def table_def boot_record_def table_block_def program_block_def
    by (simp_all add: slice_filled_4k) (simp_all add: map_simps)
  have "512 \<le> length table" by (simp add: table_def boot_record_def length_filled disk_content_def)
  then have u: "True \<in> set (table_entries (slice 0 512 table))" using table_in_use [of 0 table] m(6) by simp
  have "comp_type (mem_get map_disk 0 4096) 32 = ZIPL_COMP_ENTRY_EXEC" "comp_data (mem_get map_disk 0 4096) 32 = 7"
    by (simp_all add: comp_mem_get) (simp_all add: map_simps ZIPL_COMP_ENTRY_EXEC_def)
  then have pr: "program_of (disk_content map_disk 4096) 4096 (2 ^ 65) (program_page (disk_hw map_disk :: nat hw) (disk_content map_disk 4096) 4096 0) 32 [] 7"
    unfolding program_page_4k by (intro program_exec) simp_all
  have "\<exists>t. ipl_scsi (disk_hw map_disk) second_entry_machine = Some (Stop NormalReset, t) \<and>
      booted (disk_hw map_disk) (disk_content map_disk 4096) (unat (4096 :: s32)) [] 7 (mem second_entry_machine) t"
    by (rule unused_entry_boots_block_0 [OF h _ _ _ r(3-5) mbr_def _ lp m(1, 2) _ _ m(4) u _ m(5) pr])
      (use r m(3) in \<open>simp_all add: table_def\<close>)
  then show ?thesis by (auto simp: booted_def)
qed

end
