(* ===== verification/EckdBoot.thy ===== *)
theory EckdBoot
  imports Image
begin

text \<open>
  Booting an ECKD disk, in any of the layouts the loader knows, from block 0 to the hand-over, for any
  device that keeps the contract \<open>block_source\<close>: what the sections, the boot script and the boot map
  table say, and that \<open>ipl_eckd\<close> boots exactly that.
\<close>

section \<open>Chains of sections\<close>

text \<open>
  The extents of a script entry: one section after the other, until one ends with a pointer
  that names no block.
\<close>

inductive chain_of :: "(u64 \<Rightarrow> nat \<Rightarrow> u8 list) \<Rightarrow> s32 \<Rightarrow> nat \<Rightarrow> 'd machine \<Rightarrow> u64 \<Rightarrow> (u64 \<times> nat) list \<Rightarrow> bool"
  for content bs limit s where
  chain_end: "section_of content bs limit s blk 0 xs e \<Longrightarrow> unat blk < limit \<Longrightarrow> is_null_block_number e \<Longrightarrow>
     chain_of content bs limit s blk xs"
| chain_next: "section_of content bs limit s blk 0 xs e \<Longrightarrow> unat blk < limit \<Longrightarrow> \<not> is_null_block_number e \<Longrightarrow>
     chain_of content bs limit s e ys \<Longrightarrow> chain_of content bs limit s blk (xs @ ys)"

context block_source begin

lemma load_section:
  assumes "section_of content bs limit s blk 0 xs e" "unat blk < limit" "unat bs \<le> 8192"
    and "ok t" "same_disk s t" "length (bufs t Bprs) = 8192"
  obtains u where "load_eckd_segments hw blk a t = Some (Ret (e, a + word_of_nat (extents_size (unat bs) xs)), u)" "ok u"
    "same_disk s u" "mem u = loaded content (unat bs) xs a (mem t)" "\<forall>c. c \<noteq> Bprs \<longrightarrow> bufs u c = bufs t c" "length (bufs u Bprs) = 8192"
proof -
  have b: "unat blk + 1 \<le> limit" using assms(2) by simp
  obtain t' where t': "seq fill_bprs (read_block hw blk (Buf Bprs 0) (lit ''BPRS read failed'')) t = Some (Ret (), t')"
    "ok t'" "same_disk t t'" "mem t' = mem t" "bufs t' Bprs = page content bs blk" "\<forall>c. c \<noteq> Bprs \<longrightarrow> bufs t' c = bufs t c"
    using read_page [OF assms(4, 6, 3) b] by metis
  have "load_eckd_segments hw blk a t =
      bnd (seq fill_bprs (read_block hw blk (Buf Bprs 0) (lit ''BPRS read failed''))) (\<lambda>_ s. segments_loop hw 0 a s) t"
    by (simp add: load_eckd_segments_def bnd_assoc)
  also have "\<dots> = segments_loop hw 0 a t'" using t'(1) by (simp add: bnd_Ret)
  finally have r: "load_eckd_segments hw blk a t = segments_loop hw 0 a t'" .
  obtain u where u: "segments_loop hw 0 a t' = Some (Ret (e, a + word_of_nat (extents_size (unat bs) xs)), u)" "ok u"
    "same_disk s u" "mem u = loaded content (unat bs) xs a (mem t')" "\<forall>c. c \<noteq> Bprs \<longrightarrow> bufs u c = bufs t' c"
    using segments_loop_loads [OF assms(1, 3) t'(2) same_disk_trans [OF assms(5) t'(3)] t'(5)] by metis
  have "shape u = shape t'" using outcome_ok_shape [OF any_exit.segments_loop_outcome u(1)] .
  then have "length (bufs u Bprs) = 8192"
    using t'(5) assms(3) length_filled [where content = content, OF length_content] by (simp add: shape_def fun_eq_iff)
  then show ?thesis using that [OF _ u(2, 3)] r u(1, 4, 5) t'(4, 6) by simp
qed

lemma chain_loads:
  assumes "chain_of content bs limit s blk xs" "unat bs \<le> 8192"
  shows "ok t \<Longrightarrow> same_disk s t \<Longrightarrow> length (bufs t Bprs) = 8192 \<Longrightarrow>
    \<exists>u. section_loop hw blk a t = Some (Ret (), u) \<and> ok u \<and> same_disk s u \<and>
      mem u = loaded content (unat bs) xs a (mem t) \<and> (\<forall>c. c \<noteq> Bprs \<longrightarrow> bufs u c = bufs t c) \<and> length (bufs u Bprs) = 8192"
  using assms(1)
proof (induction arbitrary: t a)
  case (chain_end blk xs e)
  obtain u where u: "load_eckd_segments hw blk a t = Some (Ret (e, a + word_of_nat (extents_size (unat bs) xs)), u)" "ok u"
    "same_disk s u" "mem u = loaded content (unat bs) xs a (mem t)" "\<forall>c. c \<noteq> Bprs \<longrightarrow> bufs u c = bufs t c" "length (bufs u Bprs) = 8192"
    using load_section [OF chain_end.hyps(1, 2) assms(2) chain_end.prems] by metis
  have "section_loop hw blk a t = Some (Ret (), u)"
    using u(1) chain_end.hyps(3) by (subst section_loop.simps) (simp add: bnd_Ret ret_def)
  then show ?case using u by blast
next
  case (chain_next blk xs e ys)
  obtain u where u: "load_eckd_segments hw blk a t = Some (Ret (e, a + word_of_nat (extents_size (unat bs) xs)), u)" "ok u"
    "same_disk s u" "mem u = loaded content (unat bs) xs a (mem t)" "\<forall>c. c \<noteq> Bprs \<longrightarrow> bufs u c = bufs t c" "length (bufs u Bprs) = 8192"
    using load_section [OF chain_next.hyps(1, 2) assms(2) chain_next.prems] by metis
  have "section_loop hw blk a t = section_loop hw e (a + word_of_nat (extents_size (unat bs) xs)) u"
    using u(1) chain_next.hyps(3) by (subst section_loop.simps) (simp add: bnd_Ret)
  then show ?case using chain_next.IH [OF u(2, 3, 6), of "a + word_of_nat (extents_size (unat bs) xs)"] u(4, 5) by (simp add: loaded_append)
qed

end

section \<open>Boot scripts\<close>

definition script_kind :: "u8 list \<Rightarrow> nat \<Rightarrow> u8" where
  "script_kind pg i = pg ! offset BootMapScript [Fld ''entry'', Idx i, Fld ''type'']"

definition script_addr :: "u8 list \<Rightarrow> nat \<Rightarrow> u64" where
  "script_addr pg i = be (slice (offset BootMapScript [Fld ''entry'', Idx i, Fld ''address'']) 8 pg)"

definition script_chs :: "u8 list \<Rightarrow> nat \<Rightarrow> eckd_chs" where
  "script_chs pg i = chs_of (slice (offset BootMapScript [Fld ''entry'', Idx i, Fld ''blkptr'', Fld ''xeckd'', Fld ''bptr'', Fld ''chs'']) 5 pg)"

lemma script_layout [simp]:
  "offset BootMapScript [Fld ''entry'', Idx i, Fld ''type''] = 32 * i + 55"
  "offset BootMapScript [Fld ''entry'', Idx i, Fld ''address''] = 32 * i + 56"
  "offset BootMapScript [Fld ''entry'', Idx i, Fld ''blkptr'', Fld ''xeckd'', Fld ''bptr'', Fld ''chs''] = 32 * i + 32"
  by (simp_all add: record_defs)

text \<open>Entries to load, signatures skipped, up to the entry with the PSW.\<close>

inductive script_of :: "(u64 \<Rightarrow> nat \<Rightarrow> u8 list) \<Rightarrow> s32 \<Rightarrow> nat \<Rightarrow> 'd machine \<Rightarrow> u8 list \<Rightarrow> nat \<Rightarrow> segment list \<Rightarrow> u64 \<Rightarrow> bool"
  for content bs limit s pg where
  script_exec: "32 * i + 64 \<le> 16384 \<Longrightarrow> script_kind pg i = BOOT_SCRIPT_EXEC \<Longrightarrow> psw = script_addr pg i \<Longrightarrow>
     script_of content bs limit s pg i [] psw"
| script_signature: "32 * i + 64 \<le> 16384 \<Longrightarrow> script_kind pg i = BOOT_SCRIPT_SIGNATURE \<Longrightarrow>
     script_of content bs limit s pg (i + 1) segs psw \<Longrightarrow> script_of content bs limit s pg i segs psw"
| script_load: "32 * i + 64 \<le> 16384 \<Longrightarrow> script_kind pg i = BOOT_SCRIPT_LOAD \<Longrightarrow> a = script_addr pg i \<Longrightarrow>
     chain_of content bs limit s (eckd_block_num (script_chs pg i) s) xs \<Longrightarrow>
     script_of content bs limit s pg (i + 1) segs psw \<Longrightarrow> script_of content bs limit s pg i ((a, xs) # segs) psw"

lemma load_script:
  assumes "bufs t Sec = pg" "length pg = 16384" "32 * i + 64 \<le> 16384"
  shows "load_u8 (Buf Sec (32 * i + 55)) t = Some (Ret (script_kind pg i), t)"
    "load_u64 (Buf Sec (32 * i + 56)) t = Some (Ret (script_addr pg i), t)"
    "load (Buf Sec (32 * i + 32)) 5 t = Some (Ret (slice (32 * i + 32) 5 pg), t)"
  using assms by (simp_all add: load_u8_def load_u64_def bnd_def ret_def script_kind_def script_addr_def slice_def hd_drop_conv_nth)

context block_source begin

lemma script_step_load:
  assumes "bufs t Sec = pg" "length pg = 16384" "32 * i + 64 \<le> 16384" "script_kind pg i = BOOT_SCRIPT_LOAD"
    and "section_loop hw (eckd_block_num (script_chs pg i) t) (script_addr pg i) t = Some (Ret (), u)"
  shows "script_loop hw i t = script_loop hw (i + 1) u"
  using load_script [OF assms(1-3)] assms(4, 5)
  by (subst script_loop.simps) (simp add: bnd_Ret BOOT_SCRIPT_LOAD_def BOOT_SCRIPT_SIGNATURE_def script_chs_def)

lemma script_loop_loads:
  assumes "script_of content bs limit s pg i segs psw" "unat bs \<le> 8192" "length pg = 16384"
  shows "ok t \<Longrightarrow> same_disk s t \<Longrightarrow> bufs t Sec = pg \<Longrightarrow> length (bufs t Bprs) = 8192 \<Longrightarrow>
    \<exists>e u. script_loop hw i t = Some (Ret e, u) \<and> 32 * e + 64 \<le> 16384 \<and> script_kind pg e = BOOT_SCRIPT_EXEC \<and>
      script_addr pg e = psw \<and> ok u \<and> bufs u Sec = pg \<and> mem u = image_mem content (unat bs) segs (mem t)"
  using assms(1)
proof (induction arbitrary: t)
  case (script_exec i psw)
  then have "script_loop hw i t = Some (Ret i, t)"
    using load_script [OF script_exec.prems(3) assms(3) script_exec.hyps(1)]
    by (subst script_loop.simps) (simp add: bnd_Ret ret_def BOOT_SCRIPT_EXEC_def BOOT_SCRIPT_LOAD_def BOOT_SCRIPT_SIGNATURE_def)
  then show ?case using script_exec by auto
next
  case (script_signature i segs psw)
  have "script_loop hw i t = script_loop hw (i + 1) t"
    using load_script [OF script_signature.prems(3) assms(3) script_signature.hyps(1)] script_signature.hyps(2)
    by (subst script_loop.simps) (simp add: bnd_Ret)
  then show ?case using script_signature.IH [OF script_signature.prems] by simp
next
  case (script_load i a xs segs psw)
  obtain u where u: "section_loop hw (eckd_block_num (script_chs pg i) s) (script_addr pg i) t = Some (Ret (), u)" "ok u" "same_disk s u"
    "mem u = loaded content (unat bs) xs (script_addr pg i) (mem t)" "\<forall>c. c \<noteq> Bprs \<longrightarrow> bufs u c = bufs t c" "length (bufs u Bprs) = 8192"
    using chain_loads [OF script_load.hyps(4) assms(2) script_load.prems(1, 2, 4)] by metis
  have "script_loop hw i t = script_loop hw (i + 1) u"
    using script_step_load [OF script_load.prems(3) assms(3) script_load.hyps(1, 2)] u(1) same_disk_geometry(4) [OF script_load.prems(2)] by simp
  then show ?case
    using script_load.IH [OF u(2, 3) _ u(6)] u(4, 5) script_load.prems(3) script_load.hyps(3) by simp
qed

end

section \<open>Disks\<close>

text \<open>
  What the boot map table in block \<open>bmt\<close> says of entry \<open>lp\<close>: the address of a script. The
  loader asks for no magic in either block.
\<close>

definition eckd_boot_map ::
  "(u64 \<Rightarrow> nat \<Rightarrow> u8 list) \<Rightarrow> s32 \<Rightarrow> nat \<Rightarrow> 'd machine \<Rightarrow> u64 \<Rightarrow> nat \<Rightarrow> segment list \<Rightarrow> u64 \<Rightarrow> bool" where
  "eckd_boot_map content bs limit s bmt lp segs psw \<longleftrightarrow>
     (let table = filled 16384 content bs bmt;
          blk = eckd_block_num (chs_of (slice (offset BootMapTable [Fld ''entry'', Idx lp, Fld ''xeckd'', Fld ''bptr'', Fld ''chs'']) 5 table)) s in
      unat bmt < limit \<and> lp < MAX_BOOT_ENTRIES \<and> blk \<noteq> -1 \<and> unat blk < limit \<and>
      script_of content bs limit s (filled 16384 content bs blk) 0 segs psw \<and> well_placed (unat bs) segs)"

text \<open>
  Block 1, the boot record, and block 2, the volume label, of a disk in compatible disk layout,
  and the block of the boot map table that the boot record names.
\<close>

definition cdl_table :: "'d machine \<Rightarrow> u8 list \<Rightarrow> u64" where
  "cdl_table s ipl2 = eckd_block_num
     (chs_of (slice (offset EckdCdlIpl2 [Fld ''mbr'', Fld ''blockptr'', Fld ''xeckd'', Fld ''bptr'', Fld ''chs'']) 5 ipl2)) s"

definition cdl_records :: "u8 list \<Rightarrow> u8 list \<Rightarrow> s32 \<Rightarrow> bool" where
  "cdl_records ipl2 label bs \<longleftrightarrow>
     slice (offset EckdCdlIpl2 [Fld ''mbr'', Fld ''magic'']) 4 ipl2 = ZIPL_MAGIC \<and>
     ucast (be (slice (offset EckdCdlIpl2 [Fld ''mbr'', Fld ''blockptr'', Fld ''xeckd'', Fld ''bptr'', Fld ''size'']) 2 ipl2) :: u16) = bs \<and>
     ipl2 ! offset EckdCdlIpl2 [Fld ''mbr'', Fld ''dev_type''] = 0 \<and>
     slice (offset IplVolumeLabel [Fld ''key'']) 4 label = VOL1_MAGIC \<and>
     slice (offset IplVolumeLabel [Fld ''u'', Fld ''f'', Fld ''key'']) 4 label = VOL1_MAGIC"

text \<open>Block 0 of a disk in Linux disk layout, and the block of its boot map table.\<close>

definition ldl_table :: "'d machine \<Rightarrow> u8 list \<Rightarrow> u64" where
  "ldl_table s ipl1 = eckd_block_num
     (chs_of (slice (offset EckdLdlIpl1 [Fld ''bip'', Fld ''bp'', Fld ''ipl'', Fld ''bm_ptr'', Fld ''eckd'', Fld ''bptr'', Fld ''chs'']) 5 ipl1)) s"

definition ldl_record :: "u8 list \<Rightarrow> s32 \<Rightarrow> bool" where
  "ldl_record ipl1 bs \<longleftrightarrow>
     (let b = slice (offset EckdLdlIpl1 [Fld ''bip'']) 16 ipl1 in
      take 4 b = ZIPL_MAGIC \<and> b ! offset BootInfo [Fld ''version''] = 1 \<and> b ! offset BootInfo [Fld ''bp_type''] = 0 \<and>
      b ! offset BootInfo [Fld ''dev_type''] = 0 \<and> b ! offset BootInfo [Fld ''flags''] = 1 \<and>
      be (slice (offset BootInfo [Fld ''bp'', Fld ''ipl'', Fld ''bm_ptr'', Fld ''eckd'', Fld ''bptr'', Fld ''size'']) 2 b) = bs)"

text \<open>
  The layouts of an ECKD disk, and where the boot map table is: compatible layout with the key
  of block 0, Linux layout with the label of block 2 (of CMS or of Linux) or without one, and
  compatible layout without the key.
\<close>

inductive eckd_disk :: "(u64 \<Rightarrow> nat \<Rightarrow> u8 list) \<Rightarrow> s32 \<Rightarrow> 'd machine \<Rightarrow> u64 \<Rightarrow> bool" for content bs s where
  disk_cdl: "take 4 (filled 16384 content bs 0) = IPL1_MAGIC \<Longrightarrow> ipl2 = filled 16384 content bs 1 \<Longrightarrow>
     cdl_records ipl2 (filled 16384 content bs 2) bs \<Longrightarrow> eckd_disk content bs s (cdl_table s ipl2)"
| disk_labeled: "ipl1 = filled 16384 content bs 0 \<Longrightarrow> take 4 ipl1 \<noteq> IPL1_MAGIC \<Longrightarrow>
     take 4 (filled 16384 content bs 2) = CMS1_MAGIC \<or> take 4 (filled 16384 content bs 2) = LNX1_MAGIC \<Longrightarrow>
     ldl_record ipl1 bs \<Longrightarrow> eckd_disk content bs s (ldl_table s ipl1)"
| disk_unlabeled: "ipl1 = filled 16384 content bs 0 \<Longrightarrow> take 4 ipl1 \<noteq> IPL1_MAGIC \<Longrightarrow>
     take 4 (filled 16384 content bs 2) \<noteq> CMS1_MAGIC \<Longrightarrow> take 4 (filled 16384 content bs 2) \<noteq> LNX1_MAGIC \<Longrightarrow>
     ldl_record ipl1 bs \<Longrightarrow> eckd_disk content bs s (ldl_table s ipl1)"
| disk_keyless: "ipl1 = filled 16384 content bs 0 \<Longrightarrow> take 4 ipl1 \<noteq> IPL1_MAGIC \<Longrightarrow>
     take 4 (filled 16384 content bs 2) \<noteq> CMS1_MAGIC \<Longrightarrow> take 4 (filled 16384 content bs 2) \<noteq> LNX1_MAGIC \<Longrightarrow>
     slice (offset EckdLdlIpl1 [Fld ''bip'', Fld ''magic'']) 4 ipl1 \<noteq> ZIPL_MAGIC \<Longrightarrow> ipl2 = filled 16384 content bs 1 \<Longrightarrow>
     cdl_records ipl2 (filled 16384 content bs 2) bs \<Longrightarrow> eckd_disk content bs s (cdl_table s ipl2)"

lemma eckd_layout [simp]:
  "offset BootMapTable [Fld ''entry'', Idx i, Fld ''xeckd'', Fld ''bptr'', Fld ''chs''] = 16 + 16 * i"
  "offset EckdCdlIpl2 [Fld ''mbr'', Fld ''magic''] = 92"
  "offset EckdCdlIpl2 [Fld ''mbr'', Fld ''dev_type''] = 98"
  "offset EckdCdlIpl2 [Fld ''mbr'', Fld ''blockptr'', Fld ''xeckd'', Fld ''bptr'', Fld ''chs''] = 100"
  "offset EckdCdlIpl2 [Fld ''mbr'', Fld ''blockptr'', Fld ''xeckd'', Fld ''bptr'', Fld ''size''] = 105"
  "offset EckdCdlIpl2 [Fld ''stage1'', Fld ''seek'', Idx 0, Fld ''chs''] = 78"
  "offset IplVolumeLabel [Fld ''key''] = 0" "offset IplVolumeLabel [Fld ''u'', Fld ''f'', Fld ''key''] = 4"
  "offset IplVolumeLabel [Fld ''u'', Fld ''f'', Fld ''volser''] = 8"
  "offset EckdLdlIpl1 [Fld ''bip''] = 112" "offset EckdLdlIpl1 [Fld ''bip'', Fld ''magic''] = 112"
  "offset EckdLdlIpl1 [Fld ''bip'', Fld ''bp'', Fld ''ipl'', Fld ''bm_ptr'', Fld ''eckd'', Fld ''bptr'', Fld ''chs''] = 120"
  "offset EckdLdlIpl1 [Fld ''stage1'', Fld ''seek'', Idx 0, Fld ''chs''] = 98"
  "offset LDL_VTOC [Fld ''LDL_version''] = 79" "offset LDL_VTOC [Fld ''volser''] = 4"
  by (simp_all add: record_defs)

text \<open>All of it depends on the state only through the geometry.\<close>

lemma good_pointer_same: "good_pointer bs s p \<Longrightarrow> same_disk s t \<Longrightarrow> good_pointer bs t p"
  by (simp add: good_pointer_def same_disk_valid)

lemma section_of_same:
  assumes "section_of content bs limit s blk j xs e" "same_disk s t"
  shows "section_of content bs limit t blk j xs e"
  using assms(1)
proof induction
  case (section_null block blk j)
  then show ?case using same_disk_geometry(4) [OF assms(2)] by (intro section_of.section_null) simp_all
next
  case (section_full block blk j)
  then show ?case using same_disk_geometry(4) [OF assms(2)] by (intro section_of.section_full) simp_all
next
  case (section_extent p blk j block xs e)
  then show ?case using same_disk_geometry(4) [OF assms(2)] same_disk_valid [OF assms(2)]
    by (intro section_of.section_extent) (simp_all add: good_pointer_def)
next
  case (section_next p blk j block xs e)
  have "block = eckd_block_num (chs p) t" using section_next.hyps(2) same_disk_geometry(4) [OF assms(2)] by simp
  then show ?case
    by (rule section_of.section_next [OF section_next.hyps(1) _ section_next.hyps(3, 4) good_pointer_same [OF section_next.hyps(5) assms(2)]
      section_next.hyps(6, 7) section_next.IH])
qed

lemma chain_of_same:
  assumes "chain_of content bs limit s blk xs" "same_disk s t"
  shows "chain_of content bs limit t blk xs"
  using assms(1)
proof induction
  case (chain_end blk xs e)
  then show ?case using section_of_same [OF _ assms(2)] chain_of.chain_end by metis
next
  case (chain_next blk xs e ys)
  show ?case by (rule chain_of.chain_next [OF section_of_same [OF chain_next.hyps(1) assms(2)] chain_next.hyps(2, 3) chain_next.IH])
qed

lemma script_of_same:
  assumes "script_of content bs limit s pg i segs psw" "same_disk s t"
  shows "script_of content bs limit t pg i segs psw"
  using assms(1)
proof induction
  case (script_load i a xs segs psw)
  then show ?case
    using chain_of_same [OF script_load.hyps(4) assms(2)] same_disk_geometry(4) [OF assms(2)] by (intro script_of.script_load) simp_all
qed (auto intro: script_of.script_exec script_of.script_signature)

lemma eckd_boot_map_same:
  "eckd_boot_map content bs limit s bmt lp segs psw \<Longrightarrow> same_disk s t \<Longrightarrow> eckd_boot_map content bs limit t bmt lp segs psw"
  unfolding eckd_boot_map_def Let_def by (auto simp: same_disk_geometry(4) intro: script_of_same)

lemma sec_state [simp]:
  "eckd_block_num c (s\<lparr>bufs := (bufs s)(Sec := pg), io := j\<rparr>) = eckd_block_num c s"
  "same_disk s (s\<lparr>bufs := (bufs s)(Sec := pg), io := j\<rparr>)"
proof -
  show "same_disk s (s\<lparr>bufs := (bufs s)(Sec := pg), io := j\<rparr>)" by (simp add: same_disk_def)
  then show "eckd_block_num c (s\<lparr>bufs := (bufs s)(Sec := pg), io := j\<rparr>) = eckd_block_num c s" by (rule same_disk_geometry(4))
qed

text \<open>What the loader prints of the version of a Linux layout.\<close>

definition ldl_version_text :: "u8 \<Rightarrow> u8 list" where
  "ldl_version_text v = (if v = LDL1_VERSION then lit ''1.'' @ [10] else if v = LDL2_VERSION then lit ''2.'' @ [10]
     else c_str [ebc2asc ! unat v, 63, 10, 0])"

lemma ldl_msg_unfold:
  "print_eckd_ldl_msg hw mode =
     seq (sclp_print hw (if mode = ECKD_CMS then lit ''CMS'' else lit ''LDL''))
    (seq (sclp_print hw (lit '' version ''))
    (bnd (load_u8 (Buf Sec 79)) (\<lambda>version.
     seq (sclp_print hw (ldl_version_text version)) (bnd (load (Buf Sec 4) 6) (print_volser hw)))))"
  by (simp only: print_eckd_ldl_msg_def ldl_version_text_def eckd_layout)

text \<open>What follows the label in block 2, when block 0 has no key.\<close>

definition after_label :: "'d hw \<Rightarrow> ('d, unit) fw" where
  "after_label hw =
     bnd (magic_at (Buf Sec 0) CMS1_MAGIC) (\<lambda>magic.
     seq (whenM magic (ipl_eckd_ldl hw ECKD_CMS))
    (bnd (magic_at (Buf Sec 0) LNX1_MAGIC) (\<lambda>magic.
     seq (whenM magic (ipl_eckd_ldl hw ECKD_LDL))
    (seq (ipl_eckd_ldl hw ECKD_LDL_UNLABELED) (ipl_eckd_cdl hw)))))"

lemma magic_other:
  assumes "length d = 4" "length m = 4" "d \<noteq> m"
  shows "\<not> magic_match d m"
proof
  assume "magic_match d m"
  then have "to_be 4 (be d :: u32) = to_be 4 (be m :: u32)" using assms(1, 2) by (simp add: magic_match_def)
  then show False using to_be_be [of d, where ?'a = 32] to_be_be [of m, where ?'a = 32] assms by simp
qed

lemma seq_seq_seq_Ret:
  "bnd m (\<lambda>_. bnd n (\<lambda>_. p)) s = Some (Ret x, t) \<Longrightarrow> bnd m (\<lambda>_. bnd n (\<lambda>_. bnd p f)) s = f x t"
  using bnd_Ret [of "bnd m (\<lambda>_. bnd n (\<lambda>_. p))" s x t f] by (simp add: bnd_assoc_fun)

context block_source begin

lemma run_script_boots:
  assumes "ok s" "unat bs \<le> 8192" "length (bufs s Sec) = 16384" "length (bufs s Bprs) = 8192" "\<not> menu_is_enabled_zipl s"
    and "eckd_boot_map content bs limit s bmt (unat (get_loadparm_index s)) segs psw"
  shows "\<exists>t. run_eckd_boot_script hw bmt s1b s = Some (Stop NormalReset, t) \<and> booted hw content (unat bs) segs psw (mem s) t"
proof -
  let ?lp = "unat (get_loadparm_index s)" and ?st = "\<lambda>pg j. s\<lparr>bufs := (bufs s)(Sec := pg), io := j\<rparr>"
  define table where "table = filled 16384 content bs bmt"
  define blk where "blk = eckd_block_num (chs_of (slice (16 + 16 * ?lp) 5 table)) s"
  define pg where "pg = filled 16384 content bs blk"
  have m: "unat bmt < limit" "?lp < 31" "blk \<noteq> -1" "unat blk < limit" "script_of content bs limit s pg 0 segs psw" "well_placed (unat bs) segs"
    using assms(6) unfolding eckd_boot_map_def Let_def eckd_layout table_def [symmetric] blk_def [symmetric] pg_def [symmetric] by auto
  have len: "length table = 16384" "length pg = 16384"
    using assms(2) by (simp_all add: table_def pg_def length_filled length_content)
  obtain j1 where j1: "seq fill_sec (read_block hw bmt (Buf Sec 0) (lit ''Cannot read Boot Map Table'')) s = Some (Ret (), ?st table j1)"
      "ok (?st table j1)"
    using read_sec [OF assms(1, 3), of bmt "lit ''Cannot read Boot Map Table''"] assms(2) m(1) by (auto simp: table_def)
  obtain j2 where j2: "seq fill_sec (read_block hw blk (Buf Sec 0) (lit ''Cannot read Boot Map Script'')) (?st table j1) = Some (Ret (), ?st pg j2)"
      "ok (?st pg j2)"
    using read_sec [OF j1(2), of blk "lit ''Cannot read Boot Map Script''"] assms(2) len m(4) by (auto simp: pg_def)
  obtain e u where u: "script_loop hw 0 (?st pg j2) = Some (Ret e, u)" "32 * e + 64 \<le> 16384" "script_kind pg e = BOOT_SCRIPT_EXEC"
      "script_addr pg e = psw" "ok u" "bufs u Sec = pg" "mem u = image_mem content (unat bs) segs (mem s)"
    using script_loop_loads [OF m(5) assms(2) len(2) j2(2)] assms(4) by auto
  note l = load_script [OF u(6) len(2) u(2)]
  have "run_eckd_boot_script hw bmt s1b s = jump_to_IPL_code hw 0 (u\<lparr>mem := mem_put 0 (to_be 8 psw) (mem u)\<rparr>)"
    using assms(5) m(2, 3) len
    by (simp add: run_eckd_boot_script_def seq_seq_Ret [OF j1(1)] seq_seq_Ret [OF j2(1)] bnd_Ret blk_def [symmetric] u(1, 3, 4) l(1, 2)
      write_reset_psw_def)
  moreover have "length (scr (io (u\<lparr>mem := m\<rparr>)) Sccb) = 4096" for m using console [OF u(5)] by simp
  ultimately show ?thesis
    using jump_booted [OF _ length_content m(6), where u = "u\<lparr>mem := mem_put 0 (to_be 8 psw) (mem u)\<rparr>" and psw = psw and m = "mem s" and hw = hw] u(7) by simp
qed

lemma print_bounded:
  assumes "ok s" "length str \<le> 64"
  obtains j where "sclp_print hw str s = Some (Ret (), s\<lparr>io := j\<rparr>)" "ok (s\<lparr>io := j\<rparr>)"
proof -
  have "length (crlf str) \<le> 4082" using length_crlf_le [of str] assms(2) by simp
  then show ?thesis using print_ok [OF assms(1)] that by metis
qed

lemma print_volser_ok:
  assumes "ok s" "length volser = 6"
  obtains j where "print_volser hw volser s = Some (Ret (), s\<lparr>io := j\<rparr>)" "ok (s\<lparr>io := j\<rparr>)"
proof -
  obtain i where i: "sclp_print hw (lit ''VOLSER=['') s = Some (Ret (), s\<lparr>io := i\<rparr>)" "ok (s\<lparr>io := i\<rparr>)"
    using print_bounded [OF assms(1), of "lit ''VOLSER=[''"] by auto
  have "length (c_str (ebcdic_to_ascii volser)) \<le> 64"
    using length_c_str_le [of "ebcdic_to_ascii volser"] assms(2) by (simp add: ebcdic_to_ascii_def)
  then obtain j where j: "sclp_print hw (c_str (ebcdic_to_ascii volser)) (s\<lparr>io := i\<rparr>) = Some (Ret (), s\<lparr>io := j\<rparr>)" "ok (s\<lparr>io := j\<rparr>)"
    using print_bounded [OF i(2)] by auto
  obtain k where k: "sclp_print hw (lit '']'' @ [10]) (s\<lparr>io := j\<rparr>) = Some (Ret (), s\<lparr>io := k\<rparr>)" "ok (s\<lparr>io := k\<rparr>)"
    using print_bounded [OF j(2), of "lit '']'' @ [10]"] by auto
  show ?thesis using that [OF _ k(2)] by (simp add: print_volser_def Let_def bnd_Ret i(1) j(1) k(1))
qed

lemma ipl_eckd_cdl_boots:
  assumes "ok s" "unat bs \<le> 8192" "length (bufs s Sec) = 16384" "length (bufs s Bprs) = 8192" "\<not> menu_is_enabled_zipl s" "2 < limit"
    and "ipl2 = filled 16384 content bs 1" "cdl_records ipl2 (filled 16384 content bs 2) bs"
    and "eckd_boot_map content bs limit s (cdl_table s ipl2) (unat (get_loadparm_index s)) segs psw"
  shows "\<exists>t. ipl_eckd_cdl hw s = Some (Stop NormalReset, t) \<and> booted hw content (unat bs) segs psw (mem s) t"
proof -
  let ?st = "\<lambda>pg j. s\<lparr>bufs := (bufs s)(Sec := pg), io := j\<rparr>"
  define label where "label = filled 16384 content bs 2"
  have m: "slice 92 4 ipl2 = ZIPL_MAGIC" "ucast (be (slice 105 2 ipl2) :: u16) = bs" "ipl2 ! 98 = 0"
      "slice 0 4 label = VOL1_MAGIC" "slice 4 4 label = VOL1_MAGIC"
    using assms(8) unfolding cdl_records_def eckd_layout label_def [symmetric] by auto
  have len: "length ipl2 = 16384" "length label = 16384"
    using assms(2) by (simp_all add: assms(7) label_def length_filled length_content)
  obtain j0 where j0: "sclp_print hw (lit ''CDL'' @ [10]) s = Some (Ret (), s\<lparr>io := j0\<rparr>)" "ok (s\<lparr>io := j0\<rparr>)"
    using print_bounded [OF assms(1), of "lit ''CDL'' @ [10]"] by auto
  obtain j1 where j1: "seq fill_sec (read_block hw 1 (Buf Sec 0) (lit ''Cannot read IPL2 record at block 1'')) (s\<lparr>io := j0\<rparr>) =
      Some (Ret (), ?st ipl2 j1)" "ok (?st ipl2 j1)"
    using read_sec [OF j0(2), of 1 "lit ''Cannot read IPL2 record at block 1''"] assms(2, 3, 6) by (auto simp: assms(7))
  obtain j2 where j2: "seq fill_sec (read_block hw 2 (Buf Sec 0) (lit ''Cannot read Volume Label at block 2'')) (?st ipl2 j1) =
      Some (Ret (), ?st label j2)" "ok (?st label j2)"
    using read_sec [OF j1(2), of 2 "lit ''Cannot read Volume Label at block 2''"] assms(2, 6) len by (auto simp: label_def)
  obtain j3 where j3: "print_volser hw (slice 8 6 label) (?st label j2) = Some (Ret (), ?st label j3)" "ok (?st label j3)"
    using print_volser_ok [OF j2(2), of "slice 8 6 label"] len by auto
  note l1 = load_Buf [of "?st ipl2 j" Sec for j, simplified, OF len(1)] and l2 = load_Buf [of "?st label j" Sec for j, simplified, OF len(2)]
  have w: "load_u16 (Buf Sec 105) (?st ipl2 j1) = Some (Ret (be (slice 105 2 ipl2)), ?st ipl2 j1)"
      "load_u8 (Buf Sec 98) (?st ipl2 j1) = Some (Ret (ipl2 ! 98), ?st ipl2 j1)"
    using len(1) by (simp_all add: load_u16_def load_u8_def bnd_def ret_def slice_def hd_drop_conv_nth)
  have bm: "eckd_boot_map content bs limit (?st label j3) (cdl_table s ipl2) (unat (get_loadparm_index (?st label j3))) segs psw"
    using eckd_boot_map_same [OF assms(9)] by (simp add: get_loadparm_index_def)
  have tb: "eckd_block_num (chs_of (slice 100 5 ipl2)) s = cdl_table s ipl2" by (simp add: cdl_table_def)
  have mm: "magic_match ZIPL_MAGIC ZIPL_MAGIC" "magic_match VOL1_MAGIC VOL1_MAGIC" by (simp_all add: magic_match_def)
  have "ipl_eckd_cdl hw s = run_eckd_boot_script hw (cdl_table s ipl2) (eckd_block_num (chs_of (slice 78 5 ipl2)) s) (?st label j3)"
    using m len block_size [OF j1(2)]
    by (simp add: ipl_eckd_cdl_def bnd_Ret j0(1) seq_seq_Ret [OF j1(1)] seq_seq_Ret [OF j2(1)] l1 l2 w j3(1) tb mm block_size_ok_def not_eckd_dev_type_def)
  moreover have "\<not> menu_is_enabled_zipl (?st label j3)" using assms(5) by (simp add: menu_is_enabled_zipl_def)
  ultimately show ?thesis using run_script_boots [OF j3(2) assms(2) _ _ _ bm] assms(4) len by simp
qed

lemma print_eckd_msg_ok:
  assumes "ok s"
  obtains j where "print_eckd_msg hw s = Some (Ret (), s\<lparr>io := j\<rparr>)" "ok (s\<lparr>io := j\<rparr>)"
proof -
  have l: "length (block_size_digits n p msg) = length msg" for n p msg
  proof (induction n p msg rule: block_size_digits.induct)
    case (1 n p msg)
    show ?case
    proof (cases "n \<noteq> 0")
      case True
      then show ?thesis using 1(1) [OF True] block_size_digits.simps [of n p msg] by (simp only: if_True length_list_update not_False_eq_True)
    next
      case False
      then show ?thesis
        using 1(2) [OF False] block_size_digits.simps [of n p msg] by (cases "30 \<le> p") (simp_all only: if_True if_False length_list_update not_False_eq_True not_True_eq_False)
    qed
  qed
  have "length (eckd_msg n) \<le> 64" for n by (simp add: eckd_msg_def Let_def l)
  then show ?thesis using print_bounded [OF assms, of "eckd_msg (virtio_get_block_size s)"] that by (auto simp: print_eckd_msg_def)
qed

lemma length_filled_page: "unat bs \<le> 8192 \<Longrightarrow> length (filled 16384 content bs b) = 16384"
  by (simp add: length_filled length_content)

lemma ldl_msg_ok:
  assumes "ok s" "length (bufs s Sec) = 16384"
  obtains j where "print_eckd_ldl_msg hw mode s = Some (Ret (), s\<lparr>io := j\<rparr>)" "ok (s\<lparr>io := j\<rparr>)"
proof -
  define str where "str = (if mode = ECKD_CMS then lit ''CMS'' else lit ''LDL'')"
  define version where "version = bufs s Sec ! 79"
  define ver where "ver = ldl_version_text version"
  have l: "length str \<le> 64" "length ver \<le> 64"
    using length_c_str_le [of "[ebc2asc ! unat version, 63, 10, 0]"] by (simp_all add: str_def ver_def ldl_version_text_def lit_def)
  obtain j1 where j1: "sclp_print hw str s = Some (Ret (), s\<lparr>io := j1\<rparr>)" "ok (s\<lparr>io := j1\<rparr>)"
    using print_bounded [OF assms(1) l(1)] by auto
  obtain j2 where j2: "sclp_print hw (lit '' version '') (s\<lparr>io := j1\<rparr>) = Some (Ret (), s\<lparr>io := j2\<rparr>)" "ok (s\<lparr>io := j2\<rparr>)"
    using print_bounded [OF j1(2), of "lit '' version ''"] by auto
  obtain j3 where j3: "sclp_print hw ver (s\<lparr>io := j2\<rparr>) = Some (Ret (), s\<lparr>io := j3\<rparr>)" "ok (s\<lparr>io := j3\<rparr>)"
    using print_bounded [OF j2(2) l(2)] by auto
  obtain j4 where j4: "print_volser hw (slice 4 6 (bufs s Sec)) (s\<lparr>io := j3\<rparr>) = Some (Ret (), s\<lparr>io := j4\<rparr>)" "ok (s\<lparr>io := j4\<rparr>)"
    using print_volser_ok [OF j3(2), of "slice 4 6 (bufs s Sec)"] assms(2) by auto
  have v: "load_u8 (Buf Sec 79) (s\<lparr>io := j2\<rparr>) = Some (Ret version, s\<lparr>io := j2\<rparr>)"
    using assms(2) by (simp add: load_u8_def bnd_def ret_def version_def slice_def hd_drop_conv_nth)
  have lo: "load (Buf Sec 4) 6 (s\<lparr>io := j3\<rparr>) = Some (Ret (slice 4 6 (bufs s Sec)), s\<lparr>io := j3\<rparr>)" using assms(2) by simp
  have "print_eckd_ldl_msg hw mode s = Some (Ret (), s\<lparr>io := j4\<rparr>)"
    unfolding ldl_msg_unfold str_def [symmetric] bnd_Ret [where m = "sclp_print hw str", OF j1(1)]
      bnd_Ret [where m = "sclp_print hw (lit '' version '')", OF j2(1)] bnd_Ret [where m = "load_u8 (Buf Sec 79)", OF v] ver_def [symmetric]
      bnd_Ret [where m = "sclp_print hw ver", OF j3(1)] bnd_Ret [where m = "load (Buf Sec 4) 6", OF lo] by (rule j4(1))
  then show ?thesis using that j4(2) by blast
qed

text \<open>The Linux layout, from a state in which \<open>sec\<close> holds any block.\<close>

lemma ldl_reads_0:
  assumes "ok s" "unat bs \<le> 8192" "length (bufs s Sec) = 16384" "0 < limit"
  obtains j where "seq (whenM (mode \<noteq> ECKD_LDL_UNLABELED) (print_eckd_ldl_msg hw mode))
      (seq fill_sec (read_block hw 0 (Buf Sec 0) (lit ''Cannot read block 0 to grab boot info.''))) s =
    Some (Ret (), s\<lparr>bufs := (bufs s)(Sec := filled 16384 content bs 0), io := j\<rparr>)"
    "ok (s\<lparr>bufs := (bufs s)(Sec := filled 16384 content bs 0), io := j\<rparr>)"
proof -
  obtain i where i: "whenM (mode \<noteq> ECKD_LDL_UNLABELED) (print_eckd_ldl_msg hw mode) s = Some (Ret (), s\<lparr>io := i\<rparr>)" "ok (s\<lparr>io := i\<rparr>)"
  proof (cases "mode = ECKD_LDL_UNLABELED")
    case True
    then show ?thesis using that [of "io s"] assms(1) by (simp add: ret_def)
  next
    case False
    then show ?thesis using ldl_msg_ok [OF assms(1, 3), of mode] that by auto
  qed
  obtain j where j: "seq fill_sec (read_block hw 0 (Buf Sec 0) (lit ''Cannot read block 0 to grab boot info.'')) (s\<lparr>io := i\<rparr>) =
      Some (Ret (), s\<lparr>bufs := (bufs s)(Sec := filled 16384 content bs 0), io := j\<rparr>)"
    "ok (s\<lparr>bufs := (bufs s)(Sec := filled 16384 content bs 0), io := j\<rparr>)"
    using read_sec [OF i(2), of 0 "lit ''Cannot read block 0 to grab boot info.''"] assms(2-4) by auto
  show ?thesis
    by (rule that [OF _ j(2)]) (simp only: bnd_Ret [where m = "whenM (mode \<noteq> ECKD_LDL_UNLABELED) (print_eckd_ldl_msg hw mode)", OF i(1)] j(1))
qed

lemma ipl_eckd_ldl_boots:
  assumes "ok s" "unat bs \<le> 8192" "length (bufs s Sec) = 16384" "length (bufs s Bprs) = 8192" "\<not> menu_is_enabled_zipl s" "0 < limit"
    and "ipl1 = filled 16384 content bs 0" "ldl_record ipl1 bs"
    and "eckd_boot_map content bs limit s (ldl_table s ipl1) (unat (get_loadparm_index s)) segs psw"
  shows "\<exists>t. ipl_eckd_ldl hw mode s = Some (Stop NormalReset, t) \<and> booted hw content (unat bs) segs psw (mem s) t"
proof -
  let ?st = "\<lambda>j. s\<lparr>bufs := (bufs s)(Sec := ipl1), io := j\<rparr>"
  define b where "b = slice 112 16 ipl1"
  have len: "length ipl1 = 16384" using assms(2) by (simp add: assms(7) length_filled_page)
  have m: "take 4 b = ZIPL_MAGIC" "b ! offset BootInfo [Fld ''version''] = 1" "b ! offset BootInfo [Fld ''bp_type''] = 0"
      "b ! offset BootInfo [Fld ''dev_type''] = 0" "b ! offset BootInfo [Fld ''flags''] = 1"
      "be (slice (offset BootInfo [Fld ''bp'', Fld ''ipl'', Fld ''bm_ptr'', Fld ''eckd'', Fld ''bptr'', Fld ''size'']) 2 b) = bs"
    using assms(8) unfolding ldl_record_def Let_def eckd_layout b_def [symmetric] by auto
  obtain j where j: "seq (whenM (mode \<noteq> ECKD_LDL_UNLABELED) (print_eckd_ldl_msg hw mode))
      (seq fill_sec (read_block hw 0 (Buf Sec 0) (lit ''Cannot read block 0 to grab boot info.''))) s = Some (Ret (), ?st j)" "ok (?st j)"
    using ldl_reads_0 [OF assms(1-3, 6), of mode] unfolding assms(7) by metis
  obtain k where k: "mode = ECKD_LDL_UNLABELED \<Longrightarrow> sclp_print hw (lit ''unlabeled LDL.'' @ [10]) (?st j) = Some (Ret (), ?st k)"
      "mode \<noteq> ECKD_LDL_UNLABELED \<Longrightarrow> k = j" "ok (?st k)"
  proof (cases "mode = ECKD_LDL_UNLABELED")
    case True
    then show ?thesis using print_bounded [OF j(2), of "lit ''unlabeled LDL.'' @ [10]"] that by auto
  next
    case False
    then show ?thesis using that [of j] j(2) by simp
  qed
  note l = load_Buf [of "?st i" Sec for i, simplified, OF len]
  have mm: "magic_match b ZIPL_MAGIC" using m(1) by (simp add: magic_match_def ZIPL_MAGIC_def lit_def)
  have "slice 112 4 ipl1 = take 4 b" by (simp add: b_def slice_def)
  then have m4: "magic_match (slice 112 4 ipl1) ZIPL_MAGIC" using m(1) by (simp add: magic_match_def ZIPL_MAGIC_def lit_def)
  have v: "verify_boot_info hw 112 (?st k) = Some (Ret (), ?st k)"
    using m(2-6) mm len block_size [OF k(3)] by (simp add: verify_boot_info_def l(4) bnd_Ret b_def [symmetric] block_size_ok_def ret_def)
  have bm: "eckd_boot_map content bs limit (?st k) (ldl_table s ipl1) (unat (get_loadparm_index (?st k))) segs psw"
    using eckd_boot_map_same [OF assms(9)] by (simp add: get_loadparm_index_def)
  have "ipl_eckd_ldl hw mode s = run_eckd_boot_script hw (ldl_table s ipl1) (eckd_block_num (chs_of (slice 98 5 ipl1)) s) (?st k)"
    using m4 k(1, 2) v len unfolding ipl_eckd_ldl_def eckd_layout seq_seq_seq_Ret [OF j(1)]
    by (cases "mode = ECKD_LDL_UNLABELED") (simp_all add: bnd_Ret l ldl_table_def)
  moreover have "\<not> menu_is_enabled_zipl (?st k)" using assms(5) by (simp add: menu_is_enabled_zipl_def)
  ultimately show ?thesis using run_script_boots [OF k(3) assms(2) _ _ _ bm] assms(4) len by simp
qed

lemma ldl_not_applicable:
  assumes "ok s" "unat bs \<le> 8192" "length (bufs s Sec) = 16384" "0 < limit"
    and "ipl1 = filled 16384 content bs 0" "slice 112 4 ipl1 \<noteq> ZIPL_MAGIC"
  obtains j where "ipl_eckd_ldl hw ECKD_LDL_UNLABELED s = Some (Ret (), s\<lparr>bufs := (bufs s)(Sec := ipl1), io := j\<rparr>)"
    "ok (s\<lparr>bufs := (bufs s)(Sec := ipl1), io := j\<rparr>)"
proof -
  let ?st = "\<lambda>j. s\<lparr>bufs := (bufs s)(Sec := ipl1), io := j\<rparr>"
  have len: "length ipl1 = 16384" using assms(2) by (simp add: assms(5) length_filled_page)
  obtain j where j: "seq (whenM (ECKD_LDL_UNLABELED \<noteq> ECKD_LDL_UNLABELED) (print_eckd_ldl_msg hw ECKD_LDL_UNLABELED))
      (seq fill_sec (read_block hw 0 (Buf Sec 0) (lit ''Cannot read block 0 to grab boot info.''))) s = Some (Ret (), ?st j)" "ok (?st j)"
    using ldl_reads_0 [OF assms(1-4), of ECKD_LDL_UNLABELED] unfolding assms(5) by metis
  note l = load_Buf [of "?st i" Sec for i, simplified, OF len]
  have "\<not> magic_match (slice 112 4 ipl1) ZIPL_MAGIC"
    using magic_other [of "slice 112 4 ipl1" ZIPL_MAGIC] assms(6) len by (simp add: ZIPL_MAGIC_def lit_def slice_def)
  then have "ipl_eckd_ldl hw ECKD_LDL_UNLABELED s = Some (Ret (), ?st j)"
    unfolding ipl_eckd_ldl_def eckd_layout seq_seq_seq_Ret [OF j(1)] by (simp add: bnd_Ret l ret_def)
  then show ?thesis using that j(2) by blast
qed

lemma eckd_starts:
  assumes "ok s" "unat bs \<le> 8192" "length (bufs s Sec) = 16384" "2 < limit" "ipl1 = filled 16384 content bs 0"
  obtains j where "take 4 ipl1 = IPL1_MAGIC" "ipl_eckd hw s = ipl_eckd_cdl hw (s\<lparr>bufs := (bufs s)(Sec := ipl1), io := j\<rparr>)"
      "ok (s\<lparr>bufs := (bufs s)(Sec := ipl1), io := j\<rparr>)"
  | j where "take 4 ipl1 \<noteq> IPL1_MAGIC"
      "ipl_eckd hw s = after_label hw (s\<lparr>bufs := (bufs s)(Sec := filled 16384 content bs 2), io := j\<rparr>)"
      "ok (s\<lparr>bufs := (bufs s)(Sec := filled 16384 content bs 2), io := j\<rparr>)"
proof -
  let ?st = "\<lambda>pg j. s\<lparr>bufs := (bufs s)(Sec := pg), io := j\<rparr>"
  define label where "label = filled 16384 content bs 2"
  have len: "length ipl1 = 16384" using assms(2) by (simp add: assms(5) length_filled_page)
  obtain j0 where j0: "print_eckd_msg hw s = Some (Ret (), s\<lparr>io := j0\<rparr>)" "ok (s\<lparr>io := j0\<rparr>)"
    using print_eckd_msg_ok [OF assms(1)] by metis
  obtain j1 where j1: "seq fill_sec (read_block hw 0 (Buf Sec 0) (lit ''Cannot read block 0 on DASD'')) (s\<lparr>io := j0\<rparr>) =
      Some (Ret (), ?st ipl1 j1)" "ok (?st ipl1 j1)"
    using read_sec [OF j0(2), of 0 "lit ''Cannot read block 0 on DASD''"] assms(2-5) by auto
  note l1 = load_Buf [of "?st ipl1 j" Sec for j, simplified, OF len(1)]
  show ?thesis
  proof (cases "take 4 ipl1 = IPL1_MAGIC")
    case True
    then have "magic_match (slice 0 4 ipl1) IPL1_MAGIC" by (simp add: magic_match_def slice_def IPL1_MAGIC_def)
    then have "ipl_eckd hw s = ipl_eckd_cdl hw (?st ipl1 j1)"
      by (simp add: ipl_eckd_def bnd_Ret j0(1) seq_seq_Ret [OF j1(1)] l1)
    then show ?thesis using that(1) True j1(2) by blast
  next
    case False
    obtain j2 where j2: "seq fill_sec (read_block hw 2 (Buf Sec 0) (lit ''Cannot read block 2'')) (?st ipl1 j1) =
        Some (Ret (), ?st label j2)" "ok (?st label j2)"
      using read_sec [OF j1(2), of 2 "lit ''Cannot read block 2''"] assms(2, 4) len by (auto simp: label_def)
    have "\<not> magic_match (slice 0 4 ipl1) IPL1_MAGIC"
      using magic_other [of "slice 0 4 ipl1" IPL1_MAGIC] False len by (simp add: IPL1_MAGIC_def slice_def)
    then have "ipl_eckd hw s = after_label hw (?st label j2)"
      by (simp add: ipl_eckd_def after_label_def bnd_Ret j0(1) seq_seq_Ret [OF j1(1)] l1 seq_seq_Ret [OF j2(1)])
    then show ?thesis using that(2) False j2(2) by (simp add: label_def)
  qed
qed

lemma ipl_eckd_boots:
  assumes "ok s" "unat bs \<le> 8192" "length (bufs s Sec) = 16384" "length (bufs s Bprs) = 8192" "\<not> menu_is_enabled_zipl s" "2 < limit"
    and "eckd_disk content bs s table" "eckd_boot_map content bs limit s table (unat (get_loadparm_index s)) segs psw"
  shows "\<exists>t. ipl_eckd hw s = Some (Stop NormalReset, t) \<and> booted hw content (unat bs) segs psw (mem s) t"
proof -
  let ?st = "\<lambda>pg j. s\<lparr>bufs := (bufs s)(Sec := pg), io := j\<rparr>"
  define ipl1 where "ipl1 = filled 16384 content bs 0"
  define label where "label = filled 16384 content bs 2"
  have len: "length ipl1 = 16384" "length label = 16384" using assms(2) by (simp_all add: ipl1_def label_def length_filled_page)
  have st: "eckd_boot_map content bs limit (?st pg j) table (unat (get_loadparm_index (?st pg j))) segs psw"
      "\<not> menu_is_enabled_zipl (?st pg j)" "length (bufs (?st pg j) Bprs) = 8192" "cdl_table (?st pg j) x = cdl_table s x"
      "ldl_table (?st pg j) x = ldl_table s x" "mem (?st pg j) = mem s" for pg j x
    using eckd_boot_map_same [OF assms(8)] assms(4, 5)
    by (simp_all add: get_loadparm_index_def menu_is_enabled_zipl_def cdl_table_def ldl_table_def)
  have cdl: "\<exists>t. ipl_eckd_cdl hw (?st pg j) = Some (Stop NormalReset, t) \<and> booted hw content (unat bs) segs psw (mem s) t"
    if "table = cdl_table s (filled 16384 content bs 1)" "cdl_records (filled 16384 content bs 1) label bs" "ok (?st pg j)" "length pg = 16384" for pg j
    using ipl_eckd_cdl_boots [OF that(3) assms(2) _ st(3, 2) assms(6) refl, of segs psw] st(1, 4, 6) that by (simp add: label_def)
  have ldl: "\<exists>t. ipl_eckd_ldl hw mode (?st pg j) = Some (Stop NormalReset, t) \<and> booted hw content (unat bs) segs psw (mem s) t"
    if "table = ldl_table s ipl1" "ldl_record ipl1 bs" "ok (?st pg j)" "length pg = 16384" for mode pg j
    using ipl_eckd_ldl_boots [OF that(3) assms(2) _ st(3, 2) _ ipl1_def that(2), of segs psw mode] st(1, 5, 6) that assms(6) by simp
  show ?thesis
  proof (rule eckd_starts [OF assms(1-3, 6) ipl1_def])
    fix j
    assume j: "take 4 ipl1 = IPL1_MAGIC" "ipl_eckd hw s = ipl_eckd_cdl hw (?st ipl1 j)" "ok (?st ipl1 j)"
    from assms(7) show ?thesis by cases (use cdl [where pg = ipl1 and j = j] j len in \<open>simp_all add: ipl1_def label_def\<close>)
  next
    fix j
    assume "take 4 ipl1 \<noteq> IPL1_MAGIC" "ipl_eckd hw s = after_label hw (?st (filled 16384 content bs 2) j)" "ok (?st (filled 16384 content bs 2) j)"
    then have j: "take 4 ipl1 \<noteq> IPL1_MAGIC" "ipl_eckd hw s = after_label hw (?st label j)" "ok (?st label j)" by (simp_all add: label_def)
    note l = load_Buf [of "?st label j" Sec for j, simplified, OF len(2)]
    have m: "magic_match (slice 0 4 label) x \<longleftrightarrow> take 4 label = x" if "length x = 4" for x
      using magic_other [of "slice 0 4 label" x] that len(2) by (auto simp: slice_def magic_match_def)
    have ms: "magic_match (slice 0 4 label) CMS1_MAGIC \<longleftrightarrow> take 4 label = CMS1_MAGIC" "magic_match (slice 0 4 label) LNX1_MAGIC \<longleftrightarrow> take 4 label = LNX1_MAGIC"
      by (rule m, simp add: CMS1_MAGIC_def LNX1_MAGIC_def)+
    have ne: "CMS1_MAGIC \<noteq> LNX1_MAGIC" by (simp add: CMS1_MAGIC_def LNX1_MAGIC_def)
    note a = after_label_def bnd_Ret l ms
    from assms(7) show ?thesis
    proof cases
      case (disk_cdl ipl2)
      then show ?thesis using j(1) by (simp add: ipl1_def)
    next
      case (disk_labeled ipl1')
      then have t: "table = ldl_table s ipl1" "ldl_record ipl1 bs" "take 4 label = CMS1_MAGIC \<or> take 4 label = LNX1_MAGIC"
        by (simp_all add: ipl1_def label_def)
      obtain u v where "ipl_eckd_ldl hw ECKD_CMS (?st label j) = Some (Stop NormalReset, u)" "booted hw content (unat bs) segs psw (mem s) u"
          "ipl_eckd_ldl hw ECKD_LDL (?st label j) = Some (Stop NormalReset, v)" "booted hw content (unat bs) segs psw (mem s) v"
        using ldl [OF t(1, 2) j(3) len(2)] by metis
      then show ?thesis using t(3) ne unfolding j(2) by (auto simp: a bnd_Stop)
    next
      case (disk_unlabeled ipl1')
      then have t: "table = ldl_table s ipl1" "ldl_record ipl1 bs" "take 4 label \<noteq> CMS1_MAGIC" "take 4 label \<noteq> LNX1_MAGIC"
        by (simp_all add: ipl1_def label_def)
      obtain u where "ipl_eckd_ldl hw ECKD_LDL_UNLABELED (?st label j) = Some (Stop NormalReset, u)" "booted hw content (unat bs) segs psw (mem s) u"
        using ldl [OF t(1, 2) j(3) len(2)] by metis
      then show ?thesis using t(3, 4) unfolding j(2) by (auto simp: a bnd_Stop)
    next
      case (disk_keyless ipl1' ipl2)
      then have t: "table = cdl_table s (filled 16384 content bs 1)" "cdl_records (filled 16384 content bs 1) label bs" "slice 112 4 ipl1 \<noteq> ZIPL_MAGIC"
          "take 4 label \<noteq> CMS1_MAGIC" "take 4 label \<noteq> LNX1_MAGIC"
        by (simp_all add: ipl1_def label_def)
      obtain k where k: "ipl_eckd_ldl hw ECKD_LDL_UNLABELED (?st label j) = Some (Ret (), ?st ipl1 k)" "ok (?st ipl1 k)"
        using ldl_not_applicable [OF j(3) assms(2) _ _ ipl1_def t(3)] len(2) assms(6) by auto
      have "ipl_eckd hw s = ipl_eckd_cdl hw (?st ipl1 k)" using t(4, 5) k(1) unfolding j(2) by (simp add: a)
      then show ?thesis using cdl [OF t(1, 2) k(2) len(1)] by simp
    qed
  qed
qed

end

section \<open>Properties\<close>

text \<open>
  C2: booting an ECKD disk of any of the layouts the loader knows (compatible layout, Linux layout
  with the label of CMS or of Linux or without one, compatible layout without the key): when the
  records of the layout, the boot map table, the script of the entry the LOADPARM names and the
  sections its entries lead to are on the disk, \<open>ipl_eckd\<close> ends with the reset that starts the
  loaded system: every segment of the script is at its address, the reset PSW is the one of the
  script's last entry, the low core holds the hand-over data, and nothing else above it has
  changed.
\<close>

theorem ipl_eckd_boots_script:
  assumes "block_source hw ok bs limit content" "ok s" "unat bs \<le> 8192" "2 < limit"
    and "length (bufs s Sec) = 16384" "length (bufs s Bprs) = 8192" "\<not> menu_is_enabled_zipl s"
    and "eckd_disk content bs s table" "eckd_boot_map content bs limit s table (unat (get_loadparm_index s)) segs psw"
  shows "\<exists>t. ipl_eckd hw s = Some (Stop NormalReset, t) \<and> booted hw content (unat bs) segs psw (mem s) t"
  by (rule block_source.ipl_eckd_boots [OF assms(1-3, 5-7, 4, 8, 9)])

text \<open>
  A disk in compatible disk layout: the boot map table in block 3, its script in block 4, whose
  one entry leads to the section in block 5, which consists of block 9.
\<close>

definition cdl_bytes :: "(u64 \<times> u8) list" where
  "cdl_bytes = [(0x0, 0xc9), (0x1, 0xd7), (0x2, 0xd3), (0x3, 0xf1),
     (0x105c, 0x7a), (0x105d, 0x49), (0x105e, 0x50), (0x105f, 0x4c), (0x1068, 4), (0x1069, 0x10),
     (0x2000, 0xe5), (0x2001, 0xd6), (0x2002, 0xd3), (0x2003, 0xf1), (0x2004, 0xe5), (0x2005, 0xd6), (0x2006, 0xd3), (0x2007, 0xf1),
     (0x3014, 5), (0x4024, 6), (0x4037, 2), (0x403d, 2), (0x4057, 1), (0x405c, 0x80), (0x405d, 1),
     (0x5004, 10), (0x5005, 0x10), (0x9000, 42)]"

definition cdl_example :: "u64 \<Rightarrow> u8" where
  "cdl_example x = (case map_of cdl_bytes x of Some b \<Rightarrow> b | None \<Rightarrow> 0)"

lemmas cdl_simps = cdl_example_def cdl_bytes_def byte_simps

abbreviation cdl_page :: "u64 \<Rightarrow> u8 list" where
  "cdl_page b \<equiv> filled 16384 (disk_content cdl_example 4096) 4096 b"

lemma block_of_sector:
  assumes "b = [0, 0, 0, 0, k]"
  shows "eckd_block_num (chs_of b) disk_machine = ucast k - 1"
  by (simp add: assms eckd_block_num_def disk_geometry chs_cylinder_def chs_head_def chs_of_def slice_def be_def)

lemma cdl_section: "section_of (disk_content cdl_example 4096) 4096 (2 ^ 65) disk_machine 5 0 [(9, 1)] (- 1)"
proof -
  let ?pg = "page (disk_content cdl_example 4096) 4096 5"
  have p0: "slice 0 8 ?pg = [0, 0, 0, 0, 10, 16, 0, 0]" and p1: "slice 16 8 ?pg = [0, 0, 0, 0, 0, 0, 0, 0]"
    by (simp_all add: slice_filled_4k) (simp_all add: cdl_simps)
  define q where "q = pointer_at ?pg 0"
  have q: "q = \<lparr>chs = \<lparr>cylinder = 0, head = 0, sector = 10\<rparr>, bp_size = 0x1000, bp_count = 0\<rparr>"
    unfolding q_def pointer_at_def mult_zero_right p0 by (simp add: block_ptr_of_def chs_of_def slice_def be_def)
  define r where "r = pointer_at ?pg 1"
  have z: "r = \<lparr>chs = \<lparr>cylinder = 0, head = 0, sector = 0\<rparr>, bp_size = 0, bp_count = 0\<rparr>"
    unfolding r_def pointer_at_def mult_1_right p1 by (simp add: block_ptr_of_def chs_of_def slice_def be_def)
  have n: "eckd_block_num (chs q) disk_machine = 9" "eckd_block_num (chs r) disk_machine = - 1"
    by (simp_all add: q z eckd_block_num_def disk_geometry chs_cylinder_def chs_head_def)
  have "eckd_valid_address q disk_machine = Some (Ret True, disk_machine)"
    using n(1) by (simp add: eckd_valid_address_True chs_valid_nat disk_geometry q)
  then have good: "good_pointer 4096 disk_machine q" by (simp add: good_pointer_def q)
  have cq: "bp_count q = 0" by (simp add: q)
  have "\<not> leads_on ?pg 0" using p1 by (simp add: leads_on_def unused_space_def FREE_SPACE_FILLER_def)
  moreover have "section_of (disk_content cdl_example 4096) 4096 (2 ^ 65) disk_machine 5 1 [] (- 1)"
    using n(2) by (intro section_null) (simp_all add: r_def is_null_block_number_def)
  ultimately have "section_of (disk_content cdl_example 4096) 4096 (2 ^ 65) disk_machine 5 0 [(9, unat (bp_count q) + 1)] (- 1)"
    using good n(1) cq by (intro section_extent [where p = q]) (simp_all add: q_def is_null_block_number_def)
  then show ?thesis by (simp add: q)
qed

lemma cdl_script:
  "script_of (disk_content cdl_example 4096) 4096 (2 ^ 65) disk_machine (cdl_page 4) 0 [(0x20000, [(9, 1)])] 0x80010000"
proof -
  have k: "script_kind (cdl_page 4) 0 = BOOT_SCRIPT_LOAD" "script_kind (cdl_page 4) 1 = BOOT_SCRIPT_EXEC"
    using nth_slice [of 55 1 "cdl_page 4" 0] nth_slice [of 87 1 "cdl_page 4" 0]
    by (simp_all add: script_kind_def slice_filled_4k length_filled disk_content_4k cdl_example_def cdl_bytes_def BOOT_SCRIPT_LOAD_def BOOT_SCRIPT_EXEC_def)
  have a: "script_addr (cdl_page 4) 0 = 0x20000" "script_addr (cdl_page 4) 1 = 0x80010000"
    by (simp_all add: script_addr_def slice_filled_4k) (simp_all add: cdl_simps)
  have "slice 32 5 (cdl_page 4) = [0, 0, 0, 0, 6]" by (simp add: slice_filled_4k) (simp add: cdl_simps)
  from block_of_sector [OF this] have "eckd_block_num (script_chs (cdl_page 4) 0) disk_machine = 5" by (simp add: script_chs_def)
  moreover have "chain_of (disk_content cdl_example 4096) 4096 (2 ^ 65) disk_machine 5 [(9, 1)]"
    by (rule chain_end [OF cdl_section]) (simp_all add: is_null_block_number_def)
  ultimately show ?thesis using k a by (intro script_load script_exec) simp_all
qed

lemma cdl_boots:
  "eckd_disk (disk_content cdl_example 4096) 4096 disk_machine (cdl_table disk_machine (cdl_page 1))"
  "eckd_boot_map (disk_content cdl_example 4096) 4096 (2 ^ 65) disk_machine (cdl_table disk_machine (cdl_page 1)) 0
     [(0x20000, [(9, 1)])] 0x80010000"
proof -
  have d: "take 4 x = slice 0 4 x" for x :: "u8 list" by (simp add: slice_def)
  have "slice 98 1 (cdl_page 1) = [0]" by (simp add: slice_filled_4k) (simp add: cdl_simps)
  then have "cdl_page 1 ! 98 = 0" using nth_slice [of 98 1 "cdl_page 1" 0] by (simp add: length_filled disk_content_4k)
  then have "cdl_records (cdl_page 1) (cdl_page 2) 4096" unfolding cdl_records_def
    by (simp add: slice_filled_4k) (simp add: cdl_simps VOL1_MAGIC_def ZIPL_MAGIC_def lit_def)
  moreover have "take 4 (cdl_page 0) = IPL1_MAGIC" unfolding d by (simp add: slice_filled_4k) (simp add: cdl_simps IPL1_MAGIC_def)
  ultimately show "eckd_disk (disk_content cdl_example 4096) 4096 disk_machine (cdl_table disk_machine (cdl_page 1))"
    by (intro disk_cdl) simp_all
  have "slice 100 5 (cdl_page 1) = [0, 0, 0, 0, 4]" by (simp add: slice_filled_4k) (simp add: cdl_simps)
  from block_of_sector [OF this] have t: "cdl_table disk_machine (cdl_page 1) = 3" by (simp add: cdl_table_def)
  have "slice 16 5 (cdl_page 3) = [0, 0, 0, 0, 5]" by (simp add: slice_filled_4k) (simp add: cdl_simps)
  from block_of_sector [OF this] have b: "eckd_block_num (chs_of (slice 16 5 (cdl_page 3))) disk_machine = 4" by simp
  show "eckd_boot_map (disk_content cdl_example 4096) 4096 (2 ^ 65) disk_machine (cdl_table disk_machine (cdl_page 1)) 0
     [(0x20000, [(9, 1)])] 0x80010000"
    using cdl_script unfolding eckd_boot_map_def Let_def t eckd_layout mult_zero_right add_0_right b by (simp add: extents_size_def)
qed

theorem ipl_eckd_boots_script_witness:
  "\<exists>t. ipl_eckd (disk_hw cdl_example) disk_machine = Some (Stop NormalReset, t) \<and> mem t 0x20000 = 42 \<and>
     mem_get (mem t) 0 8 = to_be 8 (0x80010000 :: u64)"
proof -
  have h: "block_source (disk_hw cdl_example :: nat hw) (\<lambda>s. blk_ready s \<and> virtio_get_block_size s = 4096) 4096 (2 ^ 65)
      (disk_content cdl_example 4096)" by (rule disk_hw.blocks.block_source_axioms)
  note d = disk_machine_settings
  obtain t where t: "ipl_eckd (disk_hw cdl_example) disk_machine = Some (Stop NormalReset, t)"
    "booted (disk_hw cdl_example) (disk_content cdl_example 4096) 4096 [(0x20000, [(9, 1)])] 0x80010000 (mem disk_machine) t"
    using ipl_eckd_boots_script [OF h _ _ _ d(6) disk_machine_ready(3) d(2) cdl_boots(1)] cdl_boots(2) disk_machine_ready(1, 2) d(5)
    by fastforce
  have b: "mem_get (mem t) 0x20000 4096 = mem_get cdl_example 0x9000 4096" "mem_get (mem t) 0 8 = to_be 8 (0x80010000 :: u64)"
    using t(2) by (simp_all add: booted_def extents_size_def disk_content_4k del: mem_get_numeral)
  have "mem t 0x20000 = cdl_example 0x9000" using arg_cong [OF b(1), of "\<lambda>xs. xs ! 0"] by simp
  then show ?thesis using t(1) b(2) by (simp add: cdl_example_def cdl_bytes_def)
qed

end
