(* ===== verification/DiskBoot.thy ===== *)
theory DiskBoot
  imports ZiplBoot EckdBoot
begin

text \<open>
  \<open>zipl_load\<close> on a disk of virtio-blk that is none of the things it is tried as first: no SCSI boot
  map in block 0 and no ISO volume descriptor in block 16. Each attempt reads a block and gives up,
  and the disk is booted as an ECKD disk.
\<close>

section \<open>Attempts that give up\<close>

text \<open>
  The state an attempt leaves: only \<open>sec\<close> and what the console and the device keep have changed.
\<close>

abbreviation with_sec :: "'d machine \<Rightarrow> u8 list \<Rightarrow> 'd io \<Rightarrow> 'd machine" where
  "with_sec s pg j \<equiv> s\<lparr>bufs := (bufs s)(Sec := pg), io := j\<rparr>"

lemma eckd_disk_same: "eckd_disk content bs s table \<Longrightarrow> eckd_disk content bs (with_sec s pg j) table"
proof -
  have t: "cdl_table s x = cdl_table (with_sec s pg j) x" "ldl_table s x = ldl_table (with_sec s pg j) x" for x
    by (simp_all add: cdl_table_def ldl_table_def)
  assume "eckd_disk content bs s table"
  then show ?thesis by cases (auto simp only: t intro: eckd_disk.intros)
qed

context block_source begin

lemma ipl_scsi_gives_up:
  assumes "ok s" "unat bs \<le> 8192" "length (bufs s Sec) = 16384" "0 < limit" "take 4 (filled 16384 content bs 0) \<noteq> ZIPL_MAGIC"
  obtains j where "ipl_scsi hw s = Some (Ret (), with_sec s (filled 16384 content bs 0) j)" "ok (with_sec s (filled 16384 content bs 0) j)"
proof -
  define pg where "pg = filled 16384 content bs 0"
  have len: "length pg = 16384" using assms(2) by (simp add: pg_def length_filled length_content)
  obtain j where j: "seq fill_sec (read_block hw 0 (Buf Sec 0) (lit ''Cannot read block 0'')) s = Some (Ret (), with_sec s pg j)"
      "ok (with_sec s pg j)"
    using read_sec [OF assms(1, 3), of 0 "lit ''Cannot read block 0''"] assms(2, 4) by (auto simp: pg_def)
  have "\<not> magic_match (slice 0 4 pg) ZIPL_MAGIC"
    using magic_other [of "slice 0 4 pg" ZIPL_MAGIC] assms(5) len by (simp add: pg_def ZIPL_MAGIC_def lit_def slice_def)
  then have "ipl_scsi hw s = Some (Ret (), with_sec s pg j)"
    using load_Buf [of "with_sec s pg j" Sec, simplified, OF len]
    by (simp add: ipl_scsi_def seq_seq_Ret [OF j(1)] bnd_Ret ret_def)
  then show ?thesis using that j(2) by (simp add: pg_def)
qed

lemma el_torito_gives_up:
  assumes "ok s" "unat bs \<le> 8192" "75 \<le> unat bs" "length (bufs s Sec) = 16384" "16 < limit"
    and "\<not> is_iso_vd_valid (take 75 (content 16 (unat bs)))"
  obtains pg j where "ipl_iso_el_torito hw s = Some (Ret (), with_sec s pg j)" "ok (with_sec s pg j)" "length pg = 16384"
proof -
  define pg where "pg = splice 0 (content 16 (unat bs)) (bufs s Sec)"
  obtain t where t: "virtio_read_many hw 16 (Buf Sec 0) 1 s = Some (Ret 0, t)" "ok t"
    "t\<lparr>io := io s\<rparr> = put (Buf Sec 0) (content 16 (unat bs)) s"
    using read [OF assms(1), of "Buf Sec 0" "unat bs" 1 16] assms(2-5) by auto
  have e: "t = with_sec s pg (io t)" using arg_cong [OF t(3), of "\<lambda>u. u\<lparr>io := io t\<rparr>"] by (simp add: pg_def)
  have len: "length pg = 16384" using assms(2, 4) by (simp add: pg_def splice_def length_content)
  have "take 75 pg = take 75 (content 16 (unat bs))" using assms(3) by (simp add: pg_def splice_def length_content)
  then have v: "\<not> is_iso_vd_valid (slice 0 75 pg)" using assms(6) by (simp add: slice_def)
  have "load (Buf Sec 0) 75 t = Some (Ret (slice 0 75 pg), t)" using len by (subst (1 2) e) simp
  then have "vd_loop hw 17 t = Some (Ret 0, t)" using v by (subst vd_loop.simps) (simp add: bnd_def ret_def)
  then have "find_iso_bc hw s = Some (Ret 0, t)"
    using t(1) by (simp add: find_iso_bc_def ISO_PRIMARY_VD_SECTOR_def bnd_Ret)
  then have "ipl_iso_el_torito hw s = Some (Ret (), t)"
    by (simp add: ipl_iso_el_torito_def find_iso_bc_entry_def bnd_Ret ret_def)
  then show ?thesis using that [of "io t" pg] t(2) len e by simp
qed

lemma zipl_load_boots_eckd:
  assumes "ok s" "unat bs \<le> 8192" "75 \<le> unat bs" "length (bufs s Sec) = 16384" "length (bufs s Bprs) = 8192" "16 < limit"
    and "\<not> is_cdrom (vd s)" "cu_model s = VIRTIO_ID_BLOCK" "virtio_guessed_disk_nature s = GDN_NONE" "\<not> menu_is_enabled_zipl s"
    and "take 4 (filled 16384 content bs 0) \<noteq> ZIPL_MAGIC" "\<not> is_iso_vd_valid (take 75 (content 16 (unat bs)))"
    and "eckd_disk content bs s table" "eckd_boot_map content bs limit s table (unat (get_loadparm_index s)) segs psw"
  shows "\<exists>t. zipl_load hw s = Some (Stop NormalReset, t) \<and> booted hw content (unat bs) segs psw (mem s) t"
proof -
  have len: "length (filled 16384 content bs 0) = 16384" using assms(2) by (simp add: length_filled length_content)
  obtain j where j: "ipl_scsi hw s = Some (Ret (), with_sec s (filled 16384 content bs 0) j)" "ok (with_sec s (filled 16384 content bs 0) j)"
    using ipl_scsi_gives_up [OF assms(1, 2, 4) _ assms(11)] assms(6) by auto
  obtain pg k where k: "ipl_iso_el_torito hw (with_sec s (filled 16384 content bs 0) j) = Some (Ret (), with_sec s pg k)"
      "ok (with_sec s pg k)" "length pg = 16384"
    using el_torito_gives_up [OF j(2) assms(2, 3) _ assms(6, 12)] len
    by (simp add: fun_upd_upd) metis
  have "\<not> menu_is_enabled_zipl (with_sec s pg k)" using assms(10) by (simp add: menu_is_enabled_zipl_def)
  moreover have "get_loadparm_index (with_sec s pg k) = get_loadparm_index s" by (simp add: get_loadparm_index_def)
  ultimately obtain t where t: "ipl_eckd hw (with_sec s pg k) = Some (Stop NormalReset, t)" "booted hw content (unat bs) segs psw (mem s) t"
    using ipl_eckd_boots [OF k(2) assms(2) _ _ _ _ eckd_disk_same [OF assms(13)], of segs psw] eckd_boot_map_same [OF assms(14)]
      k(3) assms(5, 6) by auto
  have m: "cu_model (with_sec s p i) = VIRTIO_ID_BLOCK" "virtio_guessed_disk_nature (with_sec s p i) = GDN_NONE" for p i
    using assms(8, 9) by (simp_all add: cu_model_def virtio_guessed_disk_nature_def)
  have "zipl_load_vblk hw (with_sec s (filled 16384 content bs 0) j) = Some (Stop NormalReset, t)"
    using t(1) by (simp add: zipl_load_vblk_def bnd_Ret m k(1))
  then have "zipl_load hw s = Some (Stop NormalReset, t)"
    using assms(7, 8) m by (simp add: zipl_load_def bnd_Ret bnd_Stop j(1) VIRTIO_ID_BLOCK_def VIRTIO_ID_NET_def)
  then show ?thesis using t(2) by blast
qed

end

section \<open>Properties\<close>

text \<open>
  C3: \<open>zipl_load\<close> on a virtio-blk disk with a known geometry (nothing guessed) that has neither a
  SCSI boot map nor an ISO volume descriptor: the attempts to boot it as one of those give up and
  change nothing that matters, and the disk is booted as the ECKD disk it is, in any of the layouts:
  every segment of the boot script at its address, the reset PSW the script's, the low core with the
  hand-over data, and nothing else above it changed.
\<close>

theorem zipl_load_boots_script:
  assumes "block_source hw ok bs limit content" "ok s" "unat bs \<le> 8192" "75 \<le> unat bs" "16 < limit"
    and "length (bufs s Sec) = 16384" "length (bufs s Bprs) = 8192" "\<not> menu_is_enabled_zipl s"
    and "\<not> is_cdrom (vd s)" "cu_model s = VIRTIO_ID_BLOCK" "virtio_guessed_disk_nature s = GDN_NONE"
    and "take 4 (filled 16384 content bs 0) \<noteq> ZIPL_MAGIC" "\<not> is_iso_vd_valid (take 75 (content 16 (unat bs)))"
    and "eckd_disk content bs s table" "eckd_boot_map content bs limit s table (unat (get_loadparm_index s)) segs psw"
  shows "\<exists>t. zipl_load hw s = Some (Stop NormalReset, t) \<and> booted hw content (unat bs) segs psw (mem s) t"
  by (rule block_source.zipl_load_boots_eckd [OF assms(1-4, 6, 7, 5, 9-11, 8, 12-15)])

text \<open>
  The disk in compatible layout of \<open>EckdBoot\<close>, booted from the top: block 0 begins with IPL1, block
  16 holds nothing.
\<close>

theorem zipl_load_boots_script_witness:
  "\<exists>t. zipl_load (disk_hw cdl_example) disk_machine = Some (Stop NormalReset, t) \<and> mem t 0x20000 = 42 \<and>
     mem_get (mem t) 0 8 = to_be 8 (0x80010000 :: u64)"
proof -
  have h: "block_source (disk_hw cdl_example :: nat hw) (\<lambda>s. blk_ready s \<and> virtio_get_block_size s = 4096) 4096 (2 ^ 65)
      (disk_content cdl_example 4096)" by (rule disk_hw.blocks.block_source_axioms)
  note d = disk_machine_settings
  have m: "cu_model disk_machine = VIRTIO_ID_BLOCK" using disk_machine_ready(1) by (simp add: blk_ready_def)
  have "slice 0 4 (cdl_page 0) = [0xc9, 0xd7, 0xd3, 0xf1]" by (simp add: slice_filled_4k) (simp add: cdl_simps)
  then have z: "take 4 (cdl_page 0) \<noteq> ZIPL_MAGIC" by (simp add: slice_def ZIPL_MAGIC_def lit_def)
  have "take 75 (mem_get cdl_example 0x10000 4096) ! 6 = 0" by (simp add: cdl_simps del: mem_get_numeral)
  moreover have "offset IsoVolDesc [Fld ''version''] = 6" by (simp add: record_defs)
  ultimately have v: "\<not> is_iso_vd_valid (take 75 (disk_content cdl_example 4096 16 (unat (4096 :: s32))))"
    by (simp add: is_iso_vd_valid_def disk_content_4k del: mem_get_numeral)
  obtain t where t: "zipl_load (disk_hw cdl_example) disk_machine = Some (Stop NormalReset, t)"
    "booted (disk_hw cdl_example) (disk_content cdl_example 4096) 4096 [(0x20000, [(9, 1)])] 0x80010000 (mem disk_machine) t"
    using zipl_load_boots_script [OF h _ _ _ _ d(6) disk_machine_ready(3) d(2, 3) m disk_geometry(3) z v cdl_boots(1)]
      cdl_boots(2) disk_machine_ready(1, 2) d(5) by fastforce
  have b: "mem_get (mem t) 0x20000 4096 = mem_get cdl_example 0x9000 4096" "mem_get (mem t) 0 8 = to_be 8 (0x80010000 :: u64)"
    using t(2) by (simp_all add: booted_def extents_size_def disk_content_4k del: mem_get_numeral)
  have "mem t 0x20000 = cdl_example 0x9000" using arg_cong [OF b(1), of "\<lambda>xs. xs ! 0"] by simp
  then show ?thesis using t(1) b(2) by (simp add: cdl_example_def cdl_bytes_def)
qed

end
