(* ===== verification/IsoBoot.thy ===== *)
theory IsoBoot
  imports Iso Image
begin

text \<open>
  Booting an El Torito image, for any device that keeps the contract \<open>block_source\<close> with sectors
  of 2048 bytes: what the directory tree says, that the search for the size of the boot image
  walks it depth first, and that \<open>ipl_iso_el_torito\<close> loads the image the boot catalog names.
\<close>

section \<open>Runs that touch only the sector buffer\<close>

definition sec_only :: "('d machine \<Rightarrow> bool) \<Rightarrow> 'd machine \<Rightarrow> 'd machine \<Rightarrow> bool" where
  "sec_only ok s t \<longleftrightarrow> ok t \<and> length (bufs t Sec) = 16384 \<and> (\<exists>x j. t = s\<lparr>bufs := (bufs s)(Sec := x), io := j\<rparr>)"

lemma sec_only_refl: "ok s \<Longrightarrow> length (bufs s Sec) = 16384 \<Longrightarrow> sec_only ok s s"
  unfolding sec_only_def by (auto intro!: exI [of _ "bufs s Sec"] exI [of _ "io s"])

lemma sec_only_trans:
  assumes "sec_only ok s t" "sec_only ok t u"
  shows "sec_only ok s u"
proof -
  obtain x j y k where "t = s\<lparr>bufs := (bufs s)(Sec := x), io := j\<rparr>" "u = t\<lparr>bufs := (bufs t)(Sec := y), io := k\<rparr>"
    using assms unfolding sec_only_def by blast
  then have "u = s\<lparr>bufs := (bufs s)(Sec := y), io := k\<rparr>" by simp
  then show ?thesis using assms(2) unfolding sec_only_def by blast
qed

lemma sec_onlyD: "sec_only ok s t \<Longrightarrow> ok t" "sec_only ok s t \<Longrightarrow> length (bufs t Sec) = 16384"
  "sec_only ok s t \<Longrightarrow> mem t = mem s" "sec_only ok s t \<Longrightarrow> loadparm_str t = loadparm_str s"
  unfolding sec_only_def by auto

definition temp_of :: "'d machine \<Rightarrow> u8 list" where
  "temp_of t = slice 2048 2048 (bufs t Sec)"

section \<open>The directory tree\<close>

text \<open>
  What the search sees of a directory: its records, and the records of the directories in it.
  \<open>dir_lookup\<close> is the size of the first extent at \<open>rba\<close>, depth first.
\<close>

datatype dirent = Leaf u32 u32 | Sub u32 u32 "dirent list"

fun dir_lookup :: "u32 \<Rightarrow> dirent list \<Rightarrow> u32 option" where
  "dir_lookup rba [] = None"
| "dir_lookup rba (Leaf l n # es) = (if rba = l then Some n else dir_lookup rba es)"
| "dir_lookup rba (Sub l n sub # es) = (if rba = l then Some n
     else case dir_lookup rba sub of Some m \<Rightarrow> Some m | None \<Rightarrow> dir_lookup rba es)"

abbreviation iso_sector :: "(u64 \<Rightarrow> nat \<Rightarrow> u8 list) \<Rightarrow> u32 \<Rightarrow> u8 list" where
  "iso_sector content n \<equiv> content (ucast n) 2048"

definition dir_rec :: "(u64 \<Rightarrow> nat \<Rightarrow> u8 list) \<Rightarrow> u32 \<Rightarrow> u32 \<Rightarrow> u8 list" where
  "dir_rec content loc off = slice (unat off) 33 (iso_sector content loc)"

definition padding_at :: "(u64 \<Rightarrow> nat \<Rightarrow> u8 list) \<Rightarrow> u32 \<Rightarrow> u32 \<Rightarrow> bool" where
  "padding_at content loc off \<longleftrightarrow> off = 2048 \<or> off < 2048 \<and> iso_sector content loc ! unat off = 0"

definition entry_at :: "(u64 \<Rightarrow> nat \<Rightarrow> u8 list) \<Rightarrow> u32 \<Rightarrow> u32 \<Rightarrow> u8 list \<Rightarrow> bool" where
  "entry_at content loc off r \<longleftrightarrow> r = dir_rec content loc off \<and> unat off + 33 \<le> 2048 \<and> dr_len r \<noteq> 0 \<and>
     unat off + unat (dr_len r) \<le> 2048"

text \<open>The first record of a directory behind those of itself and its parent, and the bytes left.\<close>

definition first_off :: "(u64 \<Rightarrow> nat \<Rightarrow> u8 list) \<Rightarrow> u32 \<Rightarrow> u32" where
  "first_off content loc = (let a = dr_len (dir_rec content loc 0) in a + dr_len (dir_rec content loc a))"

definition first_rem :: "(u64 \<Rightarrow> nat \<Rightarrow> u8 list) \<Rightarrow> u32 \<Rightarrow> u32" where
  "first_rem content loc = (let r = dir_rec content loc 0; a = dr_len r in data_len r - a - dr_len (dir_rec content loc a))"

definition dir_opens :: "(u64 \<Rightarrow> nat \<Rightarrow> u8 list) \<Rightarrow> nat \<Rightarrow> u32 \<Rightarrow> bool" where
  "dir_opens content limit loc \<longleftrightarrow> unat loc < limit \<and> unat (dr_len (dir_rec content loc 0)) + 33 \<le> 2048 \<and>
     first_off content loc \<noteq> 0"

text \<open>The root directory, as the primary volume descriptor in sector 16 names it.\<close>

definition iso_root :: "(u64 \<Rightarrow> nat \<Rightarrow> u8 list) \<Rightarrow> u32" where
  "iso_root content = iso_733_to_u32 (be (slice (offset IsoVolDesc [Fld ''vd'', Fld ''primary'', Fld ''rootdir'', Fld ''ext_loc'']) 8 (iso_sector content 16)))"

lemma root_layout [simp]: "offset IsoVolDesc [Fld ''vd'', Fld ''primary'', Fld ''rootdir'', Fld ''ext_loc''] = 158"
  by (simp add: record_defs)

text \<open>
  \<open>dir_at level loc off rem es\<close>: from offset \<open>off\<close> of sector \<open>loc\<close> on, \<open>rem\<close> bytes of a directory
  at depth \<open>level\<close> hold the entries \<open>es\<close>. A directory at the greatest depth is not entered.
\<close>

inductive dir_at :: "(u64 \<Rightarrow> nat \<Rightarrow> u8 list) \<Rightarrow> nat \<Rightarrow> nat \<Rightarrow> u32 \<Rightarrow> u32 \<Rightarrow> u32 \<Rightarrow> dirent list \<Rightarrow> bool"
  for content limit where
  dir_end: "padding_at content loc off \<Longrightarrow> unat loc < limit \<Longrightarrow> rem = 2048 - off \<Longrightarrow> dir_at content limit level loc off rem []"
| dir_sector: "padding_at content loc off \<Longrightarrow> unat loc < limit \<Longrightarrow> rem \<noteq> 2048 - off \<Longrightarrow> unat (loc + 1) < limit \<Longrightarrow>
     dir_at content limit level (loc + 1) 0 (rem - (2048 - off)) es \<Longrightarrow> dir_at content limit level loc off rem es"
| dir_last: "entry_at content loc off r \<Longrightarrow> unat loc < limit \<Longrightarrow> \<not> flag_on (file_flags r) 2 \<or> level = 7 \<Longrightarrow> rem = dr_len r \<Longrightarrow>
     dir_at content limit level loc off rem [Leaf (ext_loc r) (data_len r)]"
| dir_leaf: "entry_at content loc off r \<Longrightarrow> unat loc < limit \<Longrightarrow> \<not> flag_on (file_flags r) 2 \<or> level = 7 \<Longrightarrow> rem \<noteq> dr_len r \<Longrightarrow>
     dir_at content limit level loc (off + dr_len r) (rem - dr_len r) es \<Longrightarrow>
     dir_at content limit level loc off rem (Leaf (ext_loc r) (data_len r) # es)"
| dir_sub: "entry_at content loc off r \<Longrightarrow> unat loc < limit \<Longrightarrow> flag_on (file_flags r) 2 \<Longrightarrow> level < 7 \<Longrightarrow>
     dir_opens content limit (ext_loc r) \<Longrightarrow>
     dir_at content limit (level + 1) (ext_loc r) (first_off content (ext_loc r)) (first_rem content (ext_loc r)) sub \<Longrightarrow>
     dir_at content limit level loc (off + dr_len r) (rem - dr_len r) es \<Longrightarrow>
     dir_at content limit level loc off rem (Sub (ext_loc r) (data_len r) sub # es)"

text \<open>The tables of the walk at depth \<open>level\<close>.\<close>

definition walk_at :: "nat \<Rightarrow> u32 \<Rightarrow> u32 \<Rightarrow> u32 \<Rightarrow> iso_dirs \<Rightarrow> bool" where
  "walk_at level loc off rem d \<longleftrightarrow> length (sec_loc d) = 8 \<and> length (sec_offset d) = 8 \<and> length (dir_rem d) = 8 \<and> level < 8 \<and>
     sec_loc d ! level = loc \<and> sec_offset d ! level = off \<and> dir_rem d ! level = rem"

definition same_below :: "nat \<Rightarrow> iso_dirs \<Rightarrow> iso_dirs \<Rightarrow> bool" where
  "same_below level d d' \<longleftrightarrow> length (sec_loc d') = 8 \<and> length (sec_offset d') = 8 \<and> length (dir_rem d') = 8 \<and>
     (\<forall>k<level. sec_loc d' ! k = sec_loc d ! k \<and> sec_offset d' ! k = sec_offset d ! k \<and> dir_rem d' ! k = dir_rem d ! k)"

lemma same_below_trans: "same_below l d d' \<Longrightarrow> same_below k d' e \<Longrightarrow> l \<le> k \<Longrightarrow> same_below l d e"
  by (auto simp: same_below_def)

lemma walk_at_below: "walk_at l loc off rem d \<Longrightarrow> same_below k d d' \<Longrightarrow> l < k \<Longrightarrow> walk_at l loc off rem d'"
  by (auto simp: walk_at_def same_below_def)

section \<open>One round of the walk\<close>

text \<open>What follows the decision about a record.\<close>

definition walk_on :: "'d hw \<Rightarrow> u32 \<Rightarrow> nat \<Rightarrow> walk \<Rightarrow> ('d, u32) fw" where
  "walk_on hw rba level w = (case w of
       Found n \<Rightarrow> ret n
     | Down d' \<Rightarrow> file_size_loop hw rba (level + 1) d'
     | Stay deep d' \<Rightarrow>
         seq (whenM deep (sclp_print hw (lit ''ISO-9660 directory depth limit exceeded'' @ [10])))
         (if dir_rem d' ! level = 0
          then if level = 0 then stop (Bad ''sec_loc index'')
               else seq (read_iso_sector hw (sec_loc d' ! (level - 1)) (Buf Sec 2048) ''Failed to read ISO directory'')
                   (file_size_loop hw rba (level - 1) d')
          else file_size_loop hw rba level d'))"

text \<open>What a round relies on.\<close>

definition walk_ready :: "('d machine \<Rightarrow> bool) \<Rightarrow> (u64 \<Rightarrow> nat \<Rightarrow> u8 list) \<Rightarrow> nat \<Rightarrow> nat \<Rightarrow> u32 \<Rightarrow> u32 \<Rightarrow> u32 \<Rightarrow>
    iso_dirs \<Rightarrow> 'd machine \<Rightarrow> bool" where
  "walk_ready ok content limit level loc off rem d t \<longleftrightarrow> ok t \<and> length (bufs t Sec) = 16384 \<and> walk_at level loc off rem d \<and>
     (if off = 0 then rem \<noteq> 0 else temp_of t = iso_sector content loc) \<and>
     (0 < level \<longrightarrow> unat (sec_loc d ! (level - 1)) < limit)"

text \<open>
  How a walk at depth \<open>level\<close> ends: with the size it looks for, or back in the directory above,
  whose sector has been read again; above the root there is none.
\<close>

definition walked :: "'d hw \<Rightarrow> ('d machine \<Rightarrow> bool) \<Rightarrow> (u64 \<Rightarrow> nat \<Rightarrow> u8 list) \<Rightarrow> u32 \<Rightarrow> nat \<Rightarrow> iso_dirs \<Rightarrow> 'd machine \<Rightarrow>
    (u32 result \<times> 'd machine) option \<Rightarrow> u32 option \<Rightarrow> bool" where
  "walked hw ok content rba level d t y res \<longleftrightarrow> (\<exists>u. sec_only ok t u \<and> (case res of
       Some n \<Rightarrow> y = Some (Ret n, u)
     | None \<Rightarrow> if level = 0 then y = Some (Stop (Bad ''sec_loc index''), u)
         else \<exists>d'. y = file_size_loop hw rba (level - 1) d' u \<and> temp_of u = iso_sector content (sec_loc d ! (level - 1)) \<and>
           same_below level d d'))"

lemma walked_later:
  assumes "sec_only ok t t'" "same_below level d d'" "walked hw ok content rba level d' t' y res"
  shows "walked hw ok content rba level d t y res"
proof -
  obtain u where u: "sec_only ok t' u" "case res of
       Some n \<Rightarrow> y = Some (Ret n, u)
     | None \<Rightarrow> if level = 0 then y = Some (Stop (Bad ''sec_loc index''), u)
         else \<exists>d''. y = file_size_loop hw rba (level - 1) d'' u \<and> temp_of u = iso_sector content (sec_loc d' ! (level - 1)) \<and>
           same_below level d' d''"
    using assms(3) unfolding walked_def by blast
  have "0 < level \<Longrightarrow> sec_loc d' ! (level - 1) = sec_loc d ! (level - 1)" using assms(2) by (simp add: same_below_def)
  then show ?thesis
    using u(2) sec_only_trans [OF assms(1) u(1)] same_below_trans [OF assms(2) _ order_refl]
    unfolding walked_def by (intro exI [of _ u]) (auto split: option.splits if_splits)
qed

lemmas set_defs = set_loc_def set_offset_def set_rem_def

lemma sizeof_IsoDirHdr [simp]: "sizeof IsoDirHdr = 33"
  by (simp add: record_defs)

lemma load_dir_hdr_ok:
  assumes "length (bufs t Sec) = 16384" "unat off \<le> 2048"
  shows "load_dir_hdr off t = Some (Ret (slice (2048 + unat off) 33 (bufs t Sec)), t)"
  using assms by (simp add: load_dir_hdr_def)

lemma temp_record:
  assumes "length (bufs t Sec) = 16384" "unat off + 33 \<le> 2048" "temp_of t = iso_sector content loc"
  shows "slice (2048 + unat off) 33 (bufs t Sec) = dir_rec content loc off"
  using assms(1, 2) unfolding dir_rec_def assms(3) [symmetric] temp_of_def
  by (intro nth_equalityI) (simp_all add: nth_slice add.assoc)

lemma temp_first:
  assumes "length (bufs t Sec) = 16384" "unat off < 2048" "temp_of t = iso_sector content loc"
  shows "slice (2048 + unat off) 33 (bufs t Sec) ! 0 = iso_sector content loc ! unat off"
  using assms(1, 2) unfolding assms(3) [symmetric] temp_of_def by (simp add: nth_slice)

locale iso_source = block_source hw ok 2048 limit content for hw :: "'d hw" and ok limit content
begin

lemma read_iso_ok:
  assumes "ok s" "length (bufs s Sec) = 16384" "off = 0 \<or> off = 2048" "unat n < limit"
  obtains t where "read_iso_sector hw n (Buf Sec off) msg s = Some (Ret (), t)" "sec_only ok s t"
    "slice off 2048 (bufs t Sec) = iso_sector content n"
    "\<And>i k. i + k \<le> 16384 \<Longrightarrow> i + k \<le> off \<or> off + 2048 \<le> i \<Longrightarrow> slice i k (bufs t Sec) = slice i k (bufs s Sec)"
proof -
  have n: "unat (ucast n :: u64) = unat n"
    using unsigned_less [of n, where ?'a = nat] by (simp add: unsigned_ucast_eq take_bit_nat_eq_self)
  obtain t where t: "virtio_read_many hw (ucast n) (Buf Sec off) 1 s = Some (Ret 0, t)" "ok t"
    "t\<lparr>io := io s\<rparr> = put (Buf Sec off) (iso_sector content n) s"
  proof -
    have "room (Buf Sec off) 2048 s" using assms(2, 3) by auto
    moreover have "unat (ucast n :: u64) + unat (1 :: s32) \<le> limit" using assms(4) by (simp add: n)
    ultimately have "\<exists>t. virtio_read_many hw (ucast n) (Buf Sec off) 1 s = Some (Ret 0, t) \<and> ok t \<and>
        t\<lparr>io := io s\<rparr> = put (Buf Sec off) (iso_sector content n) s"
      by (intro read [OF assms(1)]) simp_all
    then show ?thesis using that by blast
  qed
  have l: "off + length (iso_sector content n) \<le> length (bufs s Sec)" using assms(2, 3) by (auto simp: length_content)
  have e: "t = s\<lparr>bufs := (bufs s)(Sec := splice off (iso_sector content n) (bufs s Sec)), io := io t\<rparr>"
    using arg_cong [OF t(3), of "\<lambda>u. u\<lparr>io := io t\<rparr>"] by simp
  have b: "bufs t Sec = splice off (iso_sector content n) (bufs s Sec)"
    using arg_cong [OF t(3), of "\<lambda>u. bufs u Sec"] by simp
  have "length (bufs t Sec) = 16384" using l assms(2) by (simp add: b)
  then have "sec_only ok s t" unfolding sec_only_def using t(2) e by blast
  moreover have "read_iso_sector hw n (Buf Sec off) msg s = Some (Ret (), t)"
    using t(1) by (simp add: read_iso_sector_def bnd_def ret_def)
  moreover have "slice off 2048 (bufs t Sec) = iso_sector content n" using l by (simp add: b length_content)
  moreover have "slice i k (bufs t Sec) = slice i k (bufs s Sec)" if "i + k \<le> 16384" "i + k \<le> off \<or> off + 2048 \<le> i" for i k
    using that l assms(2) by (simp add: b slice_splice_other length_content)
  ultimately show ?thesis using that by blast
qed

lemma read_temp_ok:
  assumes "ok s" "length (bufs s Sec) = 16384" "unat n < limit"
  obtains t where "read_iso_sector hw n (Buf Sec 2048) msg s = Some (Ret (), t)" "sec_only ok s t"
    "temp_of t = iso_sector content n" "slice 0 2048 (bufs t Sec) = slice 0 2048 (bufs s Sec)"
proof (rule read_iso_ok [OF assms(1, 2) _ assms(3), of 2048 msg])
  fix t
  assume t: "read_iso_sector hw n (Buf Sec 2048) msg s = Some (Ret (), t)" "sec_only ok s t"
    "slice 2048 2048 (bufs t Sec) = iso_sector content n"
    "\<And>i k. i + k \<le> 16384 \<Longrightarrow> i + k \<le> 2048 \<or> 2048 + 2048 \<le> i \<Longrightarrow> slice i k (bufs t Sec) = slice i k (bufs s Sec)"
  show thesis
    using t(3) by (intro that [OF t(1, 2)]) (simp_all add: temp_of_def t(4) [of 0 2048])
qed simp

lemma read_first_ok:
  assumes "ok s" "length (bufs s Sec) = 16384" "unat n < limit"
  obtains t where "read_iso_sector hw n (Buf Sec 0) msg s = Some (Ret (), t)" "sec_only ok s t"
    "slice 0 2048 (bufs t Sec) = iso_sector content n"
proof (rule read_iso_ok [OF assms(1, 2) _ assms(3), of 0 msg])
  fix t
  assume t: "read_iso_sector hw n (Buf Sec 0) msg s = Some (Ret (), t)" "sec_only ok s t" "slice 0 2048 (bufs t Sec) = iso_sector content n"
  show thesis by (rule that [OF t])
qed simp

lemma loop_round:
  assumes "walk_ready ok content limit level loc off rem d t" "unat loc < limit" "off \<le> 2048"
  obtains t' where "sec_only ok t t'" "temp_of t' = iso_sector content loc"
    "file_size_loop hw rba level d t = walk_on hw rba level (walk_record rba level (slice (2048 + unat off) 33 (bufs t' Sec)) d) t'"
proof -
  have r: "ok t" "length (bufs t Sec) = 16384" "walk_at level loc off rem d" "off \<noteq> 0 \<Longrightarrow> temp_of t = iso_sector content loc"
      "off = 0 \<Longrightarrow> rem \<noteq> 0"
    using assms(1) by (simp_all add: walk_ready_def)
  obtain t' where t': "whenM (off = 0) (read_iso_sector hw loc (Buf Sec 2048) ''Failed to read ISO directory'') t = Some (Ret (), t')"
      "sec_only ok t t'" "temp_of t' = iso_sector content loc"
  proof (cases "off = 0")
    case True
    obtain t' where "read_iso_sector hw loc (Buf Sec 2048) ''Failed to read ISO directory'' t = Some (Ret (), t')" "sec_only ok t t'"
        "temp_of t' = iso_sector content loc"
      using read_temp_ok [OF r(1, 2) assms(2)] by metis
    then show ?thesis using that [of t'] True by simp
  next
    case False
    show ?thesis
    proof (rule that)
      show "whenM (off = 0) (read_iso_sector hw loc (Buf Sec 2048) ''Failed to read ISO directory'') t = Some (Ret (), t)"
        using False by (simp add: whenM_def ret_def)
      show "sec_only ok t t" using r(1, 2) by (rule sec_only_refl)
      show "temp_of t = iso_sector content loc" by (rule r(4) [OF False])
    qed
  qed
  have o: "unat off \<le> 2048" using assms(3) by (simp add: word_le_nat_alt)
  have d: "sec_offset d ! level = off" "sec_loc d ! level = loc" "dir_rem d ! level = rem" using r(3) by (simp_all add: walk_at_def)
  have w: "seq (whenM (off = 0) (read_iso_sector hw loc (Buf Sec 2048) ''Failed to read ISO directory'')) k t = k t'" for k :: "('d, u32) fw"
    using t'(1) by (simp only: bnd_def [of _ _ t]) simp
  have e: "\<not> (off = 0 \<and> rem = 0)" using r(5) by blast
  have "file_size_loop hw rba level d t =
      bnd (load_dir_hdr off) (\<lambda>r. walk_on hw rba level (walk_record rba level r d)) t'"
    unfolding walk_on_def
    by (subst file_size_loop.simps) (simp only: d assms(3) IPL_assert_True bnd_ret w e if_False)
  also have "\<dots> = walk_on hw rba level (walk_record rba level (slice (2048 + unat off) 33 (bufs t' Sec)) d) t'"
    using load_dir_hdr_ok [OF sec_onlyD(2) [OF t'(2)] o] by (simp add: bnd_Ret)
  finally show ?thesis using that t'(2, 3) by blast
qed

lemma stay_ok:
  assumes "ok t" "length (bufs t Sec) = 16384"
  obtains t' where "sec_only ok t t'" "temp_of t' = temp_of t" "walk_on hw rba level (Stay deep d') t =
    (if dir_rem d' ! level = 0
     then if level = 0 then stop (Bad ''sec_loc index'')
          else seq (read_iso_sector hw (sec_loc d' ! (level - 1)) (Buf Sec 2048) ''Failed to read ISO directory'')
              (file_size_loop hw rba (level - 1) d')
     else file_size_loop hw rba level d') t'"
proof -
  obtain j where j: "sclp_print hw (lit ''ISO-9660 directory depth limit exceeded'' @ [10]) t = Some (Ret (), t\<lparr>io := j\<rparr>)" "ok (t\<lparr>io := j\<rparr>)"
    using print_ok [OF assms(1), of "lit ''ISO-9660 directory depth limit exceeded'' @ [10]"] by (auto simp: lit_def)
  define t' where "t' = (if deep then t\<lparr>io := j\<rparr> else t)"
  have "t' = t\<lparr>bufs := (bufs t)(Sec := bufs t Sec), io := io t'\<rparr>" by (simp add: t'_def)
  moreover have "ok t'" "length (bufs t' Sec) = 16384" using assms j(2) by (simp_all add: t'_def)
  ultimately have "sec_only ok t t'" unfolding sec_only_def by blast
  moreover have "temp_of t' = temp_of t" by (simp add: t'_def temp_of_def)
  moreover have "walk_on hw rba level (Stay deep d') t =
    (if dir_rem d' ! level = 0
     then if level = 0 then stop (Bad ''sec_loc index'')
          else seq (read_iso_sector hw (sec_loc d' ! (level - 1)) (Buf Sec 2048) ''Failed to read ISO directory'')
              (file_size_loop hw rba (level - 1) d')
     else file_size_loop hw rba level d') t'"
    by (cases deep) (simp_all add: walk_on_def t'_def bnd_Ret j(1))
  ultimately show ?thesis using that by blast
qed

lemma stay_pops:
  assumes "ok t" "length (bufs t Sec) = 16384" "dir_rem d' ! level = 0" "same_below level d d'"
    and "0 < level \<Longrightarrow> unat (sec_loc d ! (level - 1)) < limit"
  shows "walked hw ok content rba level d t (walk_on hw rba level (Stay deep d') t) None"
proof -
  obtain t' where t': "sec_only ok t t'" "walk_on hw rba level (Stay deep d') t =
    (if dir_rem d' ! level = 0
     then if level = 0 then stop (Bad ''sec_loc index'')
          else seq (read_iso_sector hw (sec_loc d' ! (level - 1)) (Buf Sec 2048) ''Failed to read ISO directory'')
              (file_size_loop hw rba (level - 1) d')
     else file_size_loop hw rba level d') t'"
    by (rule stay_ok [OF assms(1, 2), of rba level deep d']) (rule that)
  show ?thesis
  proof (cases "level = 0")
    case True
    then show ?thesis using t' assms(3) by (auto simp: walked_def stop_def)
  next
    case False
    then have l: "sec_loc d' ! (level - 1) = sec_loc d ! (level - 1)" using assms(4) by (simp add: same_below_def)
    obtain u where u: "read_iso_sector hw (sec_loc d ! (level - 1)) (Buf Sec 2048) ''Failed to read ISO directory'' t' = Some (Ret (), u)"
        "sec_only ok t' u" "temp_of u = iso_sector content (sec_loc d ! (level - 1))"
      using read_temp_ok [OF sec_onlyD(1, 2) [OF t'(1)]] assms(5) False by blast
    have "walk_on hw rba level (Stay deep d') t = file_size_loop hw rba (level - 1) d' u"
      using False t'(2) u(1) assms(3) l by (simp add: bnd_Ret)
    then show ?thesis
      using False u(3) assms(4) sec_only_trans [OF t'(1) u(2)] unfolding walked_def by (intro exI [of _ u]) auto
  qed
qed

lemma enter_ok:
  assumes "ok t" "length (bufs t Sec) = 16384" "walk_at level loc 0 0 d" "dir_opens content limit loc"
  obtains t' d' where "sec_only ok t t'" "temp_of t' = iso_sector content loc" "same_below level d d'"
    "walk_at level loc (first_off content loc) (first_rem content loc) d'"
    "file_size_loop hw rba level d t = file_size_loop hw rba level d' t'"
proof -
  have d: "sec_loc d ! level = loc" "sec_offset d ! level = 0" "dir_rem d ! level = 0" "level < 8"
      "length (sec_loc d) = 8" "length (sec_offset d) = 8" "length (dir_rem d) = 8"
    using assms(3) by (simp_all add: walk_at_def)
  have o: "unat loc < limit" "unat (dr_len (dir_rec content loc 0)) + 33 \<le> 2048" using assms(4) by (simp_all add: dir_opens_def)
  obtain t' where t': "read_iso_sector hw loc (Buf Sec 2048) ''Failed to read ISO directory'' t = Some (Ret (), t')"
      "sec_only ok t t'" "temp_of t' = iso_sector content loc"
    using read_temp_ok [OF assms(1, 2) o(1)] by metis
  note len = sec_onlyD(2) [OF t'(2)]
  define a where "a = dr_len (dir_rec content loc 0)"
  have r: "slice (2048 + unat (0 :: u32)) 33 (bufs t' Sec) = dir_rec content loc 0"
      "slice (2048 + unat a) 33 (bufs t' Sec) = dir_rec content loc a"
    using temp_record [of t' 0 content loc] temp_record [of t' a content loc] len t'(3) o(2) by (simp_all add: a_def)
  have h: "load_dir_hdr 0 t' = Some (Ret (dir_rec content loc 0), t')" "load_dir_hdr a t' = Some (Ret (dir_rec content loc a), t')"
    using load_dir_hdr_ok [OF len, of 0] load_dir_hdr_ok [OF len, of a] o(2) r by (simp_all add: a_def)
  define d' where "d' = set_offset level (first_off content loc) (set_rem level (first_rem content loc) d)"
  have e: "enter_dir level d t' = Some (Ret d', t')"
    using h d by (simp add: enter_dir_def bnd_Ret a_def [symmetric] ret_def d'_def set_defs first_off_def first_rem_def Let_def)
  have "file_size_loop hw rba level d t = file_size_loop hw rba level d' t'"
    using t'(1) e by (subst file_size_loop.simps) (simp add: d bnd_Ret)
  moreover have "walk_at level loc (first_off content loc) (first_rem content loc) d'" "same_below level d d'"
    using d by (simp_all add: walk_at_def same_below_def d'_def set_defs)
  ultimately show ?thesis using that [OF t'(2, 3)] by blast
qed

lemma padding_record:
  assumes "padding_at content loc off" "length (bufs t Sec) = 16384" "temp_of t = iso_sector content loc" "walk_at level loc off rem d"
  shows "walk_record rba level (slice (2048 + unat off) 33 (bufs t Sec)) d =
    Stay False (set_loc level (loc + 1) (set_offset level 0 (set_rem level (rem - (2048 - off)) d)))"
proof -
  have "dr_len (slice (2048 + unat off) 33 (bufs t Sec)) = 0" if "off \<noteq> 2048"
    using that assms(1-3) temp_first [of t off content loc] by (simp add: padding_at_def dr_len_def record_defs word_less_nat_alt)
  then show ?thesis using assms(4) by (auto simp: walk_record_def walk_at_def Let_def)
qed

lemma padding_small: "padding_at content loc off \<Longrightarrow> off \<le> 2048"
  by (auto simp: padding_at_def)

lemma entry_small: "entry_at content loc off r \<Longrightarrow> off < 2048"
  by (simp add: entry_at_def word_less_nat_alt)

lemma entry_record:
  assumes "entry_at content loc off r" "length (bufs t Sec) = 16384" "temp_of t = iso_sector content loc" "walk_at level loc off rem d"
    and "d' = set_offset level (off + dr_len r) (set_rem level (rem - dr_len r) d)"
  shows "walk_record rba level (slice (2048 + unat off) 33 (bufs t Sec)) d =
    (if rba = ext_loc r then Found (data_len r)
     else if flag_on (file_flags r) 2
     then if level = 7 then Stay True d'
          else Down (set_rem (level + 1) 0 (set_offset (level + 1) 0 (set_loc (level + 1) (ext_loc r) d')))
     else Stay False d')"
proof -
  have "slice (2048 + unat off) 33 (bufs t Sec) = r"
    using temp_record [of t off content loc] assms(1-3) by (simp add: entry_at_def)
  then show ?thesis using assms(1, 4, 5) entry_small [OF assms(1)] by (auto simp: walk_record_def walk_at_def entry_at_def Let_def)
qed

lemma entry_next:
  assumes "entry_at content loc off r"
  shows "off + dr_len r \<noteq> 0" "off + dr_len r \<le> 2048"
proof -
  have e: "dr_len r \<noteq> 0" "unat off + unat (dr_len r) \<le> 2048" using assms unfolding entry_at_def by blast+
  then have "unat (off + dr_len r) = unat off + unat (dr_len r)" "0 < unat (dr_len r)"
    by (simp_all add: unat_word_ariths unat_gt_0)
  with e show "off + dr_len r \<noteq> 0" "off + dr_len r \<le> 2048" by (auto simp: word_le_nat_alt)
qed

lemma dir_at_small: "dir_at content limit level loc off rem es \<Longrightarrow> off \<le> 2048 \<and> unat loc < limit"
  by (cases rule: dir_at.cases) (auto dest: padding_small entry_small)

lemma walk_readyD:
  assumes "walk_ready ok content limit level loc off rem d t"
  shows "walk_at level loc off rem d" "0 < level \<Longrightarrow> unat (sec_loc d ! (level - 1)) < limit" "same_below level d d"
  using assms by (simp_all add: walk_ready_def walk_at_def same_below_def)

lemma padding_round:
  assumes "walk_ready ok content limit level loc off rem d t" "padding_at content loc off" "unat loc < limit"
    and "d' = set_loc level (loc + 1) (set_offset level 0 (set_rem level (rem - (2048 - off)) d))"
  obtains t' where "sec_only ok t t'" "file_size_loop hw rba level d t = walk_on hw rba level (Stay False d') t'" "same_below level d d'"
    "walk_at level (loc + 1) 0 (rem - (2048 - off)) d'"
proof -
  obtain t' where t': "sec_only ok t t'" "temp_of t' = iso_sector content loc"
    "file_size_loop hw rba level d t = walk_on hw rba level (walk_record rba level (slice (2048 + unat off) 33 (bufs t' Sec)) d) t'"
    using loop_round [OF assms(1, 3) padding_small [OF assms(2)]] by blast
  note w = walk_readyD(1) [OF assms(1)]
  show ?thesis
  proof (rule that [OF t'(1)])
    show "file_size_loop hw rba level d t = walk_on hw rba level (Stay False d') t'"
      using t'(3) padding_record [OF assms(2) sec_onlyD(2) [OF t'(1)] t'(2) w] by (simp add: assms(4))
  qed (use w in \<open>simp_all add: assms(4) walk_at_def same_below_def set_defs\<close>)
qed

lemma entry_round:
  assumes "walk_ready ok content limit level loc off rem d t" "entry_at content loc off r" "unat loc < limit"
    and "d' = set_offset level (off + dr_len r) (set_rem level (rem - dr_len r) d)"
  obtains t' where "sec_only ok t t'" "temp_of t' = iso_sector content loc" "same_below level d d'"
    "walk_at level loc (off + dr_len r) (rem - dr_len r) d'"
    "file_size_loop hw rba level d t = walk_on hw rba level
      (if rba = ext_loc r then Found (data_len r)
       else if flag_on (file_flags r) 2
       then if level = 7 then Stay True d'
            else Down (set_rem (level + 1) 0 (set_offset (level + 1) 0 (set_loc (level + 1) (ext_loc r) d')))
       else Stay False d') t'"
proof -
  obtain t' where t': "sec_only ok t t'" "temp_of t' = iso_sector content loc"
    "file_size_loop hw rba level d t = walk_on hw rba level (walk_record rba level (slice (2048 + unat off) 33 (bufs t' Sec)) d) t'"
    using loop_round [OF assms(1, 3) less_imp_le [OF entry_small [OF assms(2)]]] by blast
  note w = walk_readyD(1) [OF assms(1)]
  show ?thesis
    by (rule that [OF t'(1, 2) _ _ t'(3) [unfolded entry_record [OF assms(2) sec_onlyD(2) [OF t'(1)] t'(2) w assms(4)]]])
      (use w in \<open>simp_all add: assms(4) walk_at_def same_below_def set_defs\<close>)
qed

text \<open>An entry that is not gone down into: it is the one looked for, or the walk stays.\<close>

lemma leaf_round:
  assumes "walk_ready ok content limit level loc off rem d t" "entry_at content loc off r" "unat loc < limit"
    and "\<not> flag_on (file_flags r) 2 \<or> level = 7"
    and "d' = set_offset level (off + dr_len r) (set_rem level (rem - dr_len r) d)"
    and "rba \<noteq> ext_loc r \<Longrightarrow> (\<And>deep t'. sec_only ok t t' \<Longrightarrow> temp_of t' = iso_sector content loc \<Longrightarrow> same_below level d d' \<Longrightarrow>
      walk_at level loc (off + dr_len r) (rem - dr_len r) d' \<Longrightarrow>
      walked hw ok content rba level d t (walk_on hw rba level (Stay deep d') t') res)"
  shows "walked hw ok content rba level d t (file_size_loop hw rba level d t) (if rba = ext_loc r then Some (data_len r) else res)"
proof -
  obtain t' where t': "sec_only ok t t'" "temp_of t' = iso_sector content loc" "same_below level d d'"
    "walk_at level loc (off + dr_len r) (rem - dr_len r) d'"
    "file_size_loop hw rba level d t = walk_on hw rba level
      (if rba = ext_loc r then Found (data_len r)
       else if flag_on (file_flags r) 2
       then if level = 7 then Stay True d'
            else Down (set_rem (level + 1) 0 (set_offset (level + 1) 0 (set_loc (level + 1) (ext_loc r) d')))
       else Stay False d') t'"
    by (rule entry_round [OF assms(1-3, 5), of rba]) (rule that)
  show ?thesis
  proof (cases "rba = ext_loc r")
    case True
    then show ?thesis using t'(1) unfolding t'(5) by (auto simp: walked_def walk_on_def ret_def)
  next
    case False
    then show ?thesis using assms(4) assms(6) [OF False t'(1-4)] unfolding t'(5) by auto
  qed
qed

lemma stay_loops:
  assumes "sec_only ok t t'" "temp_of t' = iso_sector content loc" "same_below level d d'" "walk_at level loc off rem d'" "rem \<noteq> 0" "off \<noteq> 0"
    and "0 < level \<Longrightarrow> unat (sec_loc d ! (level - 1)) < limit"
    and "\<And>u. walk_ready ok content limit level loc off rem d' u \<Longrightarrow>
      walked hw ok content rba level d' u (file_size_loop hw rba level d' u) res"
  shows "walked hw ok content rba level d t (walk_on hw rba level (Stay deep d') t') res"
proof -
  obtain u where u: "sec_only ok t' u" "temp_of u = temp_of t'" "walk_on hw rba level (Stay deep d') t' =
      (if dir_rem d' ! level = 0
       then if level = 0 then stop (Bad ''sec_loc index'')
            else seq (read_iso_sector hw (sec_loc d' ! (level - 1)) (Buf Sec 2048) ''Failed to read ISO directory'')
                (file_size_loop hw rba (level - 1) d')
       else file_size_loop hw rba level d') u"
    by (rule stay_ok [OF sec_onlyD(1, 2) [OF assms(1)], of rba level deep d']) (rule that)
  have "walk_ready ok content limit level loc off rem d' u"
    using assms(2-7) u(2) sec_onlyD(1, 2) [OF u(1)] by (simp add: walk_ready_def same_below_def)
  from walked_later [OF sec_only_trans [OF assms(1) u(1)] assms(3) assms(8) [OF this]]
  show ?thesis using u(3) assms(4, 5) by (simp add: walk_at_def)
qed

text \<open>A directory: the walk through it, and then the one behind it.\<close>

lemma sub_walk:
  assumes "sec_only ok t t'" "same_below level d d2" "walk_at level loc off rem d2" "walk_at (level + 1) l 0 0 d2" "unat loc < limit"
    and "dir_opens content limit l" "off \<noteq> 0" "0 < level \<Longrightarrow> unat (sec_loc d ! (level - 1)) < limit"
    and "\<And>d3 u. walk_ready ok content limit (level + 1) l (first_off content l) (first_rem content l) d3 u \<Longrightarrow>
      walked hw ok content rba (level + 1) d3 u (file_size_loop hw rba (level + 1) d3 u) sub"
    and "\<And>d4 v. walk_ready ok content limit level loc off rem d4 v \<Longrightarrow>
      walked hw ok content rba level d4 v (file_size_loop hw rba level d4 v) res"
  shows "walked hw ok content rba level d t (file_size_loop hw rba (level + 1) d2 t') (case sub of Some n \<Rightarrow> Some n | None \<Rightarrow> res)"
proof -
  obtain u d3 where u: "sec_only ok t' u" "temp_of u = iso_sector content l" "same_below (level + 1) d2 d3"
      "walk_at (level + 1) l (first_off content l) (first_rem content l) d3"
      "file_size_loop hw rba (level + 1) d2 t' = file_size_loop hw rba (level + 1) d3 u"
    using enter_ok [OF sec_onlyD(1, 2) [OF assms(1)] assms(4, 6)] by metis
  have w: "walk_at level loc off rem d3" using walk_at_below [OF assms(3) u(3)] by simp
  then have l3: "sec_loc d3 ! level = loc" by (simp add: walk_at_def)
  have "walk_ready ok content limit (level + 1) l (first_off content l) (first_rem content l) d3 u"
    using u(2, 4) sec_onlyD(1, 2) [OF u(1)] assms(5, 6) l3 by (simp add: walk_ready_def dir_opens_def)
  from assms(9) [OF this] have "\<exists>v. sec_only ok u v \<and> (case sub of
       Some n \<Rightarrow> file_size_loop hw rba (level + 1) d3 u = Some (Ret n, v)
     | None \<Rightarrow> \<exists>d4. file_size_loop hw rba (level + 1) d3 u = file_size_loop hw rba level d4 v \<and> temp_of v = iso_sector content loc \<and>
         same_below (level + 1) d3 d4)"
    by (simp add: walked_def l3 cong: option.case_cong)
  then obtain v where v: "sec_only ok u v" "case sub of
       Some n \<Rightarrow> file_size_loop hw rba (level + 1) d3 u = Some (Ret n, v)
     | None \<Rightarrow> \<exists>d4. file_size_loop hw rba (level + 1) d3 u = file_size_loop hw rba level d4 v \<and> temp_of v = iso_sector content loc \<and>
         same_below (level + 1) d3 d4"
    by blast
  note all = sec_only_trans [OF assms(1) sec_only_trans [OF u(1) v(1)]]
  show ?thesis
  proof (cases sub)
    case (Some n)
    then show ?thesis using v(2) u(5) all by (auto simp: walked_def)
  next
    case None
    then obtain d4 where d4: "file_size_loop hw rba (level + 1) d3 u = file_size_loop hw rba level d4 v" "temp_of v = iso_sector content loc"
        "same_below (level + 1) d3 d4" using v(2) by auto
    have b: "same_below level d d4"
      using same_below_trans [OF same_below_trans [OF assms(2) u(3)] d4(3)] by simp
    have "walk_at level loc off rem d4" using walk_at_below [OF w d4(3)] by simp
    then have "walk_ready ok content limit level loc off rem d4 v"
      using d4(2) sec_onlyD(1, 2) [OF v(1)] assms(7, 8) b by (simp add: walk_ready_def same_below_def)
    from walked_later [OF all b assms(10) [OF this]] show ?thesis using None u(5) d4(1) by simp
  qed
qed

lemma walk_finds:
  assumes "dir_at content limit level loc off rem es"
  shows "walk_ready ok content limit level loc off rem d t \<Longrightarrow>
    walked hw ok content rba level d t (file_size_loop hw rba level d t) (dir_lookup rba es)"
  using assms
proof (induction arbitrary: t d)
  case (dir_end loc off rem level)
  obtain t' d' where t': "sec_only ok t t'" "file_size_loop hw rba level d t = walk_on hw rba level (Stay False d') t'"
      "same_below level d d'" "walk_at level (loc + 1) 0 (rem - (2048 - off)) d'"
    using padding_round [OF dir_end.prems dir_end.hyps(1, 2) refl] by metis
  have "dir_rem d' ! level = 0" using t'(4) dir_end.hyps(3) by (simp add: walk_at_def)
  note walked_later [OF t'(1) walk_readyD(3) [OF dir_end.prems]
    stay_pops [OF sec_onlyD(1, 2) [OF t'(1)] this t'(3) walk_readyD(2) [OF dir_end.prems]]]
  then show ?case using t'(2) by simp
next
  case (dir_sector loc off rem level es)
  obtain t' d' where t': "sec_only ok t t'" "file_size_loop hw rba level d t = walk_on hw rba level (Stay False d') t'"
      "same_below level d d'" "walk_at level (loc + 1) 0 (rem - (2048 - off)) d'"
    using padding_round [OF dir_sector.prems dir_sector.hyps(1, 2) refl] by metis
  then have "walk_ready ok content limit level (loc + 1) 0 (rem - (2048 - off)) d' t'"
    using sec_onlyD(1, 2) [OF t'(1)] walk_readyD(2) [OF dir_sector.prems] dir_sector.hyps(3) by (simp add: walk_ready_def same_below_def)
  from walked_later [OF t'(1, 3) dir_sector.IH [OF this]] show ?case
    using t'(2, 4) dir_sector.hyps(3) by (simp add: walk_on_def walk_at_def)
next
  case (dir_last loc off r level rem)
  have "walked hw ok content rba level d t (file_size_loop hw rba level d t) (if rba = ext_loc r then Some (data_len r) else None)"
  proof (rule leaf_round [OF dir_last.prems dir_last.hyps(1-3) refl])
    fix deep t'
    let ?d = "set_offset level (off + dr_len r) (set_rem level (rem - dr_len r) d)"
    assume t': "sec_only ok t t'" "same_below level d ?d" "walk_at level loc (off + dr_len r) (rem - dr_len r) ?d"
    have "dir_rem ?d ! level = 0" using t'(3) dir_last.hyps(4) by (simp add: walk_at_def)
    from walked_later [OF t'(1) walk_readyD(3) [OF dir_last.prems]
      stay_pops [OF sec_onlyD(1, 2) [OF t'(1)] this t'(2) walk_readyD(2) [OF dir_last.prems]]]
    show "walked hw ok content rba level d t (walk_on hw rba level (Stay deep ?d) t') None" .
  qed
  then show ?case by (simp only: dir_lookup.simps)
next
  case (dir_leaf loc off r level rem es)
  have "rem - dr_len r \<noteq> 0" using dir_leaf.hyps(4) by simp
  with dir_leaf.IH entry_next(1) [OF dir_leaf.hyps(1)] walk_readyD(2) [OF dir_leaf.prems] show ?case
    unfolding dir_lookup.simps
    by (intro leaf_round [OF dir_leaf.prems dir_leaf.hyps(1-3) refl] stay_loops [where loc = loc and off = "off + dr_len r" and rem = "rem - dr_len r"]) blast+
next
  case (dir_sub loc off r level sub rem es)
  let ?d = "set_offset level (off + dr_len r) (set_rem level (rem - dr_len r) d)"
  let ?d2 = "set_rem (level + 1) 0 (set_offset (level + 1) 0 (set_loc (level + 1) (ext_loc r) ?d))"
  have lv: "level \<noteq> 7" using dir_sub.hyps(4) by simp
  obtain t' where t': "sec_only ok t t'" "temp_of t' = iso_sector content loc" "same_below level d ?d"
    "walk_at level loc (off + dr_len r) (rem - dr_len r) ?d"
    "file_size_loop hw rba level d t = walk_on hw rba level
      (if rba = ext_loc r then Found (data_len r)
       else if flag_on (file_flags r) 2 then if level = 7 then Stay True ?d else Down ?d2 else Stay False ?d) t'"
    by (rule entry_round [OF dir_sub.prems dir_sub.hyps(1, 2) refl, of rba]) (rule that)
  have d: "same_below level d ?d2" "walk_at level loc (off + dr_len r) (rem - dr_len r) ?d2" "walk_at (level + 1) (ext_loc r) 0 0 ?d2"
    using t'(3, 4) dir_sub.hyps(4) by (simp_all add: walk_at_def same_below_def set_defs)
  note w = sub_walk [OF t'(1) d dir_sub.hyps(2, 5) entry_next(1) [OF dir_sub.hyps(1)] walk_readyD(2) [OF dir_sub.prems] dir_sub.IH]
  show ?case
  proof (cases "rba = ext_loc r")
    case True
    then show ?thesis using t'(1) unfolding t'(5) by (auto simp: walked_def walk_on_def ret_def)
  next
    case False
    then have "file_size_loop hw rba level d t = file_size_loop hw rba (level + 1) ?d2 t'"
      using dir_sub.hyps(3) lv unfolding t'(5) by (simp only: if_False if_True not_False_eq_True walk_on_def walk.case)
    then show ?thesis using w False by (simp only: dir_lookup.simps if_False)
  qed
qed

text \<open>The whole search: from the primary volume descriptor in sector 16.\<close>

lemma file_size_ok:
  assumes "ok s" "length (bufs s Sec) = 16384" "16 < limit" "root = iso_root content" "dir_opens content limit root"
    and "dir_at content limit 0 root (first_off content root) (first_rem content root) es"
  obtains t where "sec_only ok s t"
    "iso_get_file_size hw rba s = Some (case dir_lookup rba es of Some n \<Rightarrow> Ret n | None \<Rightarrow> Stop (Bad ''sec_loc index''), t)"
proof -
  let ?d = "\<lparr>sec_loc = root # replicate 7 0, sec_offset = replicate 8 0, dir_rem = replicate 8 0\<rparr>"
  have u: "unat (ISO_PRIMARY_VD_SECTOR) < limit" using assms(3) by (simp add: ISO_PRIMARY_VD_SECTOR_def)
  obtain t where t: "read_iso_sector hw ISO_PRIMARY_VD_SECTOR (Buf Sec 0) ''Failed to read ISO primary descriptor'' s = Some (Ret (), t)"
      "sec_only ok s t" "slice 0 2048 (bufs t Sec) = iso_sector content ISO_PRIMARY_VD_SECTOR"
    using read_first_ok [OF assms(1, 2) u] by metis
  have "slice 158 8 (bufs t Sec) = slice 158 8 (slice 0 2048 (bufs t Sec))"
    using sec_onlyD(2) [OF t(2)] by (intro nth_equalityI) (simp_all add: nth_slice)
  then have "load_u64 (Buf Sec 158) t = Some (Ret (be (slice 158 8 (iso_sector content 16))), t)"
    using load_Buf(3) [OF sec_onlyD(2) [OF t(2)], of 158] t(3) by (simp add: ISO_PRIMARY_VD_SECTOR_def)
  then have run: "iso_get_file_size hw rba s = file_size_loop hw rba 0 ?d t"
    using t(1) by (simp add: iso_get_file_size_def bnd_Ret assms(4) iso_root_def)
  have w: "walk_at 0 root 0 0 ?d" by (simp add: walk_at_def)
  obtain t' d' where t': "sec_only ok t t'" "temp_of t' = iso_sector content root"
      "walk_at 0 root (first_off content root) (first_rem content root) d'"
      "file_size_loop hw rba 0 ?d t = file_size_loop hw rba 0 d' t'"
    using enter_ok [OF sec_onlyD(1, 2) [OF t(2)] w assms(5)] by metis
  have "walk_ready ok content limit 0 root (first_off content root) (first_rem content root) d' t'"
    using t'(2, 3) sec_onlyD(1, 2) [OF t'(1)] assms(5) by (simp add: walk_ready_def dir_opens_def)
  from walk_finds [OF assms(6) this, of rba] obtain v where v: "sec_only ok t' v"
      "file_size_loop hw rba 0 d' t' = Some (case dir_lookup rba es of Some n \<Rightarrow> Ret n | None \<Rightarrow> Stop (Bad ''sec_loc index''), v)"
    unfolding walked_def by (auto split: option.splits)
  show ?thesis by (rule that [OF sec_only_trans [OF t(2) sec_only_trans [OF t'(1) v(1)]]]) (simp add: run t'(4) v(2))
qed

end

section \<open>The boot catalog\<close>

text \<open>
  The volume descriptors from sector \<open>n\<close> on, up to the boot record of El Torito; \<open>c\<close> is the
  sector of the catalog it names.
\<close>

definition vol_desc :: "(u64 \<Rightarrow> nat \<Rightarrow> u8 list) \<Rightarrow> u32 \<Rightarrow> u8 list" where
  "vol_desc content n = take 75 (iso_sector content n)"

definition boot_desc :: "u8 list \<Rightarrow> bool" where
  "boot_desc v \<longleftrightarrow> v ! 0 = VOL_DESC_TYPE_BOOT \<and>
     memcmp (slice (offset IsoVolDesc [Fld ''vd'', Fld ''boot'', Fld ''el_torito'']) 32 v) (take 32 el_torito_magic) = 0"

inductive catalog_at :: "(u64 \<Rightarrow> nat \<Rightarrow> u8 list) \<Rightarrow> nat \<Rightarrow> u32 \<Rightarrow> u32 \<Rightarrow> bool" for content limit where
  catalog_here: "v = vol_desc content n \<Longrightarrow> is_iso_vd_valid v \<Longrightarrow> v ! 0 \<noteq> VOL_DESC_TERMINATOR \<Longrightarrow> boot_desc v \<Longrightarrow>
     c = bswap32 (be (slice (offset IsoVolDesc [Fld ''vd'', Fld ''boot'', Fld ''bc_offset'']) 4 v)) \<Longrightarrow>
     catalog_at content limit n c"
| catalog_next: "v = vol_desc content n \<Longrightarrow> is_iso_vd_valid v \<Longrightarrow> v ! 0 \<noteq> VOL_DESC_TERMINATOR \<Longrightarrow> \<not> boot_desc v \<Longrightarrow>
     unat (n + 1) < limit \<Longrightarrow> catalog_at content limit (n + 1) c \<Longrightarrow> catalog_at content limit n c"

text \<open>The entry of the catalog the LOADPARM chooses: it counts the bootable entries of s390 images.\<close>

definition image_sector :: "u8 list \<Rightarrow> u32" where
  "image_sector sect = bswap32 (sect_load_rba sect)"

definition compatible :: "(u64 \<Rightarrow> nat \<Rightarrow> u8 list) \<Rightarrow> u8 list \<Rightarrow> bool" where
  "compatible content sect \<longleftrightarrow> sect ! offset IsoBcSection [Fld ''unused''] = 0 \<and> sect_sector_count sect \<noteq> 0 \<and>
     memcmp (slice 8 24 (iso_sector content (image_sector sect))) (take 24 linux_s390_magic) = 0"

definition catalog_entry :: "u8 list \<Rightarrow> nat \<Rightarrow> u8 list" where
  "catalog_entry cat i = slice (32 * i) 32 cat"

fun chosen :: "(u64 \<Rightarrow> nat \<Rightarrow> u8 list) \<Rightarrow> u8 list \<Rightarrow> nat \<Rightarrow> nat \<Rightarrow> u32 \<Rightarrow> u8 list option" where
  "chosen content cat i 0 lp = None"
| "chosen content cat i (Suc n) lp =
     (let e = catalog_entry cat i in
      if e ! 0 = ISO_BC_BOOTABLE_SECTION \<and> compatible content (drop 1 e)
      then if lp \<le> 1 then Some (drop 1 e) else chosen content cat (Suc i) n (lp - 1)
      else chosen content cat (Suc i) n lp)"

context iso_source begin

lemma catalog_found:
  assumes "catalog_at content limit n c"
  shows "ok t \<Longrightarrow> length (bufs t Sec) = 16384 \<Longrightarrow> slice 0 2048 (bufs t Sec) = iso_sector content n \<Longrightarrow>
    \<exists>u. vd_loop hw (n + 1) t = Some (Ret c, u) \<and> sec_only ok t u"
  using assms
proof (induction arbitrary: t)
  case (catalog_here v n c)
  have "slice 0 75 (bufs t Sec) = v" unfolding catalog_here.hyps(1) vol_desc_def catalog_here.prems(3) [symmetric] by (simp add: slice_def)
  then have "vd_loop hw (n + 1) t = Some (Ret c, t)"
    using catalog_here by (subst vd_loop.simps) (simp add: bnd_def ret_def boot_desc_def)
  then show ?case using sec_only_refl [of ok t] catalog_here.prems(1, 2) by blast
next
  case (catalog_next v n c)
  have v: "slice 0 75 (bufs t Sec) = v" unfolding catalog_next.hyps(1) vol_desc_def catalog_next.prems(3) [symmetric] by (simp add: slice_def)
  obtain t' where t': "read_iso_sector hw (n + 1) (Buf Sec 0) ''Failed to read ISO volume descriptor'' t = Some (Ret (), t')"
      "sec_only ok t t'" "slice 0 2048 (bufs t' Sec) = iso_sector content (n + 1)"
    using read_first_ok [OF catalog_next.prems(1, 2) catalog_next.hyps(5)] by metis
  have l: "load (Buf Sec 0) 75 t = Some (Ret v, t)" using v catalog_next.prems(2) by simp
  have "\<not> (v ! 0 = VOL_DESC_TYPE_BOOT \<and>
      memcmp (slice (offset IsoVolDesc [Fld ''vd'', Fld ''boot'', Fld ''el_torito'']) 32 v) (take 32 el_torito_magic) = 0)"
    using catalog_next.hyps(4) unfolding boot_desc_def .
  with catalog_next.hyps(2, 3) have "vd_loop hw (n + 1) t = vd_loop hw (n + 1 + 1) t'"
    by (subst vd_loop.simps) (simp only: bnd_Ret [where m = "load (Buf Sec 0) 75", OF l]
        bnd_Ret [where m = "read_iso_sector hw (n + 1) (Buf Sec 0) ''Failed to read ISO volume descriptor''", OF t'(1)] if_True if_False simp_thms)
  then show ?case
    using catalog_next.IH [OF sec_onlyD(1, 2) [OF t'(2)] t'(3)] sec_only_trans [OF t'(2)] by auto
qed

lemma find_catalog:
  assumes "ok s" "length (bufs s Sec) = 16384" "16 < limit" "catalog_at content limit 16 c"
  obtains t where "find_iso_bc hw s = Some (Ret c, t)" "sec_only ok s t"
proof -
  have u: "unat (ISO_PRIMARY_VD_SECTOR) < limit" using assms(3) by (simp add: ISO_PRIMARY_VD_SECTOR_def)
  obtain t where t: "read_iso_sector hw ISO_PRIMARY_VD_SECTOR (Buf Sec 0) [] s = Some (Ret (), t)"
      "sec_only ok s t" "slice 0 2048 (bufs t Sec) = iso_sector content ISO_PRIMARY_VD_SECTOR"
    using read_first_ok [OF assms(1, 2) u] by metis
  from t(1) have r: "virtio_read_many hw (ucast ISO_PRIMARY_VD_SECTOR) (Buf Sec 0) 1 s = Some (Ret 0, t)"
    by (auto simp: read_iso_sector_def bnd_eq_Ret dest!: IPL_assert_Ret)
  obtain v where "vd_loop hw (ISO_PRIMARY_VD_SECTOR + 1) t = Some (Ret c, v)" "sec_only ok t v"
    using catalog_found [OF assms(4) sec_onlyD(1, 2) [OF t(2)]] t(3) by (auto simp: ISO_PRIMARY_VD_SECTOR_def)
  then show ?thesis using that [OF _ sec_only_trans [OF t(2)]] r by (simp add: find_iso_bc_def bnd_Ret)
qed

lemma compatible_ok:
  assumes "ok t" "length (bufs t Sec) = 16384" "unat (image_sector sect) < limit"
  obtains u where "is_iso_bc_entry_compatible hw sect t = Some (Ret (compatible content sect), u)" "sec_only ok t u"
    "slice 0 2048 (bufs u Sec) = slice 0 2048 (bufs t Sec)"
proof (cases "sect ! offset IsoBcSection [Fld ''unused''] = 0 \<and> sect_sector_count sect \<noteq> 0")
  case True
  obtain u where u: "read_iso_sector hw (image_sector sect) (Buf Sec 2048) ''Failed to read image sector 0'' t = Some (Ret (), u)" "sec_only ok t u"
      "temp_of u = iso_sector content (image_sector sect)" "slice 0 2048 (bufs u Sec) = slice 0 2048 (bufs t Sec)"
    using read_temp_ok [OF assms] by metis
  have "slice 2056 24 (bufs u Sec) = slice 8 24 (temp_of u)"
    using sec_onlyD(2) [OF u(2)] by (intro nth_equalityI) (simp_all add: temp_of_def nth_slice)
  then have "load (Buf Sec (2048 + 8)) 24 u = Some (Ret (slice 8 24 (iso_sector content (image_sector sect))), u)"
    using sec_onlyD(2) [OF u(2)] u(3) by simp
  then have "is_iso_bc_entry_compatible hw sect t = Some (Ret (compatible content sect), u)"
    using True u(1) unfolding is_iso_bc_entry_compatible_def compatible_def image_sector_def by (simp add: bnd_Ret ret_def del: load.simps)
  then show ?thesis using that u(2, 4) by blast
next
  case False
  then have "is_iso_bc_entry_compatible hw sect t = Some (Ret (compatible content sect), t)"
    by (auto simp: is_iso_bc_entry_compatible_def compatible_def ret_def)
  then show ?thesis using that sec_only_refl [of ok t] assms(1, 2) by blast
qed

lemma scan_ok:
  assumes "\<forall>i<64. unat (image_sector (drop 1 (catalog_entry cat i))) < limit"
  shows "i + n \<le> 64 \<Longrightarrow> ok t \<Longrightarrow> length (bufs t Sec) = 16384 \<Longrightarrow> slice 0 2048 (bufs t Sec) = cat \<Longrightarrow>
    \<exists>u. bc_scan hw i n lp t = Some (Ret (chosen content cat i n lp), u) \<and> sec_only ok t u"
proof (induction n arbitrary: i lp t)
  case 0
  then show ?case using sec_only_refl [of ok t] by (auto simp: ret_def)
next
  case (Suc n)
  define e where "e = catalog_entry cat i"
  have "slice (32 * i) 32 (bufs t Sec) = e"
    unfolding e_def catalog_entry_def Suc.prems(4) [symmetric] using Suc.prems(1, 3) by (intro nth_equalityI) (simp_all add: nth_slice)
  then have l: "load (Buf Sec (32 * i)) 32 t = Some (Ret e, t)" using Suc.prems(1, 3) by simp
  have lim: "unat (image_sector (drop 1 e)) < limit" using assms Suc.prems(1) by (simp add: e_def)
  obtain u where u: "is_iso_bc_entry_compatible hw (drop 1 e) t = Some (Ret (compatible content (drop 1 e)), u)" "sec_only ok t u"
      "slice 0 2048 (bufs u Sec) = cat"
    using compatible_ok [OF Suc.prems(2, 3) lim] Suc.prems(4) by metis
  have later: "\<exists>v. bc_scan hw (Suc i) n lp' t' = Some (Ret (chosen content cat (Suc i) n lp'), v) \<and> sec_only ok t v"
    if "t' = t \<or> t' = u" for lp' t'
  proof -
    have "sec_only ok t t'" "slice 0 2048 (bufs t' Sec) = cat"
      using that u(2, 3) sec_only_refl [of ok t] Suc.prems(2-4) by auto
    then show ?thesis using Suc.IH [of "Suc i" t' lp'] Suc.prems(1) sec_onlyD(1, 2) sec_only_trans by fastforce
  qed
  show ?case
    using l u(1, 2) later [of t lp] later [of u lp] later [of u "lp - 1"]
    by (cases "e ! 0 = ISO_BC_BOOTABLE_SECTION"; cases "compatible content (drop 1 e)"; cases "lp \<le> 1")
      (auto simp: bnd_Ret Let_def e_def [symmetric] ret_def simp del: load.simps)
qed

end

section \<open>Loading the image\<close>

text \<open>
  What is loaded, for the body of a catalog entry and the size the directory tree gives: the
  sectors, and where to.
\<close>

definition image_blocks :: "u8 list \<Rightarrow> u32 \<Rightarrow> u32" where
  "image_blocks sect sz = (if sz \<noteq> 0 then (sz + 2047) div 2048 else ucast (drop_bit 2 (bswap16 (sect_sector_count sect))))"

definition image_at :: "u8 list \<Rightarrow> u64" where
  "image_at sect = ucast (bswap16 (sect_load_segment sect))"

text \<open>
  The machine handed over with \<open>m\<close> in storage: only the page of the low core differs, and the
  PSW is the system's own, or leads to the start of the kernel and keeps the system's.
\<close>

definition image_started :: "'d hw \<Rightarrow> (u64 \<Rightarrow> u8) \<Rightarrow> 'd machine \<Rightarrow> bool" where
  "image_started hw m t \<longleftrightarrow> handed_over hw NormalReset t \<and> (\<forall>x. 0x200 \<le> unat x \<longrightarrow> mem t x = m x) \<and>
     (if where_boots m = 0 then mem_get (mem t) 0 8 = mem_get m 0 8
      else ipl_continue t = where_boots m \<and> save_psw t = be (mem_get m 0 8) \<and> mem_get (mem t) 0 8 = to_be 8 (RESET_PSW hw))"

lemma load_entry_unfold:
  "load_iso_bc_entry hw sect =
     bnd (iso_get_file_size hw (image_sector sect)) (\<lambda>real_size.
     seq (sclp_print hw (if real_size \<noteq> 0 then lit ''ISO boot image size verified'' @ [10]
                         else lit ''ISO boot image size could not be verified'' @ [10]))
    (seq (read_iso_boot_image hw (image_sector sect) (image_at sect) (image_blocks sect real_size))
    (jump_to_low_kernel hw)))"
  by (simp add: load_iso_bc_entry_def image_sector_def image_at_def image_blocks_def Let_def add.commute cong: if_cong)

lemma low_kernel_starts:
  assumes "length (scr (io s) Sccb) = 4096"
  obtains t where "jump_to_low_kernel hw s = Some (Stop NormalReset :: unit result, t)" "image_started hw (mem s) t"
proof -
  obtain j where j: "jump_to_low_kernel hw s = Some (Stop NormalReset :: unit result, s\<lparr>mem := hand_over_mem hw (where_boots (mem s)) s,
        the_iplb := (the_iplb s)\<lparr>pbt := if pbt (the_iplb s) = IPL_QEMU_SCSI then IPL_CCW else pbt (the_iplb s)\<rparr>,
        save_psw := if where_boots (mem s) \<noteq> 0 then be (mem_get (mem s) 0 8) else save_psw s,
        ipl_continue := if where_boots (mem s) \<noteq> 0 then where_boots (mem s) else ipl_continue s, io := j\<rparr>)"
    (is "_ = Some (_, ?t)") using jump_to_IPL_code_resets [OF assms, of hw "where_boots (mem s)"] unfolding jump_to_low_kernel_eq by blast
  have "handed_over hw NormalReset ?t" using outcome_ok_Stop [OF jump_hands_over] j unfolding jump_to_low_kernel_eq by blast
  then have "image_started hw (mem s) ?t" by (simp add: image_started_def hand_over_mem_get hand_over_mem_above)
  then show ?thesis using that j by blast
qed

context iso_source begin

lemma read_image_ok:
  assumes "ok s" "0 < unat n" "unat n * 2048 < 2 ^ 31" "unat b + unat n \<le> limit"
  obtains t where "read_iso_boot_image hw b a n s = Some (Ret (), t)" "ok t" "mem t = mem_put a (content (ucast b) (unat n * 2048)) (mem s)"
proof -
  have "unat (ucast b :: u64) = unat b"
    using unsigned_less [of b, where ?'a = nat] by (simp add: unsigned_ucast_eq take_bit_nat_eq_self)
  then obtain t where t: "virtio_read_many hw (ucast b) (Phys a) n s = Some (Ret 0, t)" "ok t"
    "t\<lparr>io := io s\<rparr> = put (Phys a) (content (ucast b) (unat n * 2048)) s"
    using read [OF assms(1), of "Phys a" "unat n * 2048" n "ucast b"] assms(2-4) by auto
  have "mem t = mem_put a (content (ucast b) (unat n * 2048)) (mem s)"
    using arg_cong [OF t(3), of mem] by simp
  moreover have "read_iso_boot_image hw b a n s = Some (Ret (), t)"
    using t(1) by (simp add: read_iso_boot_image_def bnd_def ret_def)
  ultimately show ?thesis using that t(2) by blast
qed

lemma load_entry_ok:
  assumes "ok s" "length (bufs s Sec) = 16384" "16 < limit" "root = iso_root content" "dir_opens content limit root"
    and "dir_at content limit 0 root (first_off content root) (first_rem content root) es"
    and "dir_lookup (image_sector sect) es = Some sz" "n = image_blocks sect sz"
    and "0 < unat n" "unat n * 2048 < 2 ^ 31" "unat (image_sector sect) + unat n \<le> limit"
  obtains t where "load_iso_bc_entry hw sect s = Some (Stop NormalReset, t)"
    "image_started hw (mem_put (image_at sect) (content (ucast (image_sector sect)) (unat n * 2048)) (mem s)) t"
proof -
  obtain t where t: "sec_only ok s t" "iso_get_file_size hw (image_sector sect) s = Some (Ret sz, t)"
    using file_size_ok [OF assms(1-6), of "image_sector sect"] assms(7) by auto
  define str where "str = (if sz \<noteq> 0 then lit ''ISO boot image size verified'' @ [10] else lit ''ISO boot image size could not be verified'' @ [10])"
  have "length (crlf str) \<le> 4082" by (simp add: str_def lit_def)
  then obtain j where j: "sclp_print hw str t = Some (Ret (), t\<lparr>io := j\<rparr>)" "ok (t\<lparr>io := j\<rparr>)"
    using print_ok [OF sec_onlyD(1) [OF t(1)]] by metis
  obtain u where u: "read_iso_boot_image hw (image_sector sect) (image_at sect) n (t\<lparr>io := j\<rparr>) = Some (Ret (), u)" "ok u"
      "mem u = mem_put (image_at sect) (content (ucast (image_sector sect)) (unat n * 2048)) (mem s)"
    using read_image_ok [OF j(2) assms(9-11), of "image_at sect"] sec_onlyD(3) [OF t(1)] by auto
  obtain v where v: "jump_to_low_kernel hw u = Some (Stop NormalReset :: unit result, v)" "image_started hw (mem u) v"
    using low_kernel_starts [OF console [OF u(2)], of hw] by blast
  have "load_iso_bc_entry hw sect s = jump_to_low_kernel hw u"
    using t(2) j(1) u(1) unfolding load_entry_unfold str_def assms(8) by (simp add: bnd_Ret)
  then show ?thesis using that v unfolding u(3) by metis
qed

lemma el_torito_ok:
  assumes "ok s" "length (bufs s Sec) = 16384" "16 < limit" "root = iso_root content" "dir_opens content limit root"
    and "dir_at content limit 0 root (first_off content root) (first_rem content root) es"
    and "catalog_at content limit 16 c" "c \<noteq> 0" "unat c < limit" "is_iso_bc_valid (take 32 (iso_sector content c))"
    and "\<forall>i<64. unat (image_sector (drop 1 (catalog_entry (iso_sector content c) i))) < limit"
    and "chosen content (iso_sector content c) 1 63 (get_loadparm_index s) = Some sect"
    and "dir_lookup (image_sector sect) es = Some sz" "n = image_blocks sect sz"
    and "0 < unat n" "unat n * 2048 < 2 ^ 31" "unat (image_sector sect) + unat n \<le> limit"
  shows "\<exists>t. ipl_iso_el_torito hw s = Some (Stop NormalReset, t) \<and>
    image_started hw (mem_put (image_at sect) (content (ucast (image_sector sect)) (unat n * 2048)) (mem s)) t"
proof -
  obtain t where t: "find_iso_bc hw s = Some (Ret c, t)" "sec_only ok s t"
    using find_catalog [OF assms(1-3, 7)] by blast
  obtain u where u: "read_iso_sector hw c (Buf Sec 0) ''Failed to read El Torito boot catalog'' t = Some (Ret (), u)" "sec_only ok t u"
      "slice 0 2048 (bufs u Sec) = iso_sector content c"
    using read_first_ok [OF sec_onlyD(1, 2) [OF t(2)] assms(9)] by metis
  have "slice 0 32 (bufs u Sec) = take 32 (iso_sector content c)" unfolding u(3) [symmetric] by (simp add: slice_def)
  then have l: "load (Buf Sec 0) 32 u = Some (Ret (take 32 (iso_sector content c)), u)"
    using sec_onlyD(2) [OF u(2)] by simp
  obtain v where v: "bc_scan hw 1 63 (get_loadparm_index s) u = Some (Ret (Some sect), v)" "sec_only ok u v"
    using scan_ok [OF assms(11), of 1 63 u "get_loadparm_index s"] sec_onlyD(1, 2) [OF u(2)] u(3) assms(12) by auto
  have lp: "get_loadparm_index t = get_loadparm_index s" using sec_onlyD(4) [OF t(2)] by (simp add: get_loadparm_index_def)
  have "find_iso_bc_entry hw s = Some (Ret (Some sect), v)"
    using t(1) u(1) l v(1) assms(8, 10) by (simp add: find_iso_bc_entry_def bnd_Ret lp ret_def del: load.simps bc_scan.simps)
  then have "ipl_iso_el_torito hw s = load_iso_bc_entry hw sect v" by (simp add: ipl_iso_el_torito_def bnd_Ret)
  moreover have all: "sec_only ok s v" by (rule sec_only_trans [OF t(2) sec_only_trans [OF u(2) v(2)]])
  ultimately show ?thesis
    using load_entry_ok [OF sec_onlyD(1, 2) [OF all] assms(3-6, 13-17)] sec_onlyD(3) [OF all] by metis
qed

end

text \<open>Any disk with sectors of 2048 bytes is such a source.\<close>

sublocale blk_host \<subseteq> iso_blocks: iso_source hw "\<lambda>s. blk_ready s \<and> virtio_get_block_size s = 2048" "2 ^ 65" "disk_content disk 2048"
  by (rule iso_source.intro) (rule blocks.block_source_axioms)

section \<open>Properties\<close>

text \<open>The directory tree of a medium, and the entry of its boot catalog that a LOADPARM chooses.\<close>

definition iso_tree :: "(u64 \<Rightarrow> nat \<Rightarrow> u8 list) \<Rightarrow> nat \<Rightarrow> dirent list \<Rightarrow> bool" where
  "iso_tree content limit es \<longleftrightarrow> 16 < limit \<and> dir_opens content limit (iso_root content) \<and>
     dir_at content limit 0 (iso_root content) (first_off content (iso_root content)) (first_rem content (iso_root content)) es"

definition iso_chosen :: "(u64 \<Rightarrow> nat \<Rightarrow> u8 list) \<Rightarrow> nat \<Rightarrow> u32 \<Rightarrow> u8 list \<Rightarrow> bool" where
  "iso_chosen content limit lp sect \<longleftrightarrow> (\<exists>c. catalog_at content limit 16 c \<and> c \<noteq> 0 \<and> unat c < limit \<and>
     is_iso_bc_valid (take 32 (iso_sector content c)) \<and>
     (\<forall>i<64. unat (image_sector (drop 1 (catalog_entry (iso_sector content c) i))) < limit) \<and>
     chosen content (iso_sector content c) 1 63 lp = Some sect)"

text \<open>
  C5: the search for the size of the boot image is a depth-first search of the directory tree: it
  returns the size of the first file or directory whose extent starts at the sector it is given,
  whatever the order, depth and padding of the records on the medium; when no entry lists that
  sector, it reads its table of sectors in front of the first entry.
\<close>

theorem iso_size_search:
  assumes "block_source hw ok 2048 limit content" "ok s" "length (bufs s Sec) = 16384" "iso_tree content limit es"
  shows "\<exists>t. sec_only ok s t \<and> iso_get_file_size hw rba s =
    Some (case dir_lookup rba es of Some n \<Rightarrow> Ret n | None \<Rightarrow> Stop (Bad ''sec_loc index''), t)"
  using iso_source.file_size_ok [OF iso_source.intro [OF assms(1)] assms(2, 3) _ refl, of es rba] assms(4)
  unfolding iso_tree_def by metis

text \<open>
  C4: booting an El Torito medium: when the volume descriptors lead to a valid boot catalog, the
  LOADPARM chooses an entry of it and the directory tree lists the image, \<open>ipl_iso_el_torito\<close>
  ends with the reset that starts the system: the image's sectors are at the address of the
  entry, nothing else above the low core has changed, and the machine continues at the kernel's
  start or with the PSW of the image.
\<close>

theorem iso_boots_image:
  assumes "block_source hw ok 2048 limit content" "ok s" "length (bufs s Sec) = 16384" "iso_tree content limit es"
    and "iso_chosen content limit (get_loadparm_index s) sect" "dir_lookup (image_sector sect) es = Some sz"
    and "n = image_blocks sect sz" "0 < unat n" "unat n * 2048 < 2 ^ 31" "unat (image_sector sect) + unat n \<le> limit"
  shows "\<exists>t. ipl_iso_el_torito hw s = Some (Stop NormalReset, t) \<and>
    image_started hw (mem_put (image_at sect) (content (ucast (image_sector sect)) (unat n * 2048)) (mem s)) t"
  using assms(4, 5) iso_source.el_torito_ok [OF iso_source.intro [OF assms(1)] assms(2, 3) _ refl _ _ _ _ _ _ _ _ assms(6-10)]
  unfolding iso_tree_def iso_chosen_def by blast

text \<open>
  A medium with the primary descriptor in sector 16, the boot record in 17, the catalog in 18, the
  root directory in 20 and the image, which the directory lists, in 30.
\<close>

definition vd_bytes :: "(u64 \<times> u8) list" where
  "vd_bytes = [(0x8000, 1), (0x8001, 0x43), (0x8002, 0x44), (0x8003, 0x30), (0x8004, 0x30), (0x8005, 0x31), (0x8006, 1), (0x80a5, 0x14)]"

definition boot_bytes :: "u8 list" where
  "boot_bytes = [0] @ lit ''CD001'' @ [1] @ take 32 el_torito_magic @ replicate 32 0 @ [18, 0, 0, 0]"

definition catalog_bytes :: "(u64 \<times> u8) list" where
  "catalog_bytes = [(0x9000, 1), (0x901e, 0x55), (0x901f, 0xaa), (0x9020, 0x88), (0x9026, 4), (0x9028, 0x1e)]"

definition root_bytes :: "(u64 \<times> u8) list" where
  "root_bytes = [(0xa000, 0x22), (0xa011, 0x6c), (0xa022, 0x22), (0xa044, 0x28), (0xa04d, 0x1e), (0xa054, 8)]"

definition sys_psw :: "u8 list" where
  "sys_psw = [0, 8, 0, 0, 0x80, 1, 0, 0]"

definition sys_bytes :: "u8 list" where
  "sys_bytes = sys_psw @ linux_s390_magic @ replicate 479 0 @ [42]"

definition listed :: "u8 list \<Rightarrow> nat \<Rightarrow> u8" where
  "listed bs i = (if i < length bs then bs ! i else 0)"

definition sparse :: "(u64 \<times> u8) list \<Rightarrow> u64 \<Rightarrow> u8" where
  "sparse bs x = (case map_of bs x of Some b \<Rightarrow> b | None \<Rightarrow> 0)"

definition iso_disk :: "u64 \<Rightarrow> u8" where
  "iso_disk x = (if x < 0x8800 then sparse vd_bytes x else if x < 0x9000 then listed boot_bytes (unat (x - 0x8800))
     else if x < 0xa000 then sparse catalog_bytes x else if x < 0xf000 then sparse root_bytes x else listed sys_bytes (unat (x - 0xf000)))"

lemmas iso_disk_at = iso_disk_def sparse_def vd_bytes_def catalog_bytes_def root_bytes_def

definition iso_machine :: "nat machine" where
  "iso_machine = disk_machine\<lparr>bufs := (bufs disk_machine)(VConfig := replicate 18 0 @ [15, 12, 0, 0, 8, 0] @ replicate 12 0)\<rparr>"

abbreviation iso_content :: "u64 \<Rightarrow> nat \<Rightarrow> u8 list" where
  "iso_content \<equiv> disk_content iso_disk 2048"

lemma iso_machine_ready: "blk_ready iso_machine" "virtio_get_block_size iso_machine = 2048" "length (bufs iso_machine Sec) = 16384"
  "get_loadparm_index iso_machine = 0"
  by (simp_all add: iso_machine_def disk_machine_def blk_ready_def rings_idle_def idle_def ring_wf_def blank_ring_def blank_vring_def blank_vdev_def
    cu_model_def VIRTIO_ID_BLOCK_def Let_def virtio_get_block_size_def blk_blk_size_def blk_physical_block_exp_def slice_def be_def nth_append
    get_loadparm_index_def atoui_def blank_def)

lemma disk_content_2k: "disk_content d 2048 b n = mem_get d (b * 0x800) n"
proof -
  have "int_to_u64 (s32_div 2048 VIRTIO_SECTOR_SIZE) = 4" by (simp add: s32_div_def VIRTIO_SECTOR_SIZE_def)
  then show ?thesis by (simp add: disk_content_def mult.commute)
qed

lemmas iso_simps = iso_disk_at byte_simps

lemma iso_dir_rec: "unat off + 33 \<le> 2048 \<Longrightarrow> dir_rec iso_content loc off = mem_get iso_disk (ucast loc * 0x800 + ucast off) 33"
  by (simp add: dir_rec_def disk_content_2k slice_mem_get of_nat_unat)

lemma rec_fields:
  "dr_len (mem_get m a 33) = ucast (m a)"
  "ext_loc (mem_get m a 33) = ucast (be (mem_get m (a + 2) 8) :: u64)"
  "data_len (mem_get m a 33) = ucast (be (mem_get m (a + 10) 8) :: u64)"
  "file_flags (mem_get m a 33) = m (a + 25)"
  by (simp_all add: dr_len_def ext_loc_def data_len_def file_flags_def iso_733_to_u32_def record_defs slice_mem_get del: mem_get_numeral)

lemma iso_disk_tree: "iso_tree iso_content (2 ^ 65) [Leaf 30 2048]"
proof -
  have r: "iso_root iso_content = 20"
    by (simp add: iso_root_def disk_content_2k slice_mem_get iso_733_to_u32_def del: mem_get_numeral) (simp add: iso_simps)
  have a: "dr_len (dir_rec iso_content 20 0) = 34" "data_len (dir_rec iso_content 20 0) = 108" "dr_len (dir_rec iso_content 20 34) = 34"
    by (simp_all add: iso_dir_rec rec_fields del: mem_get_numeral) (simp_all add: iso_simps)
  then have o: "first_off iso_content 20 = 68" "first_rem iso_content 20 = 40" by (simp_all add: first_off_def first_rem_def Let_def)
  define e where "e = dir_rec iso_content 20 68"
  have e: "dr_len e = 40" "ext_loc e = 30" "data_len e = 2048" "file_flags e = 0"
    by (simp_all add: e_def iso_dir_rec rec_fields del: mem_get_numeral) (simp_all add: iso_simps)
  have "entry_at iso_content 20 68 e" using e(1) by (simp add: entry_at_def e_def)
  then have "dir_at iso_content (2 ^ 65) 0 20 68 40 [Leaf (ext_loc e) (data_len e)]" using e(1, 4) by (intro dir_last) simp_all
  then show ?thesis using a(1) o e(2, 3) by (simp add: iso_tree_def r dir_opens_def)
qed

text \<open>The body of the catalog's entry: 4 sectors of 512 bytes from sector 30 on, to go to address 0.\<close>

definition iso_sect :: "u8 list" where
  "iso_sect = [0, 0, 0, 0, 0, 4, 0, 30, 0, 0, 0, 0, 0, 0, 0, 0, 0, 0, 0, 0, 0, 0, 0, 0, 0, 0, 0, 0, 0, 0, 0]"

lemma iso_image_entry: "slice 32 32 (iso_sector iso_content 18) = 0x88 # iso_sect"
  by (simp add: disk_content_2k slice_mem_get del: mem_get_numeral) (simp add: iso_sect_def iso_simps)

lemma iso_sect_fields: "image_sector iso_sect = 30" "image_at iso_sect = 0" "image_blocks iso_sect 2048 = 1"
  "sect_sector_count iso_sect = 0x400" "iso_sect ! 4 = 0"
  by (simp_all add: iso_sect_def image_sector_def image_at_def image_blocks_def sect_load_rba_def sect_load_segment_def sect_sector_count_def
      record_defs slice_def be_def bswap32_def bswap16_def)

lemma iso_lists:
  "i < 75 \<Longrightarrow> iso_disk (0x8800 + word_of_nat i) = boot_bytes ! i"
  "i < 513 \<Longrightarrow> iso_disk (0xf000 + word_of_nat i) = listed sys_bytes i"
  using unat_add_small [of "0x8800 :: u64" i] unat_add_small [of "0xf000 :: u64" i]
  by (simp_all add: iso_disk_def listed_def unat_of_nat take_bit_nat_eq_self word_less_nat_alt boot_bytes_def lit_def el_torito_magic_def)

lemma iso_boot_desc: "mem_get iso_disk 0x8800 75 = boot_bytes"
  by (rule nth_equalityI) (simp_all add: iso_lists, simp add: boot_bytes_def lit_def el_torito_magic_def)

lemma iso_disk_catalog: "catalog_at iso_content (2 ^ 65) 16 18"
proof -
  define v where "v = vol_desc iso_content 16"
  define w where "w = vol_desc iso_content 17"
  have t: "take 75 x = slice 0 75 x" for x :: "u8 list" by (simp add: slice_def)
  have v: "v = mem_get iso_disk 0x8000 75" and w: "w = boot_bytes"
    unfolding v_def w_def vol_desc_def t by (simp_all add: disk_content_2k slice_mem_get iso_boot_desc del: mem_get_numeral)
  have "is_iso_vd_valid v"
    by (simp add: is_iso_vd_valid_def v record_defs slice_mem_get VOL_DESC_TYPE_PARTITION_def del: mem_get_numeral)
      (simp add: iso_simps lit_def memcmp_0_iff)
  moreover have "is_iso_vd_valid w"
    by (simp add: is_iso_vd_valid_def w record_defs boot_bytes_def slice_def lit_def memcmp_0_iff VOL_DESC_TYPE_PARTITION_def)
  moreover have "v ! 0 \<noteq> VOL_DESC_TERMINATOR" "\<not> boot_desc v"
    by (simp_all add: v boot_desc_def VOL_DESC_TERMINATOR_def VOL_DESC_TYPE_BOOT_def iso_disk_at del: mem_get_numeral)
  moreover have "w ! 0 \<noteq> VOL_DESC_TERMINATOR" "boot_desc w"
    by (simp_all add: w boot_desc_def VOL_DESC_TYPE_BOOT_def VOL_DESC_TERMINATOR_def boot_bytes_def record_defs slice_def memcmp_0_iff
        el_torito_magic_def lit_def)
  moreover have "bswap32 (be (slice (offset IsoVolDesc [Fld ''vd'', Fld ''boot'', Fld ''bc_offset'']) 4 w)) = (18 :: u32)"
    by (simp add: w record_defs boot_bytes_def slice_def lit_def el_torito_magic_def be_def bswap32_def)
  ultimately show ?thesis
    by (intro catalog_next [OF v_def] catalog_here [of w]) (simp_all add: w_def)
qed

lemma iso_image_magic: "mem_get iso_disk 0xf008 24 = take 24 linux_s390_magic"
proof (rule nth_equalityI)
  fix i
  assume "i < length (mem_get iso_disk 0xf008 24)"
  then have "i < 24" by simp
  moreover have "length sys_psw = 8" "length linux_s390_magic = 25" by (simp_all add: sys_psw_def linux_s390_magic_def)
  ultimately show "mem_get iso_disk 0xf008 24 ! i = take 24 linux_s390_magic ! i"
    using iso_lists(2) [of "8 + i"] by (simp add: add.assoc [symmetric] listed_def sys_bytes_def nth_append)
qed (simp add: linux_s390_magic_def)

lemma iso_disk_chosen: "iso_chosen iso_content (2 ^ 65) 0 iso_sect"
proof -
  have c: "catalog_entry (iso_sector iso_content 18) 1 = 0x88 # iso_sect"
    using iso_image_entry by (simp add: catalog_entry_def)
  have "compatible iso_content iso_sect"
    by (simp add: compatible_def iso_sect_fields disk_content_2k slice_mem_get iso_image_magic memcmp_0_iff record_defs del: mem_get_numeral)
  then have ch: "chosen iso_content (iso_sector iso_content 18) 1 63 0 = Some iso_sect"
  proof -
    have n: "(63 :: nat) = Suc 62" by simp
    show ?thesis using \<open>compatible iso_content iso_sect\<close> unfolding n chosen.simps Let_def c by (simp add: ISO_BC_BOOTABLE_SECTION_def)
  qed
  have t: "take 32 x = slice 0 32 x" for x :: "u8 list" by (simp add: slice_def)
  have "take 32 (iso_sector iso_content 18) = mem_get iso_disk 0x9000 32"
    unfolding t by (simp add: disk_content_2k slice_mem_get del: mem_get_numeral)
  then have val: "is_iso_bc_valid (take 32 (iso_sector iso_content 18))"
    by (simp add: is_iso_bc_valid_def record_defs slice_mem_get ISO_BC_HDR_VALIDATION_def Let_def del: mem_get_numeral) (simp add: iso_simps)
  have "unat (image_sector x) < 2 ^ 65" for x
    using unsigned_less [of "image_sector x", where ?'a = nat] by simp
  then show ?thesis using iso_disk_catalog val ch unfolding iso_chosen_def by (intro exI [of _ 18]) simp
qed

lemma iso_disk_source:
  "block_source (disk_hw iso_disk :: nat hw) (\<lambda>s. blk_ready s \<and> virtio_get_block_size s = 2048) 2048 (2 ^ 65) iso_content"
  by (rule disk_hw.blocks.block_source_axioms)

theorem iso_size_search_witness:
  "(\<exists>t. iso_get_file_size (disk_hw iso_disk) 30 iso_machine = Some (Ret 2048, t)) \<and>
   (\<exists>t. iso_get_file_size (disk_hw iso_disk) 31 iso_machine = Some (Stop (Bad ''sec_loc index''), t))"
proof -
  have "blk_ready iso_machine \<and> virtio_get_block_size iso_machine = 2048" using iso_machine_ready(1, 2) by simp
  note run = iso_size_search [OF iso_disk_source this iso_machine_ready(3) iso_disk_tree]
  show ?thesis using run [of 30] run [of 31] by auto
qed

theorem iso_boots_image_witness:
  "\<exists>t. ipl_iso_el_torito (disk_hw iso_disk) iso_machine = Some (Stop NormalReset, t) \<and> mem t 0x200 = 42 \<and>
     mem_get (mem t) 0 8 = [0, 8, 0, 0, 0x80, 1, 0, 0]"
proof -
  let ?m = "mem_put 0 (iso_content 30 2048) (mem iso_machine)"
  have "\<exists>t. ipl_iso_el_torito (disk_hw iso_disk) iso_machine = Some (Stop NormalReset, t) \<and>
    image_started (disk_hw iso_disk)
      (mem_put (image_at iso_sect) (iso_content (ucast (image_sector iso_sect)) (unat (1 :: u32) * 2048)) (mem iso_machine)) t"
    using iso_machine_ready iso_disk_chosen
    by (intro iso_boots_image [OF iso_disk_source _ iso_machine_ready(3) iso_disk_tree, where sz = 2048]) (simp_all add: iso_sect_fields)
  then obtain t where t: "ipl_iso_el_torito (disk_hw iso_disk) iso_machine = Some (Stop NormalReset, t)"
    "image_started (disk_hw iso_disk) ?m t" unfolding iso_sect_fields by (auto simp del: mem_get_numeral)
  have m: "?m x = iso_disk (0xf000 + x)" if "unat x < 2048" for x
    using that by (simp add: mem_put_def disk_content_2k del: mem_get_numeral)
  have psw: "mem_get ?m 0 8 = [0, 8, 0, 0, 0x80, 1, 0, 0]" by (simp add: mem_get_Suc mem_get_0 mem_get_numeral m) (simp add: iso_disk_at listed_def sys_bytes_def sys_psw_def)
  have "mem iso_machine = (\<lambda>_. 0)" by (simp add: iso_machine_def disk_machine_def blank_def)
  then have "mem_get ?m S390EP 6 ! 0 = 0" by (simp add: mem_put_def disk_content_2k S390EP_def del: mem_get_numeral)
  then have no: "mem_get ?m S390EP 6 \<noteq> lit ''S390EP''" by (intro notI) (simp add: lit_def del: nth_mem_get mem_get_numeral)
  have "where_boots ?m = 0" unfolding where_boots_def psw if_not_P [OF no]
    by (simp add: be_def RESET_PSW_MASK_def PSW_MASK_SHORTPSW_def PSW_MASK_EAMODE_def PSW_MASK_BAMODE_def)
  then have "mem_get (mem t) 0 8 = mem_get ?m 0 8" "mem t 0x200 = ?m 0x200" using t(2) by (simp_all add: image_started_def)
  moreover have "?m 0x200 = 42"
    using m by (simp add: iso_disk_at listed_def sys_bytes_def sys_psw_def linux_s390_magic_def nth_append del: mem_get_numeral)
  ultimately show ?thesis using t(1) psw by simp
qed

end
