(* ===== verification/Dasd.thy ===== *)
theory Dasd
  imports Jump
begin

text \<open>
  Booting a passed-through DASD by its own channel programs (\<open>dasd-ipl.c\<close>): the Read IPL
  program, IPL1 rewritten so that it needs no program of its own to be chained to, and the
  IPL2 programs, broken at the reads that load the next one. Format-0 CCWs are eight bytes
  in storage: \<open>cmd_code\<close> at 0, \<open>cda\<close> in the three bytes from 1, the flags at 4 (\<open>chain\<close> is
  0x40) and \<open>count\<close> at 6. While the prefix page is on, the loader reads low storage only to
  report an error; the model reads absolute storage there.
\<close>

section \<open>Format-0 channel command words\<close>

definition CCW0_CHAIN :: u8 where
  "CCW0_CHAIN = 0x40"

definition ccw0_cmd_code :: "(u64 \<Rightarrow> u8) \<Rightarrow> u64 \<Rightarrow> u8" where
  "ccw0_cmd_code m a = m a"

definition ccw0_cda :: "(u64 \<Rightarrow> u8) \<Rightarrow> u64 \<Rightarrow> u32" where
  "ccw0_cda m a = be (mem_get m (a + 1) 3)"

definition ccw0_chain :: "(u64 \<Rightarrow> u8) \<Rightarrow> u64 \<Rightarrow> bool" where
  "ccw0_chain m a \<longleftrightarrow> flag_on (m (a + 4)) CCW0_CHAIN"

definition set_cmd_code :: "u64 \<Rightarrow> u8 \<Rightarrow> ('d, unit) fw" where
  "set_cmd_code a c = store (Phys a) [c]"

definition set_cda :: "u64 \<Rightarrow> u32 \<Rightarrow> ('d, unit) fw" where
  "set_cda a x = store (Phys (a + 1)) (drop 1 (to_be 4 x))"

definition set_chain :: "u64 \<Rightarrow> bool \<Rightarrow> ('d, unit) fw" where
  "set_chain a b = bnd (load_u8 (Phys (a + 4))) (\<lambda>f.
     store (Phys (a + 4)) [if b then f OR CCW0_CHAIN else f AND NOT CCW0_CHAIN])"

definition set_count :: "u64 \<Rightarrow> u16 \<Rightarrow> ('d, unit) fw" where
  "set_count a n = store (Phys (a + 6)) (to_be 2 n)"

section \<open>Prefixing\<close>

definition enable_prefixing :: "'d hw \<Rightarrow> ('d, unit) fw" where
  "enable_prefixing hw = seq (memcpy (Buf PrefixPage 0) (Phys 0) 4096) (dev_op (set_prefix hw True))"

definition disable_prefixing :: "'d hw \<Rightarrow> ('d, unit) fw" where
  "disable_prefixing hw =
     seq (dev_op (set_prefix hw False)) (memcpy (Phys 0xb8) (Buf PrefixPage 0xb8) 12)"

section \<open>Dynamic channel programs\<close>

definition is_read_tic_ccw_chain :: "(u64 \<Rightarrow> u8) \<Rightarrow> u64 \<Rightarrow> bool" where
  "is_read_tic_ccw_chain m ccw \<longleftrightarrow>
     (ccw0_cmd_code m ccw = CCW_CMD_DASD_READ \<or> ccw0_cmd_code m ccw = CCW_CMD_DASD_READ_MT) \<and>
     ccw0_chain m ccw \<and> ccw0_cmd_code m (ccw + 8) = CCW_CMD_TIC"

text \<open>
  The loop from \<open>cur_ccw\<close> on; the result is the address of the next program, where the
  program is broken. \<open>ptr2u32\<close> asserts that an address has 32 bits.
\<close>

partial_function (option) fixup_loop :: "'d hw \<Rightarrow> u64 \<Rightarrow> ('d, u32 option) fw" where
  "fixup_loop hw cur_ccw s =
     bnd (gets mem) (\<lambda>m.
       seq (whenM (ccw0_cmd_code m cur_ccw = CCW_CMD_TIC)
              (IPL_assert hw (cur_ccw \<le> 0xffffffff) (lit ''ptr2u32: ptr too large'')))
       (if ccw0_cmd_code m cur_ccw = CCW_CMD_TIC \<and> ccw0_cda m cur_ccw = ucast cur_ccw - 8
        then (\<lambda>s. fixup_loop hw (cur_ccw + 8) s)
        else if \<not> ccw0_chain m cur_ccw then ret None
        else if is_read_tic_ccw_chain m cur_ccw
        then seq (set_chain cur_ccw False) (ret (Some (ccw0_cda m (cur_ccw + 8))))
        else (\<lambda>s. fixup_loop hw (cur_ccw + 8) s))) s"

definition dynamic_cp_fixup :: "'d hw \<Rightarrow> u32 \<Rightarrow> ('d, u32 option) fw" where
  "dynamic_cp_fixup hw ccw_addr s = fixup_loop hw (ucast ccw_addr) s"

partial_function (option) run_dynamic_ccw_program ::
    "'d hw \<Rightarrow> schid \<Rightarrow> u16 \<Rightarrow> u32 \<Rightarrow> ('d, int) fw" where
  "run_dynamic_ccw_program hw sch cutype cp s =
     bnd (dynamic_cp_fixup hw cp) (\<lambda>next_cpa.
       seq (print_int hw (lit ''executing ccw chain at '') (ucast cp))
      (seq (enable_prefixing hw)
      (bnd (do_cio hw sch cutype (CcwAddr cp) CCW_FMT0) (\<lambda>rc.
       seq (disable_prefixing hw)
       (if rc \<noteq> 0 then ret rc
        else case next_cpa of
          None \<Rightarrow> ret rc
        | Some a \<Rightarrow> (\<lambda>s. run_dynamic_ccw_program hw sch cutype a s)))))) s"

section \<open>Read IPL, IPL1 and IPL2\<close>

definition make_readipl :: "('d, unit) fw" where
  "make_readipl =
     seq (memset (Phys 0) 0 8)
    (seq (set_cmd_code 0 CCW_CMD_READ_IPL)
    (seq (set_cda 0 0)
    (seq (set_chain 0 False)
    (set_count 0 0x18))))"

definition run_readipl :: "'d hw \<Rightarrow> schid \<Rightarrow> u16 \<Rightarrow> ('d, unit) fw" where
  "run_readipl hw sch cutype =
     bnd (do_cio hw sch cutype (CcwAddr 0) CCW_FMT0) (\<lambda>rc.
     whenM (rc \<noteq> 0) (panic hw (lit ''dasd-ipl: Failed to run Read IPL channel program'' @ [10])))"

definition check_ipl1 :: "'d hw \<Rightarrow> ('d, unit) fw" where
  "check_ipl1 hw =
     bnd (gets mem) (\<lambda>m.
     whenM (ccw0_cmd_code m 0x08 \<noteq> CCW_CMD_DASD_READ \<or> ccw0_cmd_code m 0x10 \<noteq> CCW_CMD_TIC)
       (panic hw (lit ''dasd-ipl: IPL1 data invalid. Is this disk really bootable?'' @ [10])))"

definition check_ipl2 :: "'d hw \<Rightarrow> u32 \<Rightarrow> ('d, unit) fw" where
  "check_ipl2 hw ipl2_addr =
     seq (whenM (ipl2_addr = 0)
       (panic hw (lit ''IPL2 address invalid. Is this disk really bootable?'' @ [10])))
    (bnd (gets mem) (\<lambda>m.
     whenM (ccw0_cmd_code m (ucast ipl2_addr) = 0)
       (panic hw (lit ''IPL2 ccw data invalid. Is this disk really bootable?'' @ [10]))))"

definition read_ipl2_addr :: "('d, u32) fw" where
  "read_ipl2_addr = gets (\<lambda>s. ccw0_cda (mem s) 0x10)"

definition ipl1_fixup :: "('d, unit) fw" where
  "ipl1_fixup =
     seq (memcpy (Phys 0x20) (Phys 0x08) 16)
    (seq (set_chain 0x20 False)
    (seq (set_cmd_code 0x08 CCW_CMD_DASD_SEEK)
    (seq (set_cda 0x08 0x30)
    (seq (set_chain 0x08 True)
    (seq (set_count 0x08 6)
    (seq (store (Phys 0x30) (to_be 2 (0 :: u16)))
    (seq (store (Phys 0x32) (to_be 2 (0 :: u16)))
    (seq (store (Phys 0x34) (to_be 2 (0 :: u16)))
    (seq (set_cmd_code 0x10 CCW_CMD_DASD_SEARCH_ID_EQ)
    (seq (set_cda 0x10 0x38)
    (seq (set_chain 0x10 True)
    (seq (set_count 0x10 5)
    (seq (store (Phys 0x38) (to_be 2 (0 :: u16)))
    (seq (store (Phys 0x3a) (to_be 2 (0 :: u16)))
    (seq (store (Phys 0x3c) [2])
    (seq (set_cmd_code 0x18 CCW_CMD_TIC)
    (set_cda 0x18 0x10)))))))))))))))))"

definition run_ipl1 :: "'d hw \<Rightarrow> schid \<Rightarrow> u16 \<Rightarrow> ('d, unit) fw" where
  "run_ipl1 hw sch cutype =
     bnd (do_cio hw sch cutype (CcwAddr 0x08) CCW_FMT0) (\<lambda>rc.
     whenM (rc \<noteq> 0) (panic hw (lit ''dasd-ipl: Failed to run IPL1 channel program'' @ [10])))"

definition run_ipl2 :: "'d hw \<Rightarrow> schid \<Rightarrow> u16 \<Rightarrow> u32 \<Rightarrow> ('d, unit) fw" where
  "run_ipl2 hw sch cutype addr =
     bnd (\<lambda>s. run_dynamic_ccw_program hw sch cutype addr s) (\<lambda>rc.
     whenM (rc \<noteq> 0) (panic hw (lit ''dasd-ipl: Failed to run IPL2 channel program'' @ [10])))"

text \<open>
  The last step but one: \<open>PSWLegacy\<close> has a \<open>mask\<close> and an \<open>addr\<close> of 32 bits, and the two
  64-bit constants are cut to them.
\<close>

definition force_zmode :: "('d, unit) fw" where
  "force_zmode =
     bnd (load_u32 (Phys 0)) (\<lambda>mask.
     seq (store (Phys 0) (to_be 4 (ucast (ucast mask OR PSW_MASK_EAMODE) :: u32)))
    (bnd (load_u32 (Phys 4)) (\<lambda>addr.
     store (Phys 4) (to_be 4 (ucast (ucast addr OR PSW_MASK_BAMODE) :: u32)))))"

definition dasd_ipl :: "'d hw \<Rightarrow> schid \<Rightarrow> u16 \<Rightarrow> ('d, unit) fw" where
  "dasd_ipl hw sch cutype =
     seq make_readipl
    (seq (run_readipl hw sch cutype)
    (bnd read_ipl2_addr (\<lambda>ipl2_addr.
     seq (check_ipl1 hw)
    (seq ipl1_fixup
    (seq (run_ipl1 hw sch cutype)
    (seq (check_ipl2 hw ipl2_addr)
    (seq (run_ipl2 hw sch cutype ipl2_addr)
    (seq force_zmode
    (jump_to_low_kernel hw)))))))))"

section \<open>Outcomes\<close>

context exit_contract begin

lemma ccw0_outcome [outcome]:
  "outcome_ok X (set_cmd_code a c)" "outcome_ok X (set_cda a v)" "outcome_ok X (set_chain a b)"
  "outcome_ok X (set_count a n)" "outcome_ok X (enable_prefixing hw)" "outcome_ok X (disable_prefixing hw)"
  unfolding set_cmd_code_def set_cda_def set_chain_def set_count_def enable_prefixing_def
    disable_prefixing_def
  by (intro outcome)+

lemma fixup_loop_outcome [outcome]: "outcome_ok X (fixup_loop hw ccw)"
proof (rule outcome_ok_loopI)
  fix s y
  assume "fixup_loop hw ccw s = Some y"
  then show "outcome_at X s y"
  proof (rule fixup_loop.raw_induct [rotated, of _ _ _ _ "\<lambda>hw ccw. outcome_at X"], goal_cases)
    case (1 rec hw ccw s y)
    have rec: "outcome_ok X (rec hw ccw)" for hw ccw by (rule outcome_ok_loopI) (rule 1(1))
    show ?case using 1(2) by (rule outcome_bnd_at) (intro outcome rec)+
  qed
qed

lemma dynamic_cp_fixup_outcome [outcome]: "outcome_ok X (dynamic_cp_fixup hw a)"
  using fixup_loop_outcome [of hw "ucast a"] by (simp add: outcome_ok_def dynamic_cp_fixup_def)

lemma run_dynamic_ccw_program_outcome [outcome]: "outcome_ok X (run_dynamic_ccw_program hw sch ct cp)"
proof (rule outcome_ok_loopI)
  fix s y
  assume "run_dynamic_ccw_program hw sch ct cp s = Some y"
  then show "outcome_at X s y"
  proof (rule run_dynamic_ccw_program.raw_induct [rotated, of _ _ _ _ _ _ "\<lambda>hw sch ct cp. outcome_at X"], goal_cases)
    case (1 rec hw sch ct cp s y)
    have rec: "outcome_ok X (rec hw sch ct cp)" for hw sch ct cp by (rule outcome_ok_loopI) (rule 1(1))
    show ?case using 1(2) by (rule outcome_bnd_at) (intro outcome rec)+
  qed
qed

lemma dasd_step_outcome [outcome]:
  "outcome_ok X make_readipl" "outcome_ok X (run_readipl hw sch ct)" "outcome_ok X (check_ipl1 hw)"
  "outcome_ok X (check_ipl2 hw a)" "outcome_ok X read_ipl2_addr" "outcome_ok X ipl1_fixup"
  "outcome_ok X (run_ipl1 hw sch ct)" "outcome_ok X (run_ipl2 hw sch ct a)" "outcome_ok X force_zmode"
  unfolding make_readipl_def run_readipl_def check_ipl1_def check_ipl2_def read_ipl2_addr_def ipl1_fixup_def
    run_ipl1_def run_ipl2_def force_zmode_def
  by (intro outcome)+

end

context boot_contract begin

lemma dasd_ipl_outcome [outcome]: "outcome_ok X (dasd_ipl hw sch ct)"
  unfolding dasd_ipl_def by (intro outcome)

end

text \<open>
  A CCW \<open>dynamic_cp_fixup\<close> passes over: a TIC back to the CCW before it (the search loops of a
  program), or one that is chained and is no READ followed by a TIC.
\<close>

definition search_tic :: "(u64 \<Rightarrow> u8) \<Rightarrow> u64 \<Rightarrow> bool" where
  "search_tic m c \<longleftrightarrow> ccw0_cmd_code m c = CCW_CMD_TIC \<and> ccw0_cda m c = ucast c - 8"

definition passed_over :: "(u64 \<Rightarrow> u8) \<Rightarrow> u64 \<Rightarrow> bool" where
  "passed_over m c \<longleftrightarrow> search_tic m c \<or> ccw0_chain m c \<and> \<not> is_read_tic_ccw_chain m c"

lemma fixup_loop_scan:
  assumes "\<forall>i<n. passed_over (mem s) (c + 8 * word_of_nat i)" "\<not> passed_over (mem s) (c + 8 * word_of_nat n)"
    and "unat c + 8 * n < 2 ^ 32"
  shows "fixup_loop hw c s =
    (let e = c + 8 * word_of_nat n in
     if is_read_tic_ccw_chain (mem s) e
     then Some (Ret (Some (ccw0_cda (mem s) (e + 8))),
            s\<lparr>mem := (mem s)(e + 4 := mem s (e + 4) AND NOT CCW0_CHAIN)\<rparr>)
     else Some (Ret None, s))"
  using assms
proof (induction n arbitrary: c)
  case 0
  have c32: "c \<le> 0xffffffff" using 0(3) by (simp add: word_le_nat_alt)
  from 0 show ?case
    by (subst fixup_loop.simps)
      (auto simp: passed_over_def search_tic_def c32 set_chain_def mem_put_single bnd_assoc ret_def
        is_read_tic_ccw_chain_def mem_get_Suc Let_def)
next
  case (Suc n)
  have c32: "c \<le> 0xffffffff" using Suc.prems(3) by (simp add: word_le_nat_alt)
  have c8: "unat (c + 8) = unat c + 8"
    using unat_add_small [of c 8] Suc.prems(3) by simp
  have shift: "c + 8 * word_of_nat (Suc i) = c + 8 + 8 * word_of_nat i" for i :: nat
    by (simp add: algebra_simps)
  have "\<forall>i<n. passed_over (mem s) (c + 8 + 8 * word_of_nat i)"
    using Suc.prems(1) shift by (metis Suc_less_eq)
  moreover have "\<not> passed_over (mem s) (c + 8 + 8 * word_of_nat n)"
    using Suc.prems(2) unfolding shift .
  ultimately have IH: "fixup_loop hw (c + 8) s =
    (let e = c + 8 + 8 * word_of_nat n in
     if is_read_tic_ccw_chain (mem s) e
     then Some (Ret (Some (ccw0_cda (mem s) (e + 8))),
            s\<lparr>mem := (mem s)(e + 4 := mem s (e + 4) AND NOT CCW0_CHAIN)\<rparr>)
     else Some (Ret None, s))"
    by (rule Suc.IH) (use Suc.prems(3) c8 in simp)
  have "passed_over (mem s) (c + 8 * word_of_nat 0)" using Suc.prems(1) by blast
  then have "fixup_loop hw c s = fixup_loop hw (c + 8) s"
    by (subst fixup_loop.simps) (auto simp: passed_over_def search_tic_def c32)
  then show ?case unfolding IH shift .
qed

section \<open>Properties\<close>

lemma ucast_or_high: "(ucast (ucast (w :: u32) OR 0x100000000 :: u64) :: u32) = w"
proof (rule bit_word_eqI)
  fix n assume "n < LENGTH(32)"
  moreover have "\<not> bit (0x100000000 :: u64) n" if "n < 32"
    using that bit_exp_iff [where ?'a = u64, of 32 n] by simp
  ultimately show "bit (ucast (ucast w OR 0x100000000 :: u64) :: u32) n = bit w n"
    by (auto simp: bit_simps)
qed

lemma ucast_or_low: "(ucast (ucast (w :: u32) OR 0x80000000 :: u64) :: u32) = w OR 0x80000000"
proof -
  have "(0x80000000 :: u64) = ucast (0x80000000 :: u32)" by simp
  then show ?thesis by (simp only:) (rule bit_word_eqI, auto simp: bit_simps)
qed

text \<open>
  The step of \<open>dasd_ipl\<close> that is meant to force z/Architecture mode sets the basic
  addressing bit of the legacy PSW and leaves the mask word as it is: the extended addressing
  bit lies outside the 32 bits of the field.
\<close>

lemma force_zmode_effect:
  "\<exists>m. force_zmode s = Some (Ret (), s\<lparr>mem := m\<rparr>) \<and> mem_get m 0 4 = mem_get (mem s) 0 4 \<and>
     mem_get m 4 4 = to_be 4 (be (mem_get (mem s) 4 4) OR 0x80000000 :: u32)"
proof (intro exI conjI)
  show "force_zmode s = Some (Ret (), s\<lparr>mem := mem_put 4 (to_be 4 (be (mem_get (mem s) 4 4) OR 0x80000000 :: u32))
              (mem_put 0 (mem_get (mem s) 0 4) (mem s))\<rparr>)"
    by (simp add: force_zmode_def PSW_MASK_EAMODE_def PSW_MASK_BAMODE_def ucast_or_high ucast_or_low
      to_be_be_get mem_get_put_disjoint)
qed (simp_all add: mem_get_put_disjoint mem_get_put_to_be mem_get_put_get)



text \<open>
  C24: the channel program \<open>ipl1_fixup\<close> leaves at 8: seek to cylinder 0, head 0, search for
  record 2 on it, repeated until it is found, then the READ of the original program, no
  longer chained to the TIC that follows it.
\<close>

theorem ipl1_fixup_program:
  "\<exists>m. ipl1_fixup s = Some (Ret (), s\<lparr>mem := m\<rparr>) \<and>
     ccw0_cmd_code m 0x08 = CCW_CMD_DASD_SEEK \<and> ccw0_cda m 0x08 = 0x30 \<and> ccw0_chain m 0x08 \<and>
     mem_get m 0x0e 2 = [0, 6] \<and> mem_get m 0x30 6 = [0, 0, 0, 0, 0, 0] \<and>
     ccw0_cmd_code m 0x10 = CCW_CMD_DASD_SEARCH_ID_EQ \<and> ccw0_cda m 0x10 = 0x38 \<and> ccw0_chain m 0x10 \<and>
     mem_get m 0x16 2 = [0, 5] \<and> mem_get m 0x38 5 = [0, 0, 0, 0, 2] \<and>
     ccw0_cmd_code m 0x18 = CCW_CMD_TIC \<and> ccw0_cda m 0x18 = 0x10 \<and>
     mem_get m 0x20 4 = mem_get (mem s) 0x08 4 \<and> \<not> ccw0_chain m 0x20 \<and>
     mem_get m 0x26 10 = mem_get (mem s) 0x0e 10"
  by (intro exI conjI,
      simp add: ipl1_fixup_def memcpy_def set_chain_def set_cda_def set_cmd_code_def set_count_def bnd_assoc
        mem_put_at mem_get_Suc mem_get_0,
      simp_all add: byte_simps ccw0_cda_def ccw0_cmd_code_def ccw0_chain_def CCW0_CHAIN_def and.assoc)

text \<open>
  C21: \<open>dynamic_cp_fixup\<close> cuts a channel program at its first READ chained to a TIC: it clears
  the chain bit of that READ, changes nothing else, and returns where the TIC leads. A
  program without one is left as it is.
\<close>

theorem dynamic_cp_fixup_splits:
  assumes "\<forall>i<n. passed_over (mem s) (ucast cp + 8 * word_of_nat i)"
    and "\<not> passed_over (mem s) (ucast cp + 8 * word_of_nat n)" "unat cp + 8 * n < 2 ^ 32"
  shows "dynamic_cp_fixup hw cp s =
    (let e = ucast cp + 8 * word_of_nat n in
     if is_read_tic_ccw_chain (mem s) e
     then Some (Ret (Some (ccw0_cda (mem s) (e + 8))),
            s\<lparr>mem := (mem s)(e + 4 := mem s (e + 4) AND NOT CCW0_CHAIN)\<rparr>)
     else Some (Ret None, s))"
proof -
  have "unat (ucast cp :: u64) = unat cp" using unsigned_less [of cp, where ?'a = nat]
    by (simp add: unsigned_ucast_eq take_bit_nat_eq_self)
  with assms show ?thesis
    unfolding dynamic_cp_fixup_def by (intro fixup_loop_scan) simp_all
qed

text \<open>A search, a TIC back to it, and a READ chained to a TIC.\<close>

definition tic_prog :: "u64 \<Rightarrow> u8" where
  "tic_prog = mem_put 0x1000 ([0x31, 0, 0, 0, 0x40, 0, 0, 5] @ [8, 0, 0x10, 0, 0, 0, 0, 0] @
     [6, 0, 0x20, 0, 0x40, 0, 1, 0] @ [8, 0, 0x20, 0, 0, 0, 0, 0]) (\<lambda>_. 0)"


lemma tic_prog_at: "tic_prog a = (if 0x1000 \<le> unat a \<and> unat a < 0x1020
    then ([0x31, 0, 0, 0, 0x40, 0, 0, 5] @ [8, 0, 0x10, 0, 0, 0, 0, 0] @
     [6, 0, 0x20, 0, 0x40, 0, 1, 0] @ [8, 0, 0x20, 0, 0, 0, 0, 0]) ! (unat a - 0x1000) else 0)"
  by (simp add: tic_prog_def mem_put_at)

theorem dynamic_cp_fixup_splits_witness:
  "\<exists>t. dynamic_cp_fixup console_hw 0x1000 ((blank [] :: u8 list machine)\<lparr>mem := tic_prog\<rparr>) = Some (Ret (Some 0x2000), t) \<and>
     mem t 0x1014 = 0"
proof -
  note eval = tic_prog_at ccw0_cmd_code_def ccw0_cda_def ccw0_chain_def CCW0_CHAIN_def CCW_CMD_TIC_def
    is_read_tic_ccw_chain_def CCW_CMD_DASD_READ_def CCW_CMD_DASD_READ_MT_def byte_simps
  have "passed_over tic_prog 0x1000" "passed_over tic_prog 0x1008" "\<not> passed_over tic_prog 0x1010"
     "is_read_tic_ccw_chain tic_prog 0x1010" "ccw0_cda tic_prog 0x1018 = 0x2000"
    unfolding passed_over_def search_tic_def by (simp_all add: eval)
  then show ?thesis
    using dynamic_cp_fixup_splits [where n = 2 and cp = "0x1000" and hw = console_hw and s = "(blank [] :: u8 list machine)\<lparr>mem := tic_prog\<rparr>"]
    by (simp add: less_2_cases_iff all_conj_distrib eval)
qed

end
