(* ===== verification/ScsiSource.thy ===== *)
theory ScsiSource
  imports BlockSource
begin

text \<open>
  A virtio-scsi device in front of a disk: what it does with READ(10), and that
  \<open>virtio_read_many\<close> keeps the contract \<open>block_source\<close> with it, though it reads in pieces. The
  device is the only one on its bus, so the host does not look at the LUN.
\<close>

text \<open>
  The requests of virtio-scsi the loader reads with: READ(10) on a disk of blocks of \<open>bs\<close>
  bytes; the response reports success. Other commands get a response, too, and no data.
\<close>

definition serve_scsi :: "(u64 \<Rightarrow> u8) \<Rightarrow> s32 \<Rightarrow> vring_desc list \<Rightarrow> 'd plat \<Rightarrow> 'd plat" where
  "serve_scsi disk bs c p = (case c of
       q # r # ds \<Rightarrow>
         (let req = pread p (d_addr q) 51; ok = pwrite (d_addr r) (replicate 108 0) in
          case ds of
            [d] \<Rightarrow> ok (if req ! 19 = 0x28
              then pwrite (d_addr d) (mem_get disk (ucast (be (slice 21 4 req) :: u32) * word_of_nat (unat bs)) (unat (d_len d))) p
              else p)
          | _ \<Rightarrow> ok p)
     | _ \<Rightarrow> p)"

lemma serve_scsi_rings: "serve_scsi disk bs c (p\<lparr>p_rmem := r\<rparr>) = (serve_scsi disk bs c p)\<lparr>p_rmem := r\<rparr>"
  by (simp add: serve_scsi_def pwrite_rings pread_rings Let_def split: list.splits)

lemma chained_data_cmds: "chained (data_cmds p len)"
  by (simp add: data_cmds_def VRING_DESC_F_NEXT_def VRING_DESC_F_WRITE_def VRING_HIDDEN_IS_CHAIN_def)

definition scsi_ready :: "'d machine \<Rightarrow> bool" where
  "scsi_ready s \<longleftrightarrow> rings_idle s \<and> cu_model s = VIRTIO_ID_SCSI \<and> nr_vqs (vd s) = 3 \<and> blk_factor (vd s) = 1 \<and>
     (let m = MIN_NON_ZERO (scsi_max_sectors s) (max_transfer (vd s)) in 0 < unat m \<and> unat m < 65536) \<and>
     length (scr (io s) ScsiReq) = 51 \<and> length (scr (io s) ScsiResp) = 108 \<and> length (scr (io s) Sccb) = 4096"

text \<open>The request blocks as \<open>prepare_request\<close> leaves them.\<close>

definition scsi_req :: "u8 list \<Rightarrow> 'd machine \<Rightarrow> u8 list" where
  "scsi_req cdb s = (let d = scsi_dev (vd s) in
     splice 19 cdb (splice 0 (make_lun (sd_channel d) (sd_target d) (sd_lun d)) (replicate 51 0)))"

lemma length_make_lun [simp]: "length (make_lun a b c) = 8"
  by (simp add: make_lun_def Let_def)

lemma prepare_request_eq:
  assumes "length (scr (io s) ScsiReq) = 51" "length (scr (io s) ScsiResp) = 108" "length cdb = 10"
    "\<not> config_ptr p" "room p (unat n) s" "n \<noteq> 0"
  obtains u where "prepare_request cdb p n s = Some (Ret (), u)" "host_wrote s u"
    "u\<lparr>io := io s\<rparr> = (if p = Phys 0 then s else put p (replicate (unat n) 0) s)" "scr (io u) ScsiReq = scsi_req cdb s"
proof -
  let ?r = "splice 11 [0xff] (splice 10 [0xff] (replicate 108 0)) :: u8 list"
  let ?v = "put (Scr ScsiResp 0) ?r (put (Scr ScsiReq 0) (scsi_req cdb s) s)"
  let ?u = "if p = Phys 0 then ?v else put p (replicate (unat n) 0) ?v"
  have l: "length (scsi_req cdb s) = 51" using assms(3) by (simp add: scsi_req_def Let_def)
  have w: "host_wrote s ?v"
    using assms(1, 2) l by (intro host_wrote_put host_wrote_refl) simp_all
  have r: "room p (unat n) ?v" using assms(4, 5) by (cases p) simp_all
  have "prepare_request cdb p n s = Some (Ret (), ?u)"
    using assms l r
    by (cases p) (simp_all add: prepare_request_def memset_def bnd_store_put whenM_def ret_def scsi_req_def Let_def)
  moreover have "host_wrote s ?u" using w r by (auto intro: host_wrote_put)
  moreover have "?u\<lparr>io := io s\<rparr> = (if p = Phys 0 then s else put p (replicate (unat n) 0) s)"
    using assms(4) by (cases p) simp_all
  moreover have "scr (io ?u) ScsiReq = scsi_req cdb s" using assms(1, 4) l by (cases p) simp_all
  ultimately show ?thesis by (rule that)
qed


definition scsi_content :: "(u64 \<Rightarrow> u8) \<Rightarrow> s32 \<Rightarrow> u64 \<Rightarrow> nat \<Rightarrow> u8 list" where
  "scsi_content disk bs b n = mem_get disk (b * word_of_nat (unat bs)) n"

locale scsi_host = ring_host hw "serve_scsi disk bs" clk for hw :: "'d hw" and disk bs clk
begin

lemma serve_read:
  assumes "scr (io u) ScsiReq = scsi_req (read_10_cdb b k) s"
  shows "serve_scsi disk bs (descs 0 (data_cmds p len)) (to_plat u) =
    pwrite (Scr ScsiResp 0) (replicate 108 0)
      (pwrite p (mem_get disk (ucast (ucast b :: u32) * word_of_nat (unat bs)) (unat len)) (to_plat u))"
proof -
  let ?r = "scsi_req (read_10_cdb b k) s"
  have l: "length (read_10_cdb b k) = 10" by (simp add: read_10_cdb_def)
  then have lr: "length ?r = 51" by (simp add: scsi_req_def Let_def)
  have "slice 19 10 ?r = read_10_cdb b k"
    using l by (simp add: scsi_req_def Let_def)
  have n: "?r ! (19 + i) = read_10_cdb b k ! i" if "i < 10" for i
    using that l by (simp add: scsi_req_def Let_def nth_splice)
  then have r0: "?r ! 19 = 0x28" using n [of 0] by (simp add: read_10_cdb_def)
  have "?r ! (21 + i) = read_10_cdb b k ! (2 + i)" if "i < 4" for i
    using n [of "2 + i"] that by (simp add: add.assoc [symmetric])
  then have "slice 21 4 ?r = slice 2 4 (read_10_cdb b k)"
    using lr l by (intro nth_equalityI) (auto simp: nth_slice)
  also have "\<dots> = to_be 4 (ucast b :: u32)" by (simp add: read_10_cdb_def slice_def)
  finally have s: "slice 21 4 ?r = to_be 4 (ucast b :: u32)" .
  have "pread (to_plat u) (Scr ScsiReq 0) 51 = ?r" using assms lr slice_whole [of ?r] by (simp add: to_plat_def)
  then show ?thesis using r0 s by (simp add: serve_scsi_def data_cmds_def Let_def del: pread.simps pwrite.simps)
qed

lemma scsi_read_10_ok:
  assumes "scsi_ready s" "\<not> config_ptr p" "room p (unat len) s" "len \<noteq> 0"
  shows "\<exists>t. scsi_read_10 hw b k p len s = Some (Ret True, t) \<and> scsi_ready t \<and>
    t\<lparr>io := io s\<rparr> = put p (mem_get disk (ucast (ucast b :: u32) * word_of_nat (unat bs)) (unat len)) s"
proof -
  let ?data = "mem_get disk (ucast (ucast b :: u32) * word_of_nat (unat bs)) (unat len)" and ?cs = "data_cmds p len"
  have s: "rings_idle s" "nr_vqs (vd s) = 3" "length (scr (io s) ScsiReq) = 51" "length (scr (io s) ScsiResp) = 108"
    using assms(1) by (simp_all add: scsi_ready_def)
  obtain u where u: "prepare_request (read_10_cdb b k) p len s = Some (Ret (), u)" "host_wrote s u"
    "u\<lparr>io := io s\<rparr> = (if p = Phys 0 then s else put p (replicate (unat len) 0) s)" "scr (io u) ScsiReq = scsi_req (read_10_cdb b k) s"
    using prepare_request_eq [OF s(3, 4) _ assms(2-4), of "read_10_cdb b k"] by (auto simp: read_10_cdb_def)
  note same = host_wrote_same [OF u(2)]
  have i: "rings_idle u" "2 < nr_vqs (vd u)" using s(1, 2) same by simp_all
  have ch: "chained ?cs" "length ?cs \<le> 4" by (rule chained_data_cmds) (simp add: data_cmds_def)
  let ?t = "served 2 ?cs u"
  have rm: "room p (length ?data) u" "room (Scr ScsiResp 0) (length (replicate 108 (0 :: u8))) u"
    using assms(2, 3) s(4) same by (cases p; simp)+
  have fp: "from_plat (serve_scsi disk bs (descs 0 ?cs) (to_plat u)) u = put (Scr ScsiResp 0) (replicate 108 0) (put p ?data u)"
    unfolding serve_read [OF u(4)] to_plat_put [symmetric]
    by (rule from_plat_wrote [OF host_wrote_put [OF host_wrote_put [OF host_wrote_refl rm(1)]]])
       (simp only: room_put [OF rm(1)] rm(2))
  have scr_t: "scr (io ?t) = scr (io (put (Scr ScsiResp 0) (replicate 108 0) (put p ?data u)))"
    unfolding served_frame fp ..
  have resp: "scr (io ?t) ScsiResp = replicate 108 0"
    unfolding scr_t using assms(2) s(4) same(6) [of ScsiResp] by (cases p) simp_all
  then have "virtio_scsi_response_ok ?t"
    by (simp add: virtio_scsi_response_ok_def resp_response_def resp_status_def VIRTIO_SCSI_S_OK_def CDB_STATUS_GOOD_def)
  then have "scsi_read_10 hw b k p len s = Some (Ret True, ?t)"
    using u(1) virtio_run_served [OF i ch]
    by (simp add: scsi_read_10_def vs_run_def bnd_Ret bnd_assoc vs_io_assert_def ret_def gets_def)
  moreover have t: "?t\<lparr>io := io s\<rparr> = put p ?data s"
    unfolding served_frame fp put_Scr_io put_io [OF assms(2)] u(3) using assms(2, 3) by (auto intro: put_put)
  moreover have "scsi_ready ?t"
  proof -
    have "bufs ?t = bufs (put p ?data s)" "vd ?t = vd (put p ?data s)" using t [symmetric] by simp_all
    then have "cu_model ?t = cu_model s" "scsi_max_sectors ?t = scsi_max_sectors s" "vd ?t = vd s"
      using assms(2) by (cases p; auto simp: cu_model_def scsi_max_sectors_def)+
    moreover have "length (scr (io ?t) ScsiReq) = 51" "length (scr (io ?t) Sccb) = length (scr (io s) Sccb)"
      unfolding scr_t using assms(2) s(3) same(6) [of ScsiReq] same(6) [of Sccb] by (cases p; simp)+
    ultimately show ?thesis using assms(1) served_idle [OF i ch] resp by (simp add: scsi_ready_def)
  qed
  ultimately show ?thesis by blast
qed


lemma scsi_read_loop_ok:
  assumes "unat bs * unat n < 2 ^ 31" "0 < unat bs" "0 < unat mx" "unat mx < 65536"
  shows "scsi_ready s \<Longrightarrow> virtio_get_block_size s = bs \<Longrightarrow> \<not> config_ptr p \<Longrightarrow> room p (unat bs * unat n) s \<Longrightarrow>
    0 < unat n \<Longrightarrow> unat b + unat n \<le> 2 ^ 32 \<Longrightarrow>
    \<exists>t. scsi_read_loop hw mx 1 b p n s = Some (Ret 0, t) \<and> scsi_ready t \<and>
      t\<lparr>io := io s\<rparr> = put p (scsi_content disk bs b (unat bs * unat n)) s"
  using assms(1)
proof (induction "unat n" arbitrary: n b p s rule: less_induct)
  case less
  define c where "c = MIN_NON_ZERO n mx"
  have c: "0 < unat c" "unat c \<le> unat n" "unat c \<le> unat mx" "unat c = unat n \<or> unat c = unat mx"
    using less.prems(5) assms(3) by (auto simp: c_def MIN_NON_ZERO_def word_less_nat_alt unat_gt_0)
  have le: "unat bs * unat c \<le> unat bs * unat n" using c(2) by simp
  have lt: "unat bs * unat c < 2 ^ 31" using le less.prems(7) by (rule le_less_trans)
  then have d: "unat (c * bs * 1) = unat bs * unat c" by (simp add: unat_word_ariths mult.commute)
  have d0: "c * bs * 1 \<noteq> 0" using d c(1) assms(2) by (metis mult_pos_pos unat_gt_0 less_numeral_extra(3) unat_0)
  have nn: "unat n < 2 ^ 31" using less.prems(7) assms(2) by (metis le_less_trans mult_le_mono1 nat_mult_1 Suc_leI One_nat_def)
  have b: "unat b < 2 ^ 32" using less.prems(5, 6) by simp
  have ub: "(ucast (ucast b :: u32) :: u64) = b"
    using b by (simp add: word_unat_eq_iff unsigned_ucast_eq unsigned_take_bit_eq take_bit_nat_eq_self)
  have room: "room p (unat (c * bs * 1)) s" unfolding d using less.prems(4) le by (rule room_le)
  obtain t where t: "scsi_read_10 hw b c p (c * bs * 1) s = Some (Ret True, t)" "scsi_ready t"
    "t\<lparr>io := io s\<rparr> = put p (scsi_content disk bs b (unat bs * unat c)) s"
    using scsi_read_10_ok [OF less.prems(1, 3) room d0, of b c] unfolding ub d scsi_content_def by blast
  have bst: "virtio_get_block_size t = bs"
    using t(3) less.prems(2) by (metis block_size_io block_size_put [OF less.prems(3)])
  have m: "unat (n - c) = unat n - unat c" using c(2) by (simp add: unat_sub word_le_nat_alt)
  have sg: "0 < sint (n - c) \<longleftrightarrow> unat c < unat n"
    using sint_small [of "n - c"] m nn by simp
  have step: "scsi_read_loop hw mx 1 b p n s = (if unat c < unat n
      then scsi_read_loop hw mx 1 (b + int_to_u64 c) (ptr_add p (unat bs * unat c)) (n - c) t else Some (Ret 0, t))"
    using t(1) less.prems(2) sg d by (subst scsi_read_loop.simps) (simp add: bnd_Ret c_def [symmetric] ret_def)
  show ?case
  proof (cases "unat c < unat n")
    case False
    with c(2) have "unat c = unat n" by simp
    with t step False show ?thesis by auto
  next
    case True
    let ?b = "b + int_to_u64 c" and ?p = "ptr_add p (unat bs * unat c)"
    have ic: "int_to_u64 c = word_of_nat (unat c)" using c(2) nn by (intro scast_small) simp
    have b': "unat ?b = unat b + unat c" unfolding ic using less.prems(6) c(2) by (intro unat_add_small) simp
    have split: "unat bs * unat n = unat bs * unat c + unat bs * unat (n - c)"
      using c(2) unfolding m by (simp add: distrib_left [symmetric])
    have "\<not> config_ptr ?p" using less.prems(3) by (cases p) simp_all
    moreover have "room ?p (unat bs * unat (n - c)) t"
    proof -
      have "room ?p (unat bs * unat (n - c)) s" using less.prems(4) split by (cases p) simp_all
      then have "room ?p (unat bs * unat (n - c)) (t\<lparr>io := io s\<rparr>)"
        using room unfolding t(3) d by (subst room_put) (simp_all add: scsi_content_def)
      then show ?thesis using \<open>\<not> config_ptr ?p\<close> by (simp add: room_io)
    qed
    ultimately obtain u where u: "scsi_read_loop hw mx 1 ?b ?p (n - c) t = Some (Ret 0, u)" "scsi_ready u"
      "u\<lparr>io := io t\<rparr> = put ?p (scsi_content disk bs ?b (unat bs * unat (n - c))) t"
      using less.hyps [of "n - c" t ?p ?b] t(2) bst True m b' c(1) less.prems(6, 7) split by auto
    have "scsi_content disk bs b (unat bs * unat n) = scsi_content disk bs b (unat bs * unat c) @ scsi_content disk bs ?b (unat bs * unat (n - c))"
      unfolding split scsi_content_def mem_get_add ic by (simp add: algebra_simps)
    moreover have "u\<lparr>io := io s\<rparr> = put p (scsi_content disk bs b (unat bs * unat c) @ scsi_content disk bs ?b (unat bs * unat (n - c))) s"
    proof -
      have "u\<lparr>io := io s\<rparr> = (u\<lparr>io := io t\<rparr>)\<lparr>io := io s\<rparr>" by simp
      also have "\<dots> = put ?p (scsi_content disk bs ?b (unat bs * unat (n - c))) (t\<lparr>io := io s\<rparr>)"
        unfolding u(3) by (rule put_io) fact
      also have "\<dots> = put p (scsi_content disk bs b (unat bs * unat c) @ scsi_content disk bs ?b (unat bs * unat (n - c))) s"
        unfolding t(3) using less.prems(4, 7) split by (intro put_append) (simp_all add: scsi_content_def)
      finally show ?thesis .
    qed
    ultimately show ?thesis using step True u by auto
  qed
qed


end

sublocale scsi_host \<subseteq> blocks: block_source hw "\<lambda>s. scsi_ready s \<and> virtio_get_block_size s = bs \<and> 0 < unat bs" bs "2 ^ 32"
  "scsi_content disk bs"
proof unfold_locales
  fix s :: "'d machine" and p len and b :: u64 and n :: s32
  assume s: "scsi_ready s \<and> virtio_get_block_size s = bs \<and> 0 < unat bs" "\<not> config_ptr p" "room p len s" "0 < unat n"
    and n: "len = unat bs * unat n" "len < 2 ^ 31" "unat b + unat n \<le> 2 ^ 32"
  let ?m = "MIN_NON_ZERO (scsi_max_sectors s) (max_transfer (vd s))"
  from s(1) have r: "scsi_ready s" "virtio_get_block_size s = bs" "0 < unat bs" by simp_all
  then have m: "0 < unat ?m" "unat ?m < 65536" "blk_factor (vd s) = 1" "cu_model s = VIRTIO_ID_SCSI"
    by (simp_all add: scsi_ready_def Let_def)
  obtain t where t: "scsi_read_loop hw ?m 1 b p n s = Some (Ret 0, t)" "scsi_ready t"
    "t\<lparr>io := io s\<rparr> = put p (scsi_content disk bs b len) s"
    using scsi_read_loop_ok [OF _ r(3) m(1, 2) r(1, 2) s(2) _ s(4) n(3)] n s(3) by blast
  have "virtio_get_block_size t = virtio_get_block_size s"
    using t(3) s(2) by (metis block_size_io block_size_put)
  moreover have "virtio_read_many hw b p n s = scsi_read_loop hw ?m 1 b p n s"
    using m(3, 4) by (simp add: virtio_read_many_def virtio_scsi_read_many_def VIRTIO_ID_SCSI_def VIRTIO_ID_BLOCK_def)
  ultimately show "\<exists>t. virtio_read_many hw b p n s = Some (Ret 0, t) \<and>
      (scsi_ready t \<and> virtio_get_block_size t = bs \<and> 0 < unat bs) \<and> t\<lparr>io := io s\<rparr> = put p (scsi_content disk bs b len) s"
    using t r by auto
next
  fix s :: "'d machine" and p and x :: "u8 list"
  assume s: "scsi_ready s \<and> virtio_get_block_size s = bs \<and> 0 < unat bs" "\<not> config_ptr p" "room p (length x) s"
  then have "scsi_ready (put p x s)"
    by (cases p) (auto simp: scsi_ready_def rings_idle_def idle_def cu_model_def scsi_max_sectors_def)
  with s show "scsi_ready (put p x s) \<and> virtio_get_block_size (put p x s) = bs \<and> 0 < unat bs"
    by (simp add: block_size_put)
next
  fix s :: "'d machine" and j
  assume s: "scsi_ready s \<and> virtio_get_block_size s = bs \<and> 0 < unat bs" "console_step hw (io s) j"
  then have "scsi_ready (s\<lparr>io := j\<rparr>)"
    using console_step_frame [OF s(2)] console_step_length [OF s(2)] rings_idle_console [OF s(2)]
    by (simp add: scsi_ready_def cu_model_def scsi_max_sectors_def)
  with s show "scsi_ready (s\<lparr>io := j\<rparr>) \<and> virtio_get_block_size (s\<lparr>io := j\<rparr>) = bs \<and> 0 < unat bs"
    by (simp add: block_size_io)
qed (auto simp: scsi_content_def scsi_ready_def)

definition scsi_hw :: "(u64 \<Rightarrow> u8) \<Rightarrow> s32 \<Rightarrow> 'd hw" where
  "scsi_hw disk bs = (disk_hw disk)\<lparr>hypercall := (\<lambda>nr a q cookie p. (cookie, answered (serve_scsi disk bs) (unat q) p))\<rparr>"

interpretation scsi_hw: scsi_host "scsi_hw disk bs :: 'd hw" disk bs 0 for disk bs
  by unfold_locales (simp_all add: scsi_hw_def disk_hw_def no_hw_def serve_scsi_rings)



definition scsi_machine :: "nat machine" where
  "scsi_machine = (blank 0)\<lparr>bufs := (\<lambda>b. replicate (buf_size b) 0)
       (VSenseId := [0, 0x38, 0x32, 8], VConfig := replicate 8 0 @ [0, 0, 0, 2] @ replicate 24 0),
     vd := blank_vdev\<lparr>nr_vqs := 3, cmd_vr_idx := 2\<rparr>,
     io := (io (blank 0))\<lparr>rmem := replicate 3 (blank_ring\<lparr>rm_desc := replicate 4 \<lparr>d_addr = Phys 0, d_len = 0, d_flags = 0, d_next = 0\<rparr>,
         avail_ring := replicate 4 0, used_ring := replicate 4 (0, 0)\<rparr>),
       vrings := map (\<lambda>i. blank_vring\<lparr>vr_num := 4, vr_id := i\<rparr>) [0, 1, 2]\<rparr>\<rparr>"

lemma scsi_machine_ready: "scsi_ready scsi_machine" "virtio_get_block_size scsi_machine = 512"
proof -
  have "idle j scsi_machine" if "j < 3" for j
  proof -
    from that have "j = 0 \<or> j = 1 \<or> j = 2" by auto
    then show ?thesis
      by (auto simp: scsi_machine_def idle_def ring_wf_def blank_ring_def blank_vring_def Let_def)
  qed
  then have "rings_idle scsi_machine" by (simp add: rings_idle_def scsi_machine_def blank_vdev_def)
  then show "scsi_ready scsi_machine"
    by (simp add: scsi_ready_def scsi_machine_def blank_vdev_def cu_model_def VIRTIO_ID_SCSI_def scsi_max_sectors_def
      slice_def be_def MIN_NON_ZERO_def Let_def)
  show "virtio_get_block_size scsi_machine = 512"
    by (simp add: virtio_get_block_size_def scsi_machine_def cu_model_def VIRTIO_ID_SCSI_def VIRTIO_ID_BLOCK_def blank_vdev_def)
qed


end
