(* ===== verification/MainProg.thy ===== *)
theory MainProg
  imports Bootmap Dasd ZiplSections ScsiSource
begin

text \<open>
  The main program (\<open>main.c\<close>): finding the boot device on the channel subsystem, the menu
  parameters, and the boot by device type. \<open>probe_boot_device\<close> and \<open>find_subch\<close> walk the
  65536 subchannels of a set; a subchannel set's end is a \<open>stsch\<close> that fails.
\<close>

section \<open>Devices\<close>

text \<open>The result is \<open>-ENODEV\<close> (-3), 0 or 1.\<close>

definition is_dev_possibly_bootable :: "'d hw \<Rightarrow> int \<Rightarrow> nat \<Rightarrow> ('d, int) fw" where
  "is_dev_possibly_bootable hw dev_no sn =
     seq (modify (\<lambda>s. s\<lparr>blk_schid := (blk_schid s)\<lparr>sch_no := word_of_nat sn\<rparr>\<rparr>))
    (bnd (gets blk_schid) (\<lambda>sch.
     bnd (dev_op (stsch hw sch)) (\<lambda>(r, schib).
     if r = 3 \<or> r = -1 then ret (-3)
     else if \<not> dnv (schib_pmcw schib) then ret 0
     else
     seq (enable_subchannel hw sch)
    (bnd (cu_type hw sch) (\<lambda>ct.
     seq (modify (\<lambda>s. s\<lparr>the_cutype := ct\<rparr>))
    (bnd (virtio_is_supported hw sch) (\<lambda>is_virtio.
     bnd (gets cu_model) (\<lambda>model.
     ret (if dev_no < 0
          then if ct = CU_TYPE_VIRTIO then if is_virtio \<and> model \<noteq> VIRTIO_ID_NET then 1 else 0
               else if ct = CU_TYPE_DASD_3990 \<or> ct = CU_TYPE_DASD_2107 then 1
               else 0
          else if uint (pmcw_dev (schib_pmcw schib)) = dev_no then 1 else 0)))))))))"

text \<open>The loop of \<open>find_subch\<close>: \<open>n\<close> subchannels left from \<open>i\<close> on.\<close>

fun find_loop :: "'d hw \<Rightarrow> int \<Rightarrow> nat \<Rightarrow> nat \<Rightarrow> ('d, bool) fw" where
  "find_loop hw dev_no i 0 = ret False"
| "find_loop hw dev_no i (Suc n) =
     bnd (is_dev_possibly_bootable hw dev_no i) (\<lambda>r.
     if r < 0 then ret False else if r = 1 then ret True else find_loop hw dev_no (Suc i) n)"

definition find_subch :: "'d hw \<Rightarrow> int \<Rightarrow> ('d, bool) fw" where
  "find_subch hw dev_no = find_loop hw dev_no 0 0x10000"

section \<open>Setting up\<close>

text \<open>\<open>BOOT_MENU_FLAG_MASK\<close>.\<close>

definition BOOT_MENU_FLAG_MASK :: u8 where
  "BOOT_MENU_FLAG_MASK = QIPL_FLAG_BM_OPTS_CMD OR QIPL_FLAG_BM_OPTS_ZIPL"

definition menu_setup :: "('d, unit) fw" where
  "menu_setup =
     bnd (gets (\<lambda>s. (take 8 (loadparm_str s), pbt (the_iplb s), the_qipl s))) (\<lambda>(lp, p, q).
     if memcmp lp (lit ''PROMPT  '') = 0 then menu_set_parms QIPL_FLAG_BM_OPTS_CMD 0
     else if memcmp lp (lit ''        '') \<noteq> 0 then ret ()
     else if p = IPL_CCW \<or> p = IPL_QEMU_SCSI
     then menu_set_parms (qipl_flags q AND BOOT_MENU_FLAG_MASK) (boot_menu_timeout q)
     else ret ())"

definition css_setup :: "'d hw \<Rightarrow> ('d, unit) fw" where
  "css_setup hw = seq (enable_mss_facility hw) (ret ())"

definition boot_setup :: "'d hw \<Rightarrow> ('d, unit) fw" where
  "boot_setup hw =
     seq (sclp_get_loadparm_ascii hw)
    (bnd (gets (\<lambda>s. take 8 (loadparm_str s))) (\<lambda>lp.
     seq (sclp_print hw (c_str (splice 10 lp (lit ''LOADPARM=[________]'' @ [10, 0]))))
    (seq (memset (Phys S390EP) 0 6)
    (bnd (dev_op (store_iplb hw)) (\<lambda>(ok, b).
     modify (\<lambda>s. s\<lparr>have_iplb := ok, the_iplb := b\<rparr>))))))"

definition find_boot_device :: "'d hw \<Rightarrow> ('d, unit) fw" where
  "find_boot_device hw =
     bnd (gets the_iplb) (\<lambda>b.
     bnd (if pbt b = IPL_CCW
          then seq (modify (\<lambda>s. s\<lparr>blk_schid := (blk_schid s)\<lparr>ssid := ucast (iplb_ssid b AND 3)\<rparr>\<rparr>))
              (find_subch hw (uint (iplb_devno b)))
          else if pbt b = IPL_QEMU_SCSI
          then seq (upd_vd (\<lambda>v. v\<lparr>scsi_device_selected := True,
                      selected_scsi_device := \<lparr>sd_channel = iplb_channel b, sd_target = iplb_target b,
                        sd_lun = iplb_lun b\<rparr>\<rparr>))
              (seq (modify (\<lambda>s. s\<lparr>blk_schid := (blk_schid s)\<lparr>ssid := ucast (iplb_ssid b AND 3)\<rparr>\<rparr>))
              (find_subch hw (uint (iplb_devno b))))
          else panic hw (lit ''List-directed IPL not supported yet!'' @ [10])) (\<lambda>found.
     IPL_assert hw found (lit ''Boot device not found'' @ [10])))"

text \<open>\<open>QemuIplParameters\<close> at 0xcc: \<open>qipl_flags\<close>, \<open>netboot_start_addr\<close>, \<open>boot_menu_timeout\<close> at
  0, 4, 12.\<close>

definition read_qipl :: "(u64 \<Rightarrow> u8) \<Rightarrow> qipl" where
  "read_qipl m = \<lparr>qipl_flags = m 0xcc, qipl_netboot_start_addr = be (mem_get m 0xd0 8),
     boot_menu_timeout = be (mem_get m 0xd8 4)\<rparr>"

definition virtio_setup :: "'d hw \<Rightarrow> ('d, int) fw" where
  "virtio_setup hw =
     seq (modify (\<lambda>s. s\<lparr>the_qipl := read_qipl (mem s)\<rparr>))
    (bnd (gets have_iplb) (\<lambda>b.
     seq (whenM b menu_setup)
    (bnd (gets cu_model) (\<lambda>model.
     if model = VIRTIO_ID_NET
     then seq (sclp_print hw (lit ''Network boot device detected'' @ [10]))
         (seq (modify (\<lambda>s. s\<lparr>vd := (vd s)\<lparr>netboot_start_addr := qipl_netboot_start_addr (the_qipl s)\<rparr>\<rparr>))
         (ret 0))
     else bnd (gets blk_schid) (\<lambda>sch.
          bnd (virtio_blk_setup_device hw sch) (\<lambda>r.
          if r \<noteq> 0 then ret r
          else bnd (gets virtio_ipl_disk_is_valid) (\<lambda>valid.
               seq (IPL_assert hw valid (lit ''No valid IPL device detected'')) (ret 0))))))))"

section \<open>Booting\<close>

definition ipl_boot_device :: "'d hw \<Rightarrow> ('d, unit) fw" where
  "ipl_boot_device hw =
     bnd (gets (\<lambda>s. (the_cutype s, blk_schid s))) (\<lambda>(ct, sch).
     if ct = CU_TYPE_DASD_3990 \<or> ct = CU_TYPE_DASD_2107 then dasd_ipl hw sch ct
     else if ct = CU_TYPE_VIRTIO then bnd (virtio_setup hw) (\<lambda>r. whenM (r = 0) (zipl_load hw))
     else seq (print_int hw (lit ''Attempting to boot from unexpected device type'') (ucast ct))
         (panic hw (10 # lit ''Boot failed.'' @ [10])))"

text \<open>The loop over the subchannels of a set: \<open>n\<close> left from \<open>i\<close> on.\<close>

fun probe_loop :: "'d hw \<Rightarrow> nat \<Rightarrow> nat \<Rightarrow> ('d, unit) fw" where
  "probe_loop hw i 0 = ret ()"
| "probe_loop hw i (Suc n) =
     bnd (is_dev_possibly_bootable hw (-1) i) (\<lambda>r.
     if r < 0 then ret ()
     else seq (whenM (r = 1) (ipl_boot_device hw)) (probe_loop hw (Suc i) n))"

definition probe_boot_device :: "'d hw \<Rightarrow> ('d, unit) fw" where
  "probe_boot_device hw =
     seq (for_each (\<lambda>ss. seq (modify (\<lambda>s. s\<lparr>blk_schid := (blk_schid s)\<lparr>ssid := ss\<rparr>\<rparr>))
                             (probe_loop hw 0 0x10000)) [0, 1, 2])
         (sclp_print hw (lit ''Could not find a suitable boot device (none specified)'' @ [10]))"

definition main :: "'d hw \<Rightarrow> ('d, unit) fw" where
  "main hw =
     seq (sclp_setup hw)
    (seq (css_setup hw)
    (seq (boot_setup hw)
    (bnd (gets have_iplb) (\<lambda>b.
     seq (if b then seq (find_boot_device hw) (ipl_boot_device hw) else probe_boot_device hw)
     (panic hw (lit ''Failed to load OS from hard disk'' @ [10]))))))"

section \<open>Outcomes\<close>

context exit_contract begin

lemma is_dev_possibly_bootable_outcome [outcome]: "outcome_ok X (is_dev_possibly_bootable hw n k)"
  unfolding is_dev_possibly_bootable_def by (intro outcome; simp add: shape_def)

lemma find_loop_outcome [outcome]: "outcome_ok X (find_loop hw n i k)"
  by (induction k arbitrary: i) (simp_all only: find_loop.simps, (intro outcome | assumption)+)

lemma setup_outcome [outcome]:
  "outcome_ok X menu_setup" "outcome_ok X (css_setup hw)" "outcome_ok X (boot_setup hw)"
  "outcome_ok X (find_boot_device hw)" "outcome_ok X (virtio_setup hw)"
  unfolding menu_setup_def css_setup_def boot_setup_def find_boot_device_def virtio_setup_def find_subch_def
  by (intro outcome; simp add: shape_def)+

end

context boot_contract begin

lemma ipl_boot_device_outcome [outcome]: "outcome_ok X (ipl_boot_device hw)"
  unfolding ipl_boot_device_def by (intro outcome)

lemma probe_loop_outcome [outcome]: "outcome_ok X (probe_loop hw i n)"
  by (induction n arbitrary: i) (simp_all only: probe_loop.simps, (intro outcome | assumption)+)

lemma main_outcome: "outcome_ok X (main hw)"
  unfolding main_def probe_boot_device_def by (intro outcome; simp add: shape_def)

end

section \<open>Properties\<close>

text \<open>
  C8: whatever hardware it meets and wherever it stops, the loader changes the extent of no
  buffer, ring table or feature array, and when it hands the machine over (the outcome
  \<open>NormalReset\<close>), the low core names the subchannel of the boot device, and for a virtio
  device other than a network card the IPL parameter block, whose type is not the one only
  the loader understands.
\<close>

theorem main_hands_over: "outcome_ok (handed_over hw) (main hw)"
  by (rule hand_over.main_outcome)

text \<open>The main program never returns: it ends in a reset, in a disabled wait, or not at all.\<close>

lemma main_never_returns: "main hw s \<noteq> Some (Ret u, t)"
  by (simp add: main_def bnd_eq_Ret)

text \<open>
  The menu flags come from the LOADPARM first: PROMPT turns the menu on without a timeout,
  any other value but blanks leaves it off, and only blanks leave the choice to the flags and
  the timeout QEMU hands over, reduced to the two menu flags.
\<close>

lemma menu_setup_choice:
  assumes "length (loadparm_str s) \<ge> 8"
  shows "menu_setup s = Some (Ret (), 
    (if take 8 (loadparm_str s) = lit ''PROMPT  ''
     then s\<lparr>menu_flag := 0x80, menu_timeout := 0\<rparr>
     else if take 8 (loadparm_str s) = lit ''        '' \<and> pbt (the_iplb s) \<in> {IPL_CCW, IPL_QEMU_SCSI}
     then s\<lparr>menu_flag := qipl_flags (the_qipl s) AND 0xc0, menu_timeout := ucast (boot_menu_timeout (the_qipl s))\<rparr>
     else s))"
proof -
  have cmp: "memcmp (take 8 (loadparm_str s)) (lit x) = 0 \<longleftrightarrow> take 8 (loadparm_str s) = lit x" if "length x = 8" for x
    using assms that by (intro memcmp_0_iff) simp
  have "memcmp (take 8 (loadparm_str s)) (lit ''PROMPT  '') = 0 \<longleftrightarrow> take 8 (loadparm_str s) = lit ''PROMPT  ''"
    "memcmp (take 8 (loadparm_str s)) (lit ''        '') = 0 \<longleftrightarrow> take 8 (loadparm_str s) = lit ''        ''"
    by (rule cmp; simp)+
  moreover have "BOOT_MENU_FLAG_MASK = 0xc0" "QIPL_FLAG_BM_OPTS_CMD = 0x80"
    by (simp_all add: BOOT_MENU_FLAG_MASK_def QIPL_FLAG_BM_OPTS_CMD_def QIPL_FLAG_BM_OPTS_ZIPL_def)
  ultimately show ?thesis
    by (simp add: menu_setup_def menu_set_parms_def modify_def ret_def)
qed

lemma menu_setup_choice_witness:
  "menu_setup ((blank [] :: u8 list machine)\<lparr>loadparm_str := lit ''PROMPT  '' @ [0]\<rparr>) =
     Some (Ret (), (blank [])\<lparr>loadparm_str := lit ''PROMPT  '' @ [0], menu_flag := 0x80, menu_timeout := 0\<rparr>)"
  using menu_setup_choice [of "(blank [] :: u8 list machine)\<lparr>loadparm_str := lit ''PROMPT  '' @ [0]\<rparr>"]
  by simp

end
