(* ===== verification/BitFields.thy ===== *)
theory BitFields
  imports Prelude
begin

text \<open>
  Packed C structures with bit fields, as the compiler lays them out on s390: the members follow
  each other without a gap, the first at the most significant bit. Reading and storing a member,
  on the bytes of the structure.
\<close>

section \<open>Members of a structure\<close>

type_synonym bit_struct = "(string \<times> nat) list"

text \<open>Where a member starts, in bits, and how wide it is.\<close>

fun place :: "bit_struct \<Rightarrow> string \<Rightarrow> (nat \<times> nat) option" where
  "place [] f = None"
| "place ((n, w) # fs) f = (if n = f then Some (0, w) else map_option (\<lambda>(s, v). (w + s, v)) (place fs f))"

definition struct_bits :: "bit_struct \<Rightarrow> nat" where
  "struct_bits fs = sum_list (map snd fs)"

definition struct_size :: "bit_struct \<Rightarrow> nat" where
  "struct_size fs = (struct_bits fs + 7) div 8"

lemma place_bound: "place fs f = Some (s, w) \<Longrightarrow> s + w \<le> struct_bits fs"
  by (induction fs f arbitrary: s w rule: place.induct) (auto simp: struct_bits_def split: if_splits)

lemma place_disjoint:
  "place fs f = Some (s, w) \<Longrightarrow> place fs g = Some (t, v) \<Longrightarrow> f \<noteq> g \<Longrightarrow> s + w \<le> t \<or> t + v \<le> s"
proof (induction fs arbitrary: s t)
  case (Cons x fs)
  then show ?case by (cases x) (fastforce split: if_splits)
qed simp

section \<open>Bits of a number\<close>

definition get_bits :: "nat \<Rightarrow> nat \<Rightarrow> nat \<Rightarrow> nat" where
  "get_bits lo w k = k div 2 ^ lo mod 2 ^ w"

definition put_bits :: "nat \<Rightarrow> nat \<Rightarrow> nat \<Rightarrow> nat \<Rightarrow> nat" where
  "put_bits lo w v k = k div 2 ^ (lo + w) * 2 ^ (lo + w) + v mod 2 ^ w * 2 ^ lo + k mod 2 ^ lo"

lemma get_bits_bit: "get_bits lo w k = take_bit w (drop_bit lo k)"
  by (simp add: get_bits_def take_bit_eq_mod drop_bit_eq_div)

lemma put_bits_bit: "put_bits lo w v k = push_bit (lo + w) (drop_bit (lo + w) k) OR push_bit lo (take_bit w v) OR take_bit lo k"
proof -
  have "push_bit (lo + w) (drop_bit (lo + w) k) OR push_bit lo (take_bit w v)
      = push_bit (lo + w) (drop_bit (lo + w) k) + push_bit lo (take_bit w v)"
    by (rule disjunctive_add [symmetric]) (auto simp: bit_simps)
  moreover have "(push_bit (lo + w) (drop_bit (lo + w) k) OR push_bit lo (take_bit w v)) OR take_bit lo k
      = (push_bit (lo + w) (drop_bit (lo + w) k) OR push_bit lo (take_bit w v)) + take_bit lo k"
    by (rule disjunctive_add [symmetric]) (auto simp: bit_simps)
  ultimately show ?thesis
    by (simp add: put_bits_def push_bit_eq_mult drop_bit_eq_div take_bit_eq_mod flip: or.assoc)
qed

lemma get_put_same: "get_bits lo w (put_bits lo w v k) = v mod 2 ^ w"
  unfolding get_bits_bit put_bits_bit take_bit_eq_mod [symmetric] by (rule bit_eqI) (auto simp: bit_simps)

lemma get_put_other: "lo + w \<le> lo' \<or> lo' + w' \<le> lo \<Longrightarrow> get_bits lo' w' (put_bits lo w v k) = get_bits lo' w' k"
  unfolding get_bits_bit put_bits_bit by (rule bit_eqI) (auto simp: bit_simps)

lemma put_bits_bound: "k < 2 ^ m \<Longrightarrow> lo + w \<le> m \<Longrightarrow> put_bits lo w v k < 2 ^ m"
proof -
  assume k: "k < 2 ^ m" and m: "lo + w \<le> m"
  then have "take_bit m k = k" by (simp add: take_bit_nat_eq_self_iff)
  then have "n < m" if "bit k n" for n using that by (metis bit_take_bit_iff)
  then have "take_bit m (put_bits lo w v k) = put_bits lo w v k"
    unfolding put_bits_bit using m by (intro bit_eqI) (auto simp: bit_simps)
  then show ?thesis by (simp add: take_bit_nat_eq_self_iff)
qed

text \<open>A number split above and below: what a part of a structure sees of it.\<close>

lemma get_bits_high:
  assumes "r < 2 ^ m"
  shows "get_bits (m + lo) w (k * 2 ^ m + r) = get_bits lo w k"
proof -
  have "(k * 2 ^ m + r) div 2 ^ m = k" using assms by simp
  then show ?thesis by (simp add: get_bits_def power_add div_mult2_eq)
qed

lemma put_bits_high:
  assumes "r < 2 ^ m"
  shows "put_bits (m + lo) w v (k * 2 ^ m + r) = put_bits lo w v k * 2 ^ m + r"
proof -
  have d: "(k * 2 ^ m + r) div 2 ^ m = k" using assms by simp
  have "(k * 2 ^ m + r) mod 2 ^ (m + lo) = k mod 2 ^ lo * 2 ^ m + r"
    using assms mod_mult2_eq [of "k * 2 ^ m + r" "2 ^ m" "2 ^ lo"] by (simp add: power_add d mult.commute)
  moreover have "(k * 2 ^ m + r) div 2 ^ (m + lo + w) = k div 2 ^ (lo + w)"
    unfolding add.assoc power_add [of 2 m] div_mult2_eq d ..
  ultimately show ?thesis by (simp add: put_bits_def power_add algebra_simps)
qed

lemma get_bits_low:
  assumes "lo + w \<le> m"
  shows "get_bits lo w (k * 2 ^ m + r) = get_bits lo w r"
proof -
  obtain j where m: "m = lo + w + j" using assms le_Suc_ex by blast
  have "(k * 2 ^ m + r) div 2 ^ lo = r div 2 ^ lo + k * 2 ^ j * 2 ^ w"
    using div_mult_self1 [of "2 ^ lo" r "k * 2 ^ j * 2 ^ w"] by (simp add: m power_add algebra_simps)
  then show ?thesis by (simp add: get_bits_def)
qed

lemma put_bits_low:
  assumes "lo + w \<le> m"
  shows "put_bits lo w v (k * 2 ^ m + r) = k * 2 ^ m + put_bits lo w v r"
proof -
  obtain j where m: "m = lo + w + j" using assms le_Suc_ex by blast
  have "(k * 2 ^ m + r) div 2 ^ (lo + w) = r div 2 ^ (lo + w) + k * 2 ^ j"
    using div_mult_self1 [of "2 ^ (lo + w)" r "k * 2 ^ j"] by (simp add: m power_add algebra_simps)
  moreover have "(k * 2 ^ m + r) mod 2 ^ lo = r mod 2 ^ lo"
    using mod_mult_self1 [of r "k * 2 ^ j * 2 ^ w" "2 ^ lo"] by (simp add: m power_add algebra_simps)
  ultimately show ?thesis by (simp add: put_bits_def m power_add algebra_simps)
qed

section \<open>Members of the bytes of a structure\<close>

definition get_field :: "bit_struct \<Rightarrow> string \<Rightarrow> u8 list \<Rightarrow> nat option" where
  "get_field fs f bs = map_option (\<lambda>(s, w). get_bits (8 * length bs - (s + w)) w (be_nat bs)) (place fs f)"

definition put_field :: "bit_struct \<Rightarrow> string \<Rightarrow> nat \<Rightarrow> u8 list \<Rightarrow> u8 list option" where
  "put_field fs f v bs =
     map_option (\<lambda>(s, w). nat_be (length bs) (put_bits (8 * length bs - (s + w)) w v (be_nat bs))) (place fs f)"

lemma be_nat_bits: "be_nat bs < 2 ^ (8 * length bs)"
  using be_nat_bound [of bs] by (simp add: power_mult)

text \<open>Storing a member, then reading one: the member has the value, cut to its width, and the others keep theirs.\<close>

lemma put_field_get:
  assumes "place fs f = Some (s, w)" "struct_bits fs \<le> 8 * length bs"
  obtains bs' where "put_field fs f v bs = Some bs'" "length bs' = length bs" "get_field fs f bs' = Some (v mod 2 ^ w)"
    "\<And>g. g \<noteq> f \<Longrightarrow> get_field fs g bs' = get_field fs g bs"
proof -
  let ?n = "8 * length bs"
  let ?k = "put_bits (?n - (s + w)) w v (be_nat bs)"
  have sw: "s + w \<le> ?n" using place_bound [OF assms(1)] assms(2) by simp
  have "?k < 2 ^ ?n" using put_bits_bound [OF be_nat_bits, of "?n - (s + w)" w bs v] sw by simp
  then have k: "be_nat (nat_be (length bs) ?k) = ?k" by (simp add: be_nat_nat_be power_mult)
  have same: "get_field fs f (nat_be (length bs) ?k) = Some (v mod 2 ^ w)"
    using assms(1) by (simp add: get_field_def k get_put_same)
  have other: "get_field fs g (nat_be (length bs) ?k) = get_field fs g bs" if "g \<noteq> f" for g
  proof (cases "place fs g")
    case (Some x)
    obtain t u where x: "x = (t, u)" by (cases x)
    have "s + w \<le> t \<or> t + u \<le> s" "t + u \<le> ?n"
      using place_disjoint [OF assms(1), of g t u] place_bound [of fs g t u] assms(2) Some x that by auto
    then have "get_bits (?n - (t + u)) u ?k = get_bits (?n - (t + u)) u (be_nat bs)"
      using sw by (intro get_put_other) auto
    then show ?thesis using Some x by (simp add: get_field_def k)
  qed (simp add: get_field_def)
  show ?thesis by (rule that [of "nat_be (length bs) ?k"]) (use assms(1) same other in \<open>simp_all add: put_field_def\<close>)
qed

lemma be_nat_append_bits: "be_nat (xs @ ys) = be_nat xs * 2 ^ (8 * length ys) + be_nat ys"
  by (simp add: be_nat_append power_mult)

lemma be_nat_byte: "be_nat (xs @ b # zs) = (be_nat xs * 2 ^ 8 + unat b) * 2 ^ (8 * length zs) + be_nat zs"
proof -
  have "(256 :: nat) ^ n = 2 ^ (8 * n)" for n by (simp add: power_mult)
  then show ?thesis by (simp add: be_nat_append_bits power_add algebra_simps)
qed

text \<open>Members of whole bytes, and members within a byte.\<close>

lemma get_bytes:
  assumes "place fs f = Some (8 * length xs, 8 * length ys)"
  shows "get_field fs f (xs @ ys @ zs) = Some (be_nat ys)"
proof -
  have "get_bits (8 * length zs + 0) (8 * length ys) ((be_nat xs * 2 ^ (8 * length ys) + be_nat ys) * 2 ^ (8 * length zs) + be_nat zs)
      = be_nat ys"
    unfolding get_bits_high [OF be_nat_bits] using be_nat_bits [of ys] by (simp add: get_bits_low) (simp add: get_bits_def)
  then show ?thesis using assms by (simp add: get_field_def be_nat_append_bits algebra_simps power_add)
qed

lemma put_bytes:
  assumes "place fs f = Some (8 * length xs, 8 * length ys)"
  shows "put_field fs f v (xs @ ys @ zs) = Some (xs @ nat_be (length ys) v @ zs)"
proof -
  let ?n = "length (xs @ ys @ zs)"
  have "put_bits 0 (8 * length ys) v (be_nat ys) = be_nat (nat_be (length ys) v)"
    using be_nat_bits [of ys] by (simp add: put_bits_def be_nat_nat_be power_mult)
  then have "put_bits (8 * length zs + 0) (8 * length ys) v ((be_nat xs * 2 ^ (8 * length ys) + be_nat ys) * 2 ^ (8 * length zs) + be_nat zs)
      = be_nat (xs @ nat_be (length ys) v @ zs)"
    unfolding put_bits_high [OF be_nat_bits] put_bits_low [of 0 "8 * length ys" "8 * length ys" v "be_nat xs" "be_nat ys", OF add_0 [THEN eq_refl]]
    by (simp add: be_nat_append_bits algebra_simps power_add)
  then have "put_bits (8 * length zs) (8 * length ys) v (be_nat (xs @ ys @ zs)) = be_nat (xs @ nat_be (length ys) v @ zs)"
    by (simp add: be_nat_append_bits algebra_simps power_add)
  moreover have "nat_be ?n (be_nat (xs @ nat_be (length ys) v @ zs)) = xs @ nat_be (length ys) v @ zs"
    using nat_be_be_nat [of "xs @ nat_be (length ys) v @ zs"] by simp
  ultimately show ?thesis using assms by (simp add: put_field_def)
qed

lemma get_in_byte:
  assumes "place fs f = Some (8 * length xs + i, w)" "i + w \<le> 8"
  shows "get_field fs f (xs @ b # zs) = Some (get_bits (8 - (i + w)) w (unat b))"
proof -
  have "get_bits (8 * length zs + (8 - (i + w))) w ((be_nat xs * 2 ^ 8 + unat b) * 2 ^ (8 * length zs) + be_nat zs)
      = get_bits (8 - (i + w)) w (unat b)"
    unfolding get_bits_high [OF be_nat_bits] using assms(2) by (intro get_bits_low) simp
  moreover have "8 * length (xs @ b # zs) - (8 * length xs + i + w) = 8 * length zs + (8 - (i + w))" using assms(2) by simp
  ultimately show ?thesis using assms(1) by (simp add: get_field_def be_nat_byte)
qed

lemma put_in_byte:
  assumes "place fs f = Some (8 * length xs + i, w)" "i + w \<le> 8"
  shows "put_field fs f v (xs @ b # zs) = Some (xs @ word_of_nat (put_bits (8 - (i + w)) w v (unat b)) # zs)"
proof -
  let ?b = "word_of_nat (put_bits (8 - (i + w)) w v (unat b)) :: u8"
  let ?bs = "xs @ b # zs"
  have "put_bits (8 - (i + w)) w v (unat b) < 2 ^ 8"
    using assms(2) unsigned_less [of b, where ?'a = nat] by (intro put_bits_bound) simp_all
  then have b: "put_bits (8 - (i + w)) w v (unat b) = unat ?b" by (simp add: unat_of_nat take_bit_nat_eq_self)
  have "put_bits (8 * length zs + (8 - (i + w))) w v ((be_nat xs * 2 ^ 8 + unat b) * 2 ^ (8 * length zs) + be_nat zs)
      = (be_nat xs * 2 ^ 8 + unat ?b) * 2 ^ (8 * length zs) + be_nat zs"
    unfolding put_bits_high [OF be_nat_bits] b [symmetric] using assms(2) by (subst put_bits_low) simp_all
  moreover have "8 * length ?bs - (8 * length xs + i + w) = 8 * length zs + (8 - (i + w))" using assms(2) by simp
  ultimately have "put_bits (8 * length ?bs - (8 * length xs + i + w)) w v (be_nat ?bs) = be_nat (xs @ ?b # zs)"
    unfolding be_nat_byte by simp
  moreover have "nat_be (length ?bs) (be_nat (xs @ ?b # zs)) = xs @ ?b # zs"
    using nat_be_be_nat [of "xs @ ?b # zs"] by simp
  ultimately show ?thesis using assms(1) by (simp add: put_field_def add.assoc)
qed

end
