(* ===== verification/HostRecords.thy ===== *)
theory HostRecords
  imports MainProg BitFields
begin

text \<open>
  The structures the loader shares with the channel subsystem, the service processor, the
  hypervisor and the devices (\<open>cio.h\<close>, \<open>sclp.h\<close>, \<open>iplb.h\<close>, \<open>s390-arch.h\<close>, \<open>virtio.h\<close>, \<open>scsi.h\<close>,
  \<open>virtio-scsi.h\<close>), as C lays them out, and that the model reads and writes their members where
  they are. The members of those that are not declared packed (\<open>VirtioBlkOuthdr\<close>,
  \<open>ScsiDevice\<close>, \<open>VirtioNetConfig\<close>, \<open>ciw\<close>) need no padding: each starts at a multiple of its size.
  An unnamed union or structure is called \<open>_\<close>.
\<close>

section \<open>Channel subsystem (cio.h): structures with bit fields\<close>

definition Pmcw :: bit_struct where
  "Pmcw = [(''intparm'', 32), (''qf'', 1), (''w'', 1), (''isc'', 3), (''res5'', 3), (''ena'', 1), (''lm'', 2), (''mme'', 2),
     (''mp'', 1), (''tf'', 1), (''dnv'', 1), (''dev'', 16), (''lpm'', 8), (''pnom'', 8), (''lpum'', 8), (''pim'', 8),
     (''mbi'', 16), (''pom'', 8), (''pam'', 8), (''chpid'', 64), (''unused1'', 8), (''st'', 3), (''unused2'', 18),
     (''mbfc'', 1), (''xmwme'', 1), (''csense'', 1)]"
definition SchibConfig :: bit_struct where
  "SchibConfig = [(''mba'', 64), (''intparm'', 32), (''mbi'', 16), (''isc'', 3), (''ena'', 1), (''mme'', 2), (''mp'', 1),
     (''csense'', 1), (''mbfc'', 1)]"
definition Scsw :: bit_struct where
  "Scsw = [(''flags'', 16), (''ctrl'', 16), (''cpa'', 32), (''dstat'', 8), (''cstat'', 8), (''count'', 16)]"
definition Schib :: bit_struct where
  "Schib = Pmcw @ Scsw @ [(''mba'', 64), (''mda'', 32)]"
definition SubChannelId :: bit_struct where
  "SubChannelId = [(''cssid'', 8), (''reserved'', 4), (''m'', 1), (''ssid'', 2), (''one'', 1), (''sch_no'', 16)]"
definition ChscAreaSda :: bit_struct where
  "ChscAreaSda = [(''request.length'', 16), (''request.code'', 16), (''reserved1'', 4), (''format'', 4), (''reserved2'', 8),
     (''operation_code'', 16), (''reserved3'', 32), (''reserved4'', 32), (''operation_data_area'', 252 * 32),
     (''response.length'', 16), (''response.code'', 16), (''reserved5'', 4), (''format2'', 4), (''reserved6'', 24)]"
definition TpiInfo :: bit_struct where
  "TpiInfo = SubChannelId @ [(''intparm'', 32), (''adapter_IO'', 1), (''reserved2'', 1), (''isc'', 3), (''reserved3'', 12),
     (''int_type'', 3), (''reserved4'', 12)]"
definition Ccw0 :: bit_struct where
  "Ccw0 = [(''cmd_code'', 8), (''cda'', 24), (''chainData'', 1), (''chain'', 1), (''sli'', 1), (''skip'', 1), (''pci'', 1),
     (''ida'', 1), (''suspend'', 1), (''mida'', 1), (''reserved'', 8), (''count'', 16)]"
definition Ccw1 :: bit_struct where
  "Ccw1 = [(''cmd_code'', 8), (''flags'', 8), (''count'', 16), (''cda'', 32)]"
definition CmdOrb :: bit_struct where
  "CmdOrb = [(''intparm'', 32), (''key'', 4), (''spnd'', 1), (''res1'', 1), (''mod'', 1), (''sync'', 1), (''fmt'', 1),
     (''pfch'', 1), (''isic'', 1), (''alcc'', 1), (''ssic'', 1), (''res2'', 1), (''c64'', 1), (''i2k'', 1), (''lpm'', 8),
     (''ils'', 1), (''zero'', 6), (''orbx'', 1), (''cpa'', 32)]"

lemmas bit_records = Pmcw_def SchibConfig_def Scsw_def Schib_def SubChannelId_def ChscAreaSda_def TpiInfo_def Ccw0_def Ccw1_def CmdOrb_def

section \<open>Channel subsystem (cio.h): structures of bytes\<close>

definition ciw :: ctype where
  "ciw = c_struct [(''type'', Bytes 1), (''command'', Bytes 1), (''count'', Bytes 2)]"
definition SenseId :: ctype where
  "SenseId = c_struct [(''reserved'', Bytes 1), (''cu_type'', Bytes 2), (''cu_model'', Bytes 1), (''dev_type'', Bytes 2),
     (''dev_model'', Bytes 1), (''unused'', Bytes 1), (''ciw'', Array 62 ciw)]"
definition SenseDataEckdDasd :: ctype where
  "SenseDataEckdDasd = c_struct [(''common_status'', Bytes 1), (''status'', Array 2 (Bytes 1)), (''res_count'', Bytes 1),
     (''phys_drive_id'', Bytes 1), (''low_cyl_addr'', Bytes 1), (''head_high_cyl_addr'', Bytes 1), (''fmt_msg'', Bytes 1),
     (''fmt_dependent_info'', Array 2 (Bytes 8)), (''reserved'', Bytes 1), (''program_action_code'', Bytes 1),
     (''config_info'', Bytes 2), (''mcode_hicyl'', Bytes 1), (''cyl_head_addr'', Array 3 (Bytes 1))]"
definition Irb :: ctype where
  "Irb = c_struct [(''scsw'', Bytes 12), (''esw'', Array 5 (Bytes 4)), (''ecw'', Array 8 (Bytes 4)), (''emw'', Array 8 (Bytes 4))]"
definition CcwSeekData :: ctype where
  "CcwSeekData = c_struct [(''reserved'', Bytes 2), (''cyl'', Bytes 2), (''head'', Bytes 2)]"
definition CcwSearchIdData :: ctype where
  "CcwSearchIdData = c_struct [(''cyl'', Bytes 2), (''head'', Bytes 2), (''record'', Bytes 1)]"

section \<open>Service processor (sclp.h)\<close>

definition SCCBHeader :: ctype where
  "SCCBHeader = c_struct [(''length'', Bytes 2), (''function_code'', Bytes 1), (''control_mask'', Bytes 3), (''response_code'', Bytes 2)]"
definition ReadInfo :: ctype where
  "ReadInfo = c_struct [(''h'', SCCBHeader), (''rnmax'', Bytes 2), (''rnsize'', Bytes 1), (''reserved'', Bytes 13), (''loadparm'', Bytes 8)]"
definition SCCB :: ctype where
  "SCCB = c_struct [(''h'', SCCBHeader), (''data'', Bytes (4096 - sizeof SCCBHeader))]"
definition WriteEventMask :: ctype where
  "WriteEventMask = c_struct [(''h'', SCCBHeader), (''_reserved'', Bytes 2), (''mask_length'', Bytes 2), (''cp_receive_mask'', Bytes 4),
     (''cp_send_mask'', Bytes 4), (''send_mask'', Bytes 4), (''receive_mask'', Bytes 4)]"
definition EventBufferHeader :: ctype where
  "EventBufferHeader = c_struct [(''length'', Bytes 2), (''type'', Bytes 1), (''flags'', Bytes 1), (''_reserved'', Bytes 2)]"
definition WriteEventData :: ctype where
  "WriteEventData = c_struct [(''h'', SCCBHeader), (''ebh'', EventBufferHeader), (''data'', Bytes 0)]"
definition ReadEventData :: ctype where
  "ReadEventData = c_struct [(''h'', SCCBHeader), (''ebh'', EventBufferHeader), (''mask'', Bytes 4)]"

section \<open>Hypervisor (iplb.h) and low core (s390-arch.h)\<close>

definition IplBlockCcw :: ctype where
  "IplBlockCcw = c_struct [(''reserved0'', Bytes 85), (''ssid'', Bytes 1), (''devno'', Bytes 2), (''vm_flags'', Bytes 1),
     (''reserved3'', Bytes 3), (''vm_parm_len'', Bytes 4), (''nss_name'', Bytes 8), (''vm_parm'', Bytes 64), (''reserved4'', Bytes 8)]"
definition IplBlockFcp :: ctype where
  "IplBlockFcp = c_struct [(''reserved1'', Bytes (305 - 1)), (''opt'', Bytes 1), (''reserved2'', Bytes 3), (''reserved3'', Bytes 2),
     (''devno'', Bytes 2), (''reserved4'', Bytes 4), (''wwpn'', Bytes 8), (''lun'', Bytes 8), (''bootprog'', Bytes 4),
     (''reserved5'', Bytes 12), (''br_lba'', Bytes 8), (''scp_data_len'', Bytes 4), (''reserved6'', Bytes 260), (''scp_data'', Bytes 0)]"
definition IplBlockQemuScsi :: ctype where
  "IplBlockQemuScsi = c_struct [(''lun'', Bytes 4), (''target'', Bytes 2), (''channel'', Bytes 2), (''reserved0'', Bytes 77),
     (''ssid'', Bytes 1), (''devno'', Bytes 2)]"
definition IplParameterBlock :: ctype where
  "IplParameterBlock = c_struct [(''len'', Bytes 4), (''reserved0'', Bytes 3), (''version'', Bytes 1), (''blk0_len'', Bytes 4),
     (''pbt'', Bytes 1), (''flags'', Bytes 1), (''reserved01'', Bytes 2), (''loadparm'', Bytes 8),
     (''_'', c_union [(''ccw'', IplBlockCcw), (''fcp'', IplBlockFcp), (''scsi'', IplBlockQemuScsi)])]"
definition QemuIplParameters :: ctype where
  "QemuIplParameters = c_struct [(''qipl_flags'', Bytes 1), (''reserved1'', Bytes 3), (''netboot_start_addr'', Bytes 8),
     (''boot_menu_timeout'', Bytes 4), (''reserved2'', Bytes 12)]"

definition PSWLegacy :: ctype where
  "PSWLegacy = c_struct [(''mask'', Bytes 4), (''addr'', Bytes 4)]"
definition PSW :: ctype where
  "PSW = c_struct [(''mask'', Bytes 8), (''addr'', Bytes 8)]"
definition LowCore :: ctype where
  "LowCore = c_struct [(''ipl_psw'', PSWLegacy), (''ccw1'', Array 2 (Bytes 4)),
     (''_'', c_union [(''ccw2'', Array 2 (Bytes 4)), (''_'', c_struct [(''reserved10'', Bytes 4), (''ptr_iplb'', Bytes 4)])]),
     (''pad1'', Bytes (0x80 - 0x18)), (''ext_params'', Bytes 4), (''cpu_addr'', Bytes 2), (''ext_int_code'', Bytes 2),
     (''svc_ilen'', Bytes 2), (''svc_code'', Bytes 2), (''pgm_ilen'', Bytes 2), (''pgm_code'', Bytes 2),
     (''data_exc_code'', Bytes 4), (''mon_class_num'', Bytes 2), (''per_perc_atmid'', Bytes 2), (''per_address'', Bytes 8),
     (''exc_access_id'', Bytes 1), (''per_access_id'', Bytes 1), (''op_access_id'', Bytes 1), (''ar_access_id'', Bytes 1),
     (''pad2'', Bytes (0xa8 - 0xa4)), (''trans_exc_code'', Bytes 8), (''monitor_code'', Bytes 8), (''subchannel_id'', Bytes 2),
     (''subchannel_nr'', Bytes 2), (''io_int_parm'', Bytes 4), (''io_int_word'', Bytes 4), (''pad3'', Bytes (0xc8 - 0xc4)),
     (''stfl_fac_list'', Bytes 4), (''pad4'', Bytes (0xe8 - 0xcc)), (''mcic'', Bytes 8), (''pad5'', Bytes (0xf4 - 0xf0)),
     (''external_damage_code'', Bytes 4), (''failing_storage_address'', Bytes 8), (''pad6'', Bytes (0x110 - 0x100)),
     (''per_breaking_event_addr'', Bytes 8), (''pad7'', Bytes (0x120 - 0x118)),
     (''restart_old_psw'', PSW), (''external_old_psw'', PSW), (''svc_old_psw'', PSW), (''program_old_psw'', PSW),
     (''mcck_old_psw'', PSW), (''io_old_psw'', PSW), (''pad8'', Bytes (0x1a0 - 0x180)), (''restart_new_psw'', PSW),
     (''external_new_psw'', PSW), (''svc_new_psw'', PSW), (''program_new_psw'', PSW), (''mcck_new_psw'', PSW), (''io_new_psw'', PSW)]"

section \<open>Virtio devices (virtio.h)\<close>

definition VqInfo :: ctype where
  "VqInfo = c_struct [(''queue'', Bytes 8), (''align'', Bytes 4), (''index'', Bytes 2), (''num'', Bytes 2)]"
definition VqConfig :: ctype where
  "VqConfig = c_struct [(''index'', Bytes 2), (''num'', Bytes 2)]"
definition VRingDesc :: ctype where
  "VRingDesc = c_struct [(''addr'', Bytes 8), (''len'', Bytes 4), (''flags'', Bytes 2), (''next'', Bytes 2)]"
definition VRingAvail :: ctype where
  "VRingAvail = c_struct [(''flags'', Bytes 2), (''idx'', Bytes 2), (''ring'', Array 0 (Bytes 2))]"
definition VRingUsedElem :: ctype where
  "VRingUsedElem = c_struct [(''id'', Bytes 4), (''len'', Bytes 4)]"
definition VRingUsed :: ctype where
  "VRingUsed = c_struct [(''flags'', Bytes 2), (''idx'', Bytes 2), (''ring'', Array 0 VRingUsedElem)]"
definition VirtioBlkOuthdr :: ctype where
  "VirtioBlkOuthdr = c_struct [(''type'', Bytes 4), (''ioprio'', Bytes 4), (''sector'', Bytes 8)]"
definition VirtioBlkConfig :: ctype where
  "VirtioBlkConfig = c_struct [(''capacity'', Bytes 8), (''size_max'', Bytes 4), (''seg_max'', Bytes 4),
     (''geometry'', c_struct [(''cylinders'', Bytes 2), (''heads'', Bytes 1), (''sectors'', Bytes 1)]), (''blk_size'', Bytes 4),
     (''physical_block_exp'', Bytes 1), (''alignment_offset'', Bytes 1), (''min_io_size'', Bytes 2), (''opt_io_size'', Bytes 4),
     (''wce'', Bytes 1)]"
definition VirtioScsiConfig :: ctype where
  "VirtioScsiConfig = c_struct [(''num_queues'', Bytes 4), (''seg_max'', Bytes 4), (''max_sectors'', Bytes 4), (''cmd_per_lun'', Bytes 4),
     (''event_info_size'', Bytes 4), (''sense_size'', Bytes 4), (''cdb_size'', Bytes 4), (''max_channel'', Bytes 2),
     (''max_target'', Bytes 2), (''max_lun'', Bytes 4)]"
definition ScsiDevice :: ctype where
  "ScsiDevice = c_struct [(''channel'', Bytes 2), (''target'', Bytes 2), (''lun'', Bytes 4)]"
definition VirtioNetConfig :: ctype where
  "VirtioNetConfig = c_struct [(''mac'', Bytes 6)]"

section \<open>SCSI (scsi.h, virtio-scsi.h)\<close>

definition ScsiLun :: ctype where
  "ScsiLun = c_union [(''v64'', Bytes 8), (''v8'', Array 8 (Bytes 1)), (''v16'', Array 4 (Bytes 2))]"
definition ScsiSense70 :: ctype where
  "ScsiSense70 = c_struct [(''b0'', Bytes 1), (''b1'', Bytes 1), (''b2'', Bytes 1), (''u1'', Bytes (1 * 4 + 1 + 1 * 4)),
     (''additional_sense_code'', Bytes 1), (''additional_sense_code_qualifier'', Bytes 1), (''u2'', Bytes (1 + 3 + 0))]"
definition ScsiInquiryStd :: ctype where
  "ScsiInquiryStd = c_struct [(''peripheral_qdt'', Bytes 1), (''b1'', Bytes 1), (''spc_version'', Bytes 1), (''b3'', Bytes 1),
     (''u1'', Bytes (1 + 1 + 1 + 1 + 8)), (''prod_id'', Bytes 16), (''u2'', Bytes (4 + 8 + 12 + 1 + 1 + 8 * 2 + 22 + 0))]"
definition ScsiInquiryEvpdPages :: ctype where
  "ScsiInquiryEvpdPages = c_struct [(''peripheral_qdt'', Bytes 1), (''page_code'', Bytes 1), (''page_length'', Bytes 2), (''byte'', Bytes 28)]"
definition ScsiInquiryEvpdBl :: ctype where
  "ScsiInquiryEvpdBl = c_struct [(''peripheral_qdt'', Bytes 1), (''page_code'', Bytes 1), (''page_length'', Bytes 2), (''b4'', Bytes 1),
     (''b5'', Bytes 1), (''b6'', Bytes 2), (''max_transfer'', Bytes 4), (''b12'', Array 7 (Bytes 4)), (''b44'', Array 5 (Bytes 4))]"
definition ScsiCdbInquiry :: ctype where
  "ScsiCdbInquiry = c_struct [(''command'', Bytes 1), (''b1'', Bytes 1), (''b2'', Bytes 1), (''alloc_len'', Bytes 2), (''control'', Bytes 1)]"
definition ScsiCdbRead10 :: ctype where
  "ScsiCdbRead10 = c_struct [(''command'', Bytes 1), (''b1'', Bytes 1), (''lba'', Bytes 4), (''b6'', Bytes 1), (''xfer_length'', Bytes 2),
     (''control'', Bytes 1)]"
definition ScsiCdbTestUnitReady :: ctype where
  "ScsiCdbTestUnitReady = c_struct [(''command'', Bytes 1), (''b1_b4'', Bytes 4), (''control'', Bytes 1)]"
definition ScsiCdbReportLuns :: ctype where
  "ScsiCdbReportLuns = c_struct [(''command'', Bytes 1), (''b1'', Bytes 1), (''select_report'', Bytes 1), (''b3_b5'', Bytes 3),
     (''alloc_len'', Bytes 4), (''b10'', Bytes 1), (''control'', Bytes 1)]"
definition ScsiLunReport :: ctype where
  "ScsiLunReport = c_struct [(''lun_list_len'', Bytes 4), (''b4_b7'', Bytes 4), (''lun'', Array 1 ScsiLun)]"
definition ScsiCdbReadCapacity16 :: ctype where
  "ScsiCdbReadCapacity16 = c_struct [(''command'', Bytes 1), (''service_action'', Bytes 1), (''b2_b9'', Bytes 8), (''alloc_len'', Bytes 4),
     (''b14'', Bytes 1), (''control'', Bytes 1)]"
definition ScsiReadCapacity16Data :: ctype where
  "ScsiReadCapacity16Data = c_struct [(''ret_lba'', Bytes 8), (''lb_len'', Bytes 4), (''u1'', Bytes (2 + 1 * 2 + 16))]"
definition VirtioScsiCmdReq :: ctype where
  "VirtioScsiCmdReq = c_struct [(''lun'', ScsiLun), (''id'', Bytes 8), (''task_attr'', Bytes 1), (''prio'', Bytes 1), (''crn'', Bytes 1),
     (''cdb'', Bytes 32)]"
definition VirtioScsiCmdResp :: ctype where
  "VirtioScsiCmdResp = c_struct [(''sense_len'', Bytes 4), (''residual'', Bytes 4), (''status_qualifier'', Bytes 2), (''status'', Bytes 1),
     (''response'', Bytes 1), (''sense'', Bytes 96)]"

lemmas host_records = offset_def c_struct_def c_union_def ciw_def SenseId_def SenseDataEckdDasd_def Irb_def CcwSeekData_def
  CcwSearchIdData_def SCCBHeader_def ReadInfo_def SCCB_def WriteEventMask_def EventBufferHeader_def WriteEventData_def ReadEventData_def
  IplBlockCcw_def IplBlockFcp_def IplBlockQemuScsi_def IplParameterBlock_def QemuIplParameters_def PSWLegacy_def PSW_def LowCore_def
  VqInfo_def VqConfig_def VRingDesc_def VRingAvail_def VRingUsedElem_def VRingUsed_def VirtioBlkOuthdr_def VirtioBlkConfig_def
  VirtioScsiConfig_def ScsiDevice_def VirtioNetConfig_def ScsiLun_def ScsiSense70_def ScsiInquiryStd_def ScsiInquiryEvpdPages_def
  ScsiInquiryEvpdBl_def ScsiCdbInquiry_def ScsiCdbRead10_def ScsiCdbTestUnitReady_def ScsiCdbReportLuns_def ScsiLunReport_def
  ScsiCdbReadCapacity16_def ScsiReadCapacity16Data_def VirtioScsiCmdReq_def VirtioScsiCmdResp_def

section \<open>Sizes\<close>

lemma host_sizes:
  "struct_size Pmcw = 28" "struct_size SchibConfig = 16" "struct_size Scsw = 12" "struct_size Schib = 52" "struct_size SubChannelId = 4"
  "struct_size ChscAreaSda = 1032" "struct_size TpiInfo = 12" "struct_size Ccw0 = 8" "struct_size Ccw1 = 8" "struct_size CmdOrb = 12"
  "sizeof SenseId = 256" "sizeof SenseDataEckdDasd = 32" "sizeof Irb = 96" "sizeof CcwSeekData = 6" "sizeof CcwSearchIdData = 5"
  "sizeof SCCB = 4096" "sizeof ReadInfo = 32" "sizeof WriteEventMask = 28" "sizeof WriteEventData = 14" "sizeof ReadEventData = 18"
  "sizeof QemuIplParameters = 28" "sizeof PSWLegacy = 8" "sizeof PSW = 16" "sizeof LowCore = 512"
  "sizeof VqInfo = 16" "sizeof VqConfig = 4" "sizeof VRingDesc = 16" "sizeof VRingUsedElem = 8" "sizeof VirtioBlkOuthdr = 16"
  "sizeof VirtioBlkConfig = 33" "sizeof VirtioScsiConfig = 36" "sizeof ScsiDevice = 8"
  "sizeof ScsiSense70 = 18" "sizeof ScsiInquiryStd = 96" "sizeof ScsiInquiryEvpdPages = 32" "sizeof ScsiCdbInquiry = 6"
  "sizeof ScsiCdbRead10 = 10" "sizeof ScsiCdbTestUnitReady = 6" "sizeof ScsiCdbReportLuns = 12" "sizeof ScsiLunReport = 16"
  "sizeof ScsiCdbReadCapacity16 = 16" "sizeof ScsiReadCapacity16Data = 32" "sizeof VirtioScsiCmdReq = 51" "sizeof VirtioScsiCmdResp = 108"
  by (simp_all add: host_records struct_size_def struct_bits_def bit_records)

text \<open>
  The page of block limits has its reserved words from byte 44 to byte 63, as the comments of the
  structure say; seven words from byte 12 on end before byte 40, so the structure has them, and its
  end, four bytes too early.
\<close>

lemma block_limits_short: "offset ScsiInquiryEvpdBl [Fld ''max_transfer''] = 8" "offset ScsiInquiryEvpdBl [Fld ''b12''] = 12"
  "offset ScsiInquiryEvpdBl [Fld ''b44''] = 40" "sizeof ScsiInquiryEvpdBl = 60"
  by (simp_all add: host_records)

text \<open>
  The two halves of \<open>fmt_msg\<close> in the sense data of a DASD. The shift binds tighter than the
  mask, so both macros take the low half. No code uses them.
\<close>

definition ECKD_SENSE24_GET_FMT :: "u8 \<Rightarrow> u8" where
  "ECKD_SENSE24_GET_FMT fmt_msg = fmt_msg AND drop_bit 4 0xf0"

definition ECKD_SENSE24_GET_MSG :: "u8 \<Rightarrow> u8" where
  "ECKD_SENSE24_GET_MSG fmt_msg = fmt_msg AND 0x0f"

lemma sense24_same: "ECKD_SENSE24_GET_FMT x = ECKD_SENSE24_GET_MSG x"
  by (simp add: ECKD_SENSE24_GET_FMT_def ECKD_SENSE24_GET_MSG_def)

section \<open>Members in storage\<close>

lemma mem_put_part:
  assumes "i + length ys + k < 2 ^ 64" "b = a + word_of_nat i"
  shows "mem_put a (mem_get m a i @ ys @ mem_get m (b + word_of_nat (length ys)) k) m = mem_put b ys m"
proof
  fix x
  have i: "unat (word_of_nat i :: u64) = i" using assms(1) by (simp add: unat_of_nat take_bit_nat_eq_self)
  have b: "x - b = (x - a) - word_of_nat i" by (simp add: assms(2))
  have u: "unat (x - b) = (if i \<le> unat (x - a) then unat (x - a) - i else unat (x - a) + 2 ^ 64 - i)"
    unfolding b unat_diff_wrap i ..
  have m: "m (a + word_of_nat (unat (x - a))) = m x" by simp
  have n: "m (a + (word_of_nat i + (word_of_nat (length ys) + word_of_nat (unat (x - a) - i - length ys)))) = m x" if l: "i + length ys \<le> unat (x - a)"
  proof -
    obtain d where d: "unat (x - a) = i + length ys + d" using le_Suc_ex [OF l] by blast
    have "word_of_nat i + (word_of_nat (length ys) + word_of_nat d) = (word_of_nat (i + length ys + d) :: u64)" by simp
    also have "\<dots> = x - a" unfolding d [symmetric] by simp
    finally show ?thesis by (simp add: d)
  qed
  show "mem_put a (mem_get m a i @ ys @ mem_get m (b + word_of_nat (length ys)) k) m x = mem_put b ys m x"
    using assms(1) m n unsigned_less [of "x - a", where ?'a = nat] u
    by (auto simp: mem_put_def nth_append assms(2) add.assoc)
qed

lemma put_whole_bytes:
  assumes "place fs f = Some (8 * i, 8 * n)" "i + n + k < 2 ^ 64" "b = a + word_of_nat i"
  obtains bs where "put_field fs f v (mem_get m a (i + n + k)) = Some bs" "length bs = i + n + k" "mem_put a bs m = mem_put b (nat_be n v) m"
proof -
  have "put_field fs f v (mem_get m a i @ mem_get m b n @ mem_get m (b + word_of_nat n) k) =
      Some (mem_get m a i @ nat_be n v @ mem_get m (b + word_of_nat n) k)"
    using put_bytes [of fs f "mem_get m a i" "mem_get m b n"] assms(1) by simp
  moreover have "mem_get m a (i + n + k) = mem_get m a i @ mem_get m b n @ mem_get m (b + word_of_nat n) k"
    using assms(3) by (simp add: mem_get_add add.assoc)
  moreover have "mem_put a (mem_get m a i @ nat_be n v @ mem_get m (b + word_of_nat n) k) m = mem_put b (nat_be n v) m"
    using mem_put_part [of i "nat_be n v" k b a m] assms(2, 3) by simp
  ultimately show ?thesis using that by fastforce
qed

lemma chain_bit:
  "word_of_nat (put_bits 6 1 (of_bool b) (unat f)) = (if b then f OR CCW0_CHAIN else f AND NOT CCW0_CHAIN)"
  "get_bits 6 1 (unat f) = of_bool (flag_on f CCW0_CHAIN)"
proof -
  have c: "CCW0_CHAIN = push_bit 6 1" by (simp add: CCW0_CHAIN_def)
  show "word_of_nat (put_bits 6 1 (of_bool b) (unat f)) = (if b then f OR CCW0_CHAIN else f AND NOT CCW0_CHAIN)"
    unfolding put_bits_bit c
  proof (rule bit_word_eqI)
    fix n
    assume "n < LENGTH(8)"
    then consider "n = 0" | "n = 1" | "n = 2" | "n = 3" | "n = 4" | "n = 5" | "n = 6" | "n = 7" by fastforce
    then show "bit (word_of_nat (push_bit (6 + 1) (drop_bit (6 + 1) (unat f)) OR push_bit 6 (take_bit 1 (of_bool b)) OR take_bit 6 (unat f)) :: u8) n =
        bit (if b then f OR push_bit 6 1 else f AND NOT (push_bit 6 1)) n"
      by cases (auto simp: bit_simps)
  qed
  show "get_bits 6 1 (unat f) = of_bool (flag_on f CCW0_CHAIN)"
  proof -
    have "CCW0_CHAIN = 2 ^ 6" by (simp add: CCW0_CHAIN_def)
    then have "flag_on f CCW0_CHAIN \<longleftrightarrow> bit f 6" using and_exp_eq_0_iff_not_bit [of f 6] by auto
    moreover have "get_bits 6 1 (unat f) = of_bool (bit (unat f) 6)"
      by (simp add: get_bits_def bit_iff_odd mod_2_eq_odd)
    ultimately show ?thesis by (simp add: bit_simps)
  qed
qed

lemma ccw0_places [simp]: "place Ccw0 ''cmd_code'' = Some (0, 8)" "place Ccw0 ''cda'' = Some (8, 24)" "place Ccw0 ''chain'' = Some (33, 1)"
  "place Ccw0 ''count'' = Some (48, 16)"
  by (simp_all add: Ccw0_def)

lemma ccw0_loads:
  "get_field Ccw0 ''cmd_code'' (mem_get m a 8) = Some (unat (ccw0_cmd_code m a))"
  "get_field Ccw0 ''cda'' (mem_get m a 8) = Some (unat (ccw0_cda m a))"
  "get_field Ccw0 ''chain'' (mem_get m a 8) = Some (of_bool (ccw0_chain m a))"
proof -
  have "mem_get m a (0 + 1 + 7) = [] @ [m a] @ mem_get m (a + 1) 7" "mem_get m a (1 + 3 + 4) = [m a] @ mem_get m (a + 1) 3 @ mem_get m (a + 4) 4"
      "mem_get m a (4 + 1 + 3) = mem_get m a 4 @ m (a + 4) # mem_get m (a + 5) 3"
    by (simp_all only: mem_get_add) (simp_all add: mem_get_Suc mem_get_0 add.assoc)
  then have s: "mem_get m a 8 = [] @ [m a] @ mem_get m (a + 1) 7" "mem_get m a 8 = [m a] @ mem_get m (a + 1) 3 @ mem_get m (a + 4) 4"
      "mem_get m a 8 = mem_get m a 4 @ m (a + 4) # mem_get m (a + 5) 3" by simp_all
  show "get_field Ccw0 ''cmd_code'' (mem_get m a 8) = Some (unat (ccw0_cmd_code m a))"
    unfolding s(1) by (subst get_bytes) (simp_all add: ccw0_cmd_code_def)
  have "be_nat (mem_get m (a + 1) 3) < 2 ^ 24" using be_nat_bits [of "mem_get m (a + 1) 3"] by simp
  then show "get_field Ccw0 ''cda'' (mem_get m a 8) = Some (unat (ccw0_cda m a))"
    unfolding s(2) by (subst get_bytes) (simp_all add: ccw0_cda_def be_def unat_of_nat take_bit_nat_eq_self del: mem_get_numeral)
  show "get_field Ccw0 ''chain'' (mem_get m a 8) = Some (of_bool (ccw0_chain m a))"
    unfolding s(3) ccw0_chain_def chain_bit(2) [symmetric] using get_in_byte [of Ccw0 "''chain''" "mem_get m a 4" 1 1]
    by (simp add: numeral_eq_Suc del: One_nat_def)
qed

text \<open>The subchannel identification word: the model's number is the bit fields in their order.\<close>

lemma bit_sch_id: "bit (sch_id i) n \<longleftrightarrow> 8 \<le> n \<and> bit (cssid i) (n - 8) \<or> n = 3 \<and> sch_m i \<or> 1 \<le> n \<and> bit (ssid i) (n - 1) \<or> n = 0 \<and> sch_one i"
  unfolding sch_id_def bit_or_iff bit_push_bit_iff by (auto simp: bit_simps dest: bit_imp_le_length)

lemma get_bits_1: "get_bits lo 1 k = of_bool (bit k lo)"
  by (simp add: get_bits_def bit_iff_odd mod_2_eq_odd)

lemma schid_bits:
  "get_bits 8 8 (unat (sch_id i)) = unat (cssid i)" "get_bits 4 4 (unat (sch_id i)) = 0"
  "get_bits 1 2 (unat (sch_id i)) = unat (ssid i)"
  "get_bits 3 1 (unat (sch_id i)) = of_bool (sch_m i)" "get_bits 0 1 (unat (sch_id i)) = of_bool (sch_one i)"
proof -
  note b = bit_unsigned_iff bit_sch_id
  show "get_bits 8 8 (unat (sch_id i)) = unat (cssid i)" "get_bits 4 4 (unat (sch_id i)) = 0" "get_bits 1 2 (unat (sch_id i)) = unat (ssid i)"
    unfolding get_bits_bit by (rule bit_eqI; auto simp: bit_take_bit_iff bit_drop_bit_eq b bit_simps dest: bit_imp_le_length)+
  show "get_bits 3 1 (unat (sch_id i)) = of_bool (sch_m i)" "get_bits 0 1 (unat (sch_id i)) = of_bool (sch_one i)"
    unfolding get_bits_1 b by (auto dest: bit_imp_le_length)
qed

lemma schid_fields:
  "get_field SubChannelId f (to_be 2 (sch_id i) @ to_be 2 (sch_no i)) =
     map_of [(''cssid'', unat (cssid i)), (''reserved'', 0), (''m'', of_bool (sch_m i)), (''ssid'', unat (ssid i)),
       (''one'', of_bool (sch_one i)), (''sch_no'', unat (sch_no i))] f"
proof -
  have n: "be_nat (to_be 2 w) = unat w" for w :: u16
    using unsigned_less [of w, where ?'a = nat] by (simp add: to_be_def be_nat_nat_be del: nat_be_numeral)
  have h: "get_bits (16 + lo) w (unat (sch_id i) * 65536 + unat (sch_no i)) = get_bits lo w (unat (sch_id i))" for lo w
    using get_bits_high [of "unat (sch_no i)" 16 lo w "unat (sch_id i)"] unsigned_less [of "sch_no i", where ?'a = nat] by simp
  have l: "get_bits 0 16 (unat (sch_id i) * 65536 + unat (sch_no i)) = unat (sch_no i)"
    using unsigned_less [of "sch_no i", where ?'a = nat] by (simp add: get_bits_def)
  show ?thesis
    using h [of 8 8] h [of 4 4] h [of 3 1] h [of 1 2] h [of 0 1] l schid_bits [of i]
    by (simp add: get_field_def be_nat_append_bits n SubChannelId_def)
qed

section \<open>Properties\<close>

text \<open>
  C40: bit fields are modelled as C has them: reading a member of a format-0 channel command word
  takes its bits, and storing one is the same as storing the eight bytes of the word with the
  bits of that member replaced, cut to its width, and no other; the number the model has for a
  subchannel is the word of its members.
\<close>

theorem channel_bit_fields:
  "get_field Ccw0 ''cmd_code'' (mem_get m a 8) = Some (unat (ccw0_cmd_code m a)) \<and>
   get_field Ccw0 ''cda'' (mem_get m a 8) = Some (unat (ccw0_cda m a)) \<and>
   get_field Ccw0 ''chain'' (mem_get m a 8) = Some (of_bool (ccw0_chain m a)) \<and>
   (\<exists>bs. put_field Ccw0 ''cmd_code'' (unat c) (mem_get (mem s) a 8) = Some bs \<and>
      set_cmd_code a c s = Some (Ret (), s\<lparr>mem := mem_put a bs (mem s)\<rparr>)) \<and>
   (\<exists>bs. put_field Ccw0 ''cda'' (unat x) (mem_get (mem s) a 8) = Some bs \<and>
      set_cda a x s = Some (Ret (), s\<lparr>mem := mem_put a bs (mem s)\<rparr>)) \<and>
   (\<exists>bs. put_field Ccw0 ''chain'' (of_bool b) (mem_get (mem s) a 8) = Some bs \<and>
      set_chain a b s = Some (Ret (), s\<lparr>mem := mem_put a bs (mem s)\<rparr>)) \<and>
   (\<exists>bs. put_field Ccw0 ''count'' (unat n) (mem_get (mem s) a 8) = Some bs \<and>
      set_count a n s = Some (Ret (), s\<lparr>mem := mem_put a bs (mem s)\<rparr>)) \<and>
   get_field SubChannelId f (to_be 2 (sch_id i) @ to_be 2 (sch_no i)) =
     map_of [(''cssid'', unat (cssid i)), (''reserved'', 0), (''m'', of_bool (sch_m i)), (''ssid'', unat (ssid i)),
       (''one'', of_bool (sch_one i)), (''sch_no'', unat (sch_no i))] f"
proof (intro conjI ccw0_loads schid_fields)
  show "\<exists>bs. put_field Ccw0 ''cmd_code'' (unat c) (mem_get (mem s) a 8) = Some bs \<and>
      set_cmd_code a c s = Some (Ret (), s\<lparr>mem := mem_put a bs (mem s)\<rparr>)"
    by (rule put_whole_bytes [of Ccw0 "''cmd_code''" 0 1 7 a a "unat c" "mem s"]) (auto simp: set_cmd_code_def)
  show "\<exists>bs. put_field Ccw0 ''cda'' (unat x) (mem_get (mem s) a 8) = Some bs \<and>
      set_cda a x s = Some (Ret (), s\<lparr>mem := mem_put a bs (mem s)\<rparr>)"
    by (rule put_whole_bytes [of Ccw0 "''cda''" 1 3 4 "a + 1" a "unat x" "mem s"]) (auto simp: set_cda_def to_be_def)
  show "\<exists>bs. put_field Ccw0 ''count'' (unat n) (mem_get (mem s) a 8) = Some bs \<and>
      set_count a n s = Some (Ret (), s\<lparr>mem := mem_put a bs (mem s)\<rparr>)"
    by (rule put_whole_bytes [of Ccw0 "''count''" 6 2 0 "a + 6" a "unat n" "mem s"]) (auto simp: set_count_def to_be_def)
  let ?f = "[if b then mem s (a + 4) OR CCW0_CHAIN else mem s (a + 4) AND NOT CCW0_CHAIN]"
  let ?bs = "mem_get (mem s) a 4 @ ?f @ mem_get (mem s) (a + 4 + word_of_nat (length ?f)) 3"
  have "mem_get (mem s) a (4 + 1 + 3) = mem_get (mem s) a 4 @ mem s (a + 4) # mem_get (mem s) (a + 5) 3"
    by (simp only: mem_get_add) (simp add: mem_get_Suc mem_get_0 add.assoc)
  then have "mem_get (mem s) a 8 = mem_get (mem s) a 4 @ mem s (a + 4) # mem_get (mem s) (a + 5) 3" by simp
  moreover have "put_field Ccw0 ''chain'' (of_bool b) (mem_get (mem s) a 4 @ mem s (a + 4) # mem_get (mem s) (a + 5) 3) =
      Some (mem_get (mem s) a 4 @ word_of_nat (put_bits (8 - (1 + 1)) 1 (of_bool b) (unat (mem s (a + 4)))) # mem_get (mem s) (a + 5) 3)"
    by (rule put_in_byte) simp_all
  moreover have "(8 :: nat) - (1 + 1) = 6" by simp
  ultimately have "put_field Ccw0 ''chain'' (of_bool b) (mem_get (mem s) a 8) = Some ?bs"
    by (simp only: chain_bit) (simp add: add.assoc)
  moreover have "set_chain a b s = Some (Ret (), s\<lparr>mem := mem_put a ?bs (mem s)\<rparr>)"
    using mem_put_part [of 4 ?f 3 "a + 4" a "mem s"] by (simp add: set_chain_def mem_get_Suc mem_get_0)
  ultimately show "\<exists>bs. put_field Ccw0 ''chain'' (of_bool b) (mem_get (mem s) a 8) = Some bs \<and>
      set_chain a b s = Some (Ret (), s\<lparr>mem := mem_put a bs (mem s)\<rparr>)" by blast
qed


end
