(* ===== verification/FwCfg.thy ===== *)
theory FwCfg
  imports Machine "HOL-Library.Monad_Syntax"
begin

text \<open>
  What the option ROMs for PC guests share: the processor's port instructions and byte swaps
  (\<open>optrom.h\<close>) and the two ways to read an item of QEMU's fw_cfg device
  (\<open>optrom_fw_cfg.h\<close>). \<open>fw_cfg_host\<close> is the documented contract of that device; every
  function of the ROMs is proved against it.

  The ROMs run in the first 4 GiB of a PC's storage, which is little endian. The device is
  reached by ports; what it may change while the ROM waits is \<open>pause\<close>.
\<close>

section \<open>The machine\<close>

definition le :: "u8 list \<Rightarrow> 'a::len word" where
  "le bs = be (rev bs)"

definition to_le :: "nat \<Rightarrow> 'a::len word \<Rightarrow> u8 list" where
  "to_le n w = rev (to_be n w)"

lemma length_to_le [simp]: "length (to_le n w) = n"
  by (simp add: to_le_def)

lemma le_to_le: "LENGTH('a::len) \<le> n * 8 \<Longrightarrow> le (to_le n (w :: 'a word)) = w"
  by (simp add: le_def to_le_def be_to_be)

text \<open>
  \<open>struct fw_cfg_dma_access\<close>, the one local variable the device looks at: its fields hold
  big-endian numbers. The other local variables of the ROMs are read and written in place.
\<close>

record dma_access =
  dma_control :: u32
  dma_length :: u32
  dma_address :: u64

datatype rom_var = SetupAddr | InitrdAddr | KernelAddr | CmdlineAddr
  | SetupSize | InitrdSize | KernelSize | CmdlineSize | KernelEntry | CfgVersion

record 'd pcs =
  ram :: "u64 \<Rightarrow> u8"
  access :: dma_access
  seg_es :: u16
  pdev :: 'd

text \<open>
  The processor's instructions, the addresses of the variables, and the constants of
  \<open>qemu_fw_cfg.h\<close> and \<open>start_info.h\<close>, which are not part of the repository.
  \<open>int15 ax\<close> is the BIOS call with \<open>bx = cx = dx = 0\<close>: \<open>ax\<close>, \<open>bx\<close>, \<open>cx\<close>, \<open>dx\<close>.
\<close>

record 'd pc =
  outw_port :: "u16 \<Rightarrow> u16 \<Rightarrow> 'd \<Rightarrow> 'd"
  outl_port :: "u32 \<Rightarrow> u16 \<Rightarrow> 'd pcs \<Rightarrow> 'd pcs"
  inb_port :: "u16 \<Rightarrow> 'd \<Rightarrow> u8 \<times> 'd"
  pause :: "'d pcs \<Rightarrow> 'd pcs"
  int15 :: "u16 \<Rightarrow> 'd \<Rightarrow> (u16 \<times> u16 \<times> u16 \<times> u16) \<times> 'd"
  var_at :: "rom_var \<Rightarrow> u32"
  access_at :: u32
  cmdline_buffer :: u32
  ctl_error :: u32
  ctl_select :: u32
  ctl_read :: u32
  version_dma :: u32
  cfg_id :: u16
  hvm_magic :: u32

section \<open>optrom.h\<close>

definition bswapl :: "u32 \<Rightarrow> u32" where
  "bswapl x = be (rev (to_be 4 x))"

lemma unat_ucast_32 [simp]: "unat (ucast (x :: u32) :: u64) = unat x"
  using unsigned_less [of x, where ?'a = nat] by (simp add: unsigned_ucast_eq take_bit_nat_eq_self)

text \<open>\<open>bswap64\<close> of the register pair: swap both halves, then exchange them.\<close>

definition bswapq :: "u64 \<Rightarrow> u64" where
  "bswapq x = push_bit 32 (ucast (bswapl (ucast x))) OR ucast (bswapl (ucast (drop_bit 32 x)))"

fun insb :: "'d pc \<Rightarrow> u16 \<Rightarrow> u32 \<Rightarrow> nat \<Rightarrow> 'd pcs \<Rightarrow> 'd pcs" where
  "insb pc port buf 0 s = s"
| "insb pc port buf (Suc n) s =
     (case inb_port pc port (pdev s) of
        (v, d) \<Rightarrow> insb pc port (buf + 1) n (s\<lparr>ram := (ram s)(ucast buf := v), pdev := d\<rparr>))"

section \<open>optrom\_fw\_cfg.h\<close>

definition BIOS_CFG_IOPORT_CFG :: u16 where "BIOS_CFG_IOPORT_CFG = 0x510"
definition BIOS_CFG_IOPORT_DATA :: u16 where "BIOS_CFG_IOPORT_DATA = 0x511"
definition BIOS_CFG_DMA_ADDR_LOW :: u16 where "BIOS_CFG_DMA_ADDR_LOW = 0x518"

definition bios_cfg_select :: "'d pc \<Rightarrow> u16 \<Rightarrow> 'd pcs \<Rightarrow> 'd pcs" where
  "bios_cfg_select pc key s = s\<lparr>pdev := outw_port pc key BIOS_CFG_IOPORT_CFG (pdev s)\<rparr>"

definition bios_cfg_read_entry_io :: "'d pc \<Rightarrow> u32 \<Rightarrow> u16 \<Rightarrow> u32 \<Rightarrow> 'd pcs \<Rightarrow> 'd pcs" where
  "bios_cfg_read_entry_io pc buf entry len s =
     insb pc BIOS_CFG_IOPORT_DATA buf (unat len) (bios_cfg_select pc entry s)"

text \<open>The wait for the device; \<open>None\<close> when the device never finishes.\<close>

definition dma_busy :: "'d pc \<Rightarrow> 'd pcs \<Rightarrow> bool" where
  "dma_busy pc s \<longleftrightarrow> bswapl (dma_control (access s)) AND NOT (ctl_error pc) \<noteq> 0"

partial_function (option) dma_wait :: "'d pc \<Rightarrow> 'd pcs \<Rightarrow> 'd pcs option" where
  "dma_wait pc s = (if dma_busy pc s then dma_wait pc (pause pc s) else Some s)"

definition dma_command :: "'d pc \<Rightarrow> u16 \<Rightarrow> u32" where
  "dma_command pc entry = push_bit 16 (ucast entry) OR ctl_select pc OR ctl_read pc"

definition bios_cfg_read_entry_dma :: "'d pc \<Rightarrow> u32 \<Rightarrow> u16 \<Rightarrow> u32 \<Rightarrow> 'd pcs \<Rightarrow> 'd pcs option" where
  "bios_cfg_read_entry_dma pc buf entry len s =
     dma_wait pc (outl_port pc (bswapl (access_at pc)) BIOS_CFG_DMA_ADDR_LOW
       (s\<lparr>access := \<lparr>dma_control = bswapl (dma_command pc entry), dma_length = bswapl len, dma_address = bswapq (ucast buf)\<rparr>\<rparr>))"

definition bios_cfg_read_entry :: "'d pc \<Rightarrow> u32 \<Rightarrow> u16 \<Rightarrow> u32 \<Rightarrow> u32 \<Rightarrow> 'd pcs \<Rightarrow> 'd pcs option" where
  "bios_cfg_read_entry pc buf entry len version s =
     (if version AND version_dma pc \<noteq> 0 then bios_cfg_read_entry_dma pc buf entry len s
      else Some (bios_cfg_read_entry_io pc buf entry len s))"

text \<open>A variable of the ROM.\<close>

definition get_var :: "'d pc \<Rightarrow> rom_var \<Rightarrow> 'd pcs \<Rightarrow> u32" where
  "get_var pc v s = le (mem_get (ram s) (ucast (var_at pc v)) 4)"

definition set_var :: "'d pc \<Rightarrow> rom_var \<Rightarrow> u32 \<Rightarrow> 'd pcs \<Rightarrow> 'd pcs" where
  "set_var pc v x s = s\<lparr>ram := mem_put (ucast (var_at pc v)) (to_le 4 x) (ram s)\<rparr>"

definition bios_cfg_version :: "'d pc \<Rightarrow> 'd pcs \<Rightarrow> u32 \<times> 'd pcs" where
  "bios_cfg_version pc s =
     (let t = bios_cfg_read_entry_io pc (var_at pc CfgVersion) (cfg_id pc) 4 s in (get_var pc CfgVersion t, t))"

section \<open>The device\<close>

lemma bswapl_bswapl [simp]: "bswapl (bswapl x) = x"
  by (simp add: bswapl_def to_be_be [of "rev (to_be 4 x)" , where ?'a = 32, simplified])

lemma bswapq_bswapq [simp]: "bswapq (bswapq x) = x"
proof -
  have "ucast (drop_bit 32 (push_bit 32 (ucast a :: u64) OR ucast b)) = (a :: u32)"
    "ucast (push_bit 32 (ucast a :: u64) OR ucast b) = (b :: u32)" for a b :: u32
    by (rule bit_word_eqI; auto simp: bit_simps dest: bit_imp_le_length)+
  then have "bswapq (bswapq x) = push_bit 32 (ucast (ucast (drop_bit 32 x) :: u32)) OR ucast (ucast x :: u32)"
    by (simp add: bswapq_def)
  also have "\<dots> = x" by (rule bit_word_eqI) (auto simp: bit_simps not_less dest: bit_imp_le_length)
  finally show ?thesis .
qed

definition blob :: "(u16 \<Rightarrow> nat \<Rightarrow> u8) \<Rightarrow> u16 \<Rightarrow> nat \<Rightarrow> u8 list" where
  "blob item key n = map (item key) [0..<n]"

lemma length_blob [simp]: "length (blob item key n) = n"
  by (simp add: blob_def)

text \<open>
  The documented protocol of fw_cfg. An item is a stream of bytes. Through the ports: writing
  a key selects the item, \<open>sel\<close> the key and the number of bytes read; each input yields the
  next byte. By DMA: a command is served after some time, during which its control field is
  not zero; then the bytes are in place and the field is zero. \<open>regs\<close> are what the device
  leaves alone.
\<close>

locale fw_cfg_host =
  fixes pc :: "'d pc" and item :: "u16 \<Rightarrow> nat \<Rightarrow> u8" and sel :: "'d \<Rightarrow> u16 \<times> nat"
  assumes sel_key: "sel (outw_port pc key BIOS_CFG_IOPORT_CFG d) = (key, 0)"
    and sel_byte: "sel d = (key, i) \<Longrightarrow> fst (inb_port pc BIOS_CFG_IOPORT_DATA d) = item key i"
    and sel_next: "sel d = (key, i) \<Longrightarrow> sel (snd (inb_port pc BIOS_CFG_IOPORT_DATA d)) = (key, i + 1)"
    and dma_served: "bswapl (dma_control (access s)) = dma_command pc key \<Longrightarrow>
      \<exists>k t. (pause pc ^^ k) (outl_port pc (bswapl (access_at pc)) BIOS_CFG_DMA_ADDR_LOW s) = t \<and>
        (\<forall>j<k. dma_busy pc ((pause pc ^^ j) (outl_port pc (bswapl (access_at pc)) BIOS_CFG_DMA_ADDR_LOW s))) \<and>
        dma_control (access t) = 0 \<and> seg_es t = seg_es s \<and>
        ram t = mem_put (bswapq (dma_address (access s))) (blob item key (unat (bswapl (dma_length (access s))))) (ram s)"
begin

lemma dma_wait_reaches:
  "(\<forall>j<k. dma_busy pc ((pause pc ^^ j) s)) \<Longrightarrow> \<not> dma_busy pc ((pause pc ^^ k) s) \<Longrightarrow> dma_wait pc s = Some ((pause pc ^^ k) s)"
proof (induction k arbitrary: s)
  case 0
  then show ?case by (simp add: dma_wait.simps)
next
  case (Suc k)
  have "dma_busy pc s" using Suc.prems(1) by (metis funpow_0 zero_less_Suc)
  moreover have "dma_wait pc (pause pc s) = Some ((pause pc ^^ k) (pause pc s))"
  proof (rule Suc.IH)
    show "\<forall>j<k. dma_busy pc ((pause pc ^^ j) (pause pc s))"
      using Suc.prems(1) by (metis Suc_less_eq funpow_Suc_right o_apply)
    show "\<not> dma_busy pc ((pause pc ^^ k) (pause pc s))"
      using Suc.prems(2) by (simp add: funpow_swap1)
  qed
  ultimately show ?case by (subst dma_wait.simps) (simp add: funpow_swap1)
qed

lemma dma_reads:
  obtains t where "bios_cfg_read_entry_dma pc buf key len s = Some t" "seg_es t = seg_es s"
    "ram t = mem_put (ucast buf) (blob item key (unat len)) (ram s)"
proof -
  let ?s = "s\<lparr>access := \<lparr>dma_control = bswapl (dma_command pc key), dma_length = bswapl len, dma_address = bswapq (ucast buf)\<rparr>\<rparr>"
  let ?t = "outl_port pc (bswapl (access_at pc)) BIOS_CFG_DMA_ADDR_LOW ?s"
  obtain k t where t: "(pause pc ^^ k) ?t = t" "\<forall>j<k. dma_busy pc ((pause pc ^^ j) ?t)" "dma_control (access t) = 0"
      "seg_es t = seg_es ?s" "ram t = mem_put (ucast buf) (blob item key (unat len)) (ram ?s)"
    using dma_served [of ?s key] by auto
  have "bswapl 0 = 0" by (simp add: bswapl_def to_be_zero)
  then have "\<not> dma_busy pc t" using t(3) by (simp add: dma_busy_def)
  then have "dma_wait pc ?t = Some t" using dma_wait_reaches [OF t(2)] t(1) by simp
  then show ?thesis using that t(4, 5) by (simp add: bios_cfg_read_entry_dma_def)
qed

lemma insb_reads:
  "sel (pdev s) = (key, i) \<Longrightarrow> unat buf + n \<le> 2 ^ 32 \<Longrightarrow> ram (insb pc BIOS_CFG_IOPORT_DATA buf n s) =
     mem_put (ucast buf) (map (item key) [i..<i + n]) (ram s) \<and> seg_es (insb pc BIOS_CFG_IOPORT_DATA buf n s) = seg_es s"
proof (induction n arbitrary: s i buf)
  case 0
  then show ?case by (simp add: mem_put_def)
next
  case (Suc n)
  let ?d = "snd (inb_port pc BIOS_CFG_IOPORT_DATA (pdev s))"
  let ?s = "s\<lparr>ram := (ram s)(ucast buf := item key i), pdev := ?d\<rparr>"
  have e: "insb pc BIOS_CFG_IOPORT_DATA buf (Suc n) s = insb pc BIOS_CFG_IOPORT_DATA (buf + 1) n ?s"
    using sel_byte [OF Suc.prems(1)] by (auto split: prod.split)
  show ?case
  proof (cases "n = 0")
    case True
    then show ?thesis unfolding e by (simp add: mem_put_single)
  next
    case False
    then have b: "unat (buf + 1) = unat buf + 1" using Suc.prems(2) by (simp add: unat_word_ariths)
    then have u: "(ucast (buf + 1) :: u64) = ucast buf + word_of_nat (length [item key i])"
      using Suc.prems(2) unat_add_small [of "ucast buf" 1] by (simp add: word_unat_eq_iff)
    have pr: "sel (pdev ?s) = (key, i + 1)" "unat (buf + 1) + n \<le> 2 ^ 32"
      using sel_next [OF Suc.prems(1)] Suc.prems(2) b by simp_all
    have "ram (insb pc BIOS_CFG_IOPORT_DATA (buf + 1) n ?s) = mem_put (ucast (buf + 1)) (map (item key) [i + 1..<i + 1 + n]) (ram ?s)"
      "seg_es (insb pc BIOS_CFG_IOPORT_DATA (buf + 1) n ?s) = seg_es ?s"
      by (rule Suc.IH [OF pr, THEN conjunct1], rule Suc.IH [OF pr, THEN conjunct2])
    moreover have "ram ?s = mem_put (ucast buf) [item key i] (ram s)" by (simp add: mem_put_single)
    moreover have "[item key i] @ map (item key) [i + 1..<i + 1 + n] = map (item key) [i..<i + Suc n]"
      by (simp add: upt_conv_Cons del: upt_Suc)
    ultimately show ?thesis
      unfolding e u using mem_put_append [of "[item key i]" "map (item key) [i + 1..<i + 1 + n]"] Suc.prems(2) by simp
  qed
qed

lemma io_reads:
  assumes "unat buf + unat len \<le> 2 ^ 32"
  shows "ram (bios_cfg_read_entry_io pc buf key len s) = mem_put (ucast buf) (blob item key (unat len)) (ram s)"
    "seg_es (bios_cfg_read_entry_io pc buf key len s) = seg_es s"
  using insb_reads [of "bios_cfg_select pc key s" key 0 buf "unat len"] assms
  by (simp_all add: bios_cfg_read_entry_io_def bios_cfg_select_def sel_key blob_def)

lemma entry_reads:
  assumes "unat buf + unat len \<le> 2 ^ 32"
  obtains t where "bios_cfg_read_entry pc buf key len version s = Some t" "seg_es t = seg_es s"
    "ram t = mem_put (ucast buf) (blob item key (unat len)) (ram s)"
proof (cases "version AND version_dma pc = 0")
  case True
  then show ?thesis using that io_reads [OF assms] by (simp add: bios_cfg_read_entry_def)
next
  case False
  then show ?thesis using that dma_reads [of buf key len s] by (auto simp: bios_cfg_read_entry_def)
qed

end

section \<open>Frames\<close>

text \<open>
  The proofs follow what a ROM makes of a memory \<open>m\<close>: \<open>holds pc m f s\<close> says that the storage of
  \<open>s\<close> is \<open>m\<close> but for the variables, and that the variables have the values \<open>f\<close>. A block that
  does not meet the variables is \<open>clear\<close>.
\<close>

definition clear :: "'d pc \<Rightarrow> u64 \<Rightarrow> nat \<Rightarrow> bool" where
  "clear pc a n \<longleftrightarrow> unat a + n \<le> 2 ^ 64 \<and> (\<forall>v. unat (var_at pc v) + 4 \<le> unat a \<or> unat a + n \<le> unat (var_at pc v))"

definition vars_apart :: "'d pc \<Rightarrow> bool" where
  "vars_apart pc \<longleftrightarrow> (\<forall>v. unat (var_at pc v) + 4 \<le> 2 ^ 32) \<and>
     (\<forall>v w. v \<noteq> w \<longrightarrow> unat (var_at pc v) + 4 \<le> unat (var_at pc w) \<or> unat (var_at pc w) + 4 \<le> unat (var_at pc v))"

definition in_vars :: "'d pc \<Rightarrow> u64 \<Rightarrow> bool" where
  "in_vars pc x \<longleftrightarrow> (\<exists>v. unat (var_at pc v) \<le> unat x \<and> unat x < unat (var_at pc v) + 4)"

definition holds :: "'d pc \<Rightarrow> (u64 \<Rightarrow> u8) \<Rightarrow> (rom_var \<rightharpoonup> u32) \<Rightarrow> 'd pcs \<Rightarrow> bool" where
  "holds pc m f s \<longleftrightarrow> (\<forall>x. \<not> in_vars pc x \<longrightarrow> ram s x = m x) \<and> (\<forall>v x. f v = Some x \<longrightarrow> get_var pc v s = x)"

lemma holdsI: "holds pc (ram s) Map.empty s"
  by (simp add: holds_def)

lemma holds_var: "holds pc m f s \<Longrightarrow> f v = Some x \<Longrightarrow> get_var pc v s = x"
  by (simp add: holds_def)

lemma holds_mem: "holds pc m f s \<Longrightarrow> \<not> in_vars pc x \<Longrightarrow> ram s x = m x"
  by (simp add: holds_def)

lemma holds_cong: "ram t = ram s \<Longrightarrow> holds pc m f t \<longleftrightarrow> holds pc m f s"
  by (simp add: holds_def get_var_def)

lemma clear_not_in_vars:
  assumes "clear pc a n" "unat a \<le> unat x" "unat x < unat a + n"
  shows "\<not> in_vars pc x"
proof
  assume "in_vars pc x"
  then obtain v where "unat (var_at pc v) \<le> unat x" "unat x < unat (var_at pc v) + 4" by (auto simp: in_vars_def)
  moreover have "unat (var_at pc v) + 4 \<le> unat a \<or> unat a + n \<le> unat (var_at pc v)"
    using assms(1) by (simp add: clear_def)
  ultimately show False using assms(2, 3) by linarith
qed

lemma holds_get:
  assumes "holds pc m f s" "clear pc a n"
  shows "mem_get (ram s) a n = mem_get m a n"
proof (rule nth_equalityI)
  fix i
  assume "i < length (mem_get (ram s) a n)"
  then have i: "i < n" by simp
  then have "unat (a + word_of_nat i) = unat a + i" using assms(2) by (intro unat_add_small) (simp add: clear_def)
  with i have "\<not> in_vars pc (a + word_of_nat i)" by (intro clear_not_in_vars [OF assms(2)]) simp_all
  then show "mem_get (ram s) a n ! i = mem_get m a n ! i" using i assms(1) by (simp add: holds_mem)
qed simp

lemma holds_put:
  assumes "holds pc m f s" "vars_apart pc" "clear pc a (length bs)" "ram t = mem_put a bs (ram s)"
  shows "holds pc (mem_put a bs m) f t"
  unfolding holds_def
proof (intro conjI allI impI)
  fix x
  assume "\<not> in_vars pc x"
  then show "ram t x = mem_put a bs m x" using assms(1, 4) by (simp add: mem_put_def holds_mem)
next
  fix v x
  assume "f v = Some x"
  moreover have "mem_get (ram t) (ucast (var_at pc v)) 4 = mem_get (ram s) (ucast (var_at pc v)) 4"
    unfolding assms(4) using assms(2, 3) by (intro mem_get_put_disjoint) (auto simp: clear_def vars_apart_def intro: order_trans)
  ultimately show "get_var pc v t = x" using assms(1) by (simp add: get_var_def holds_def)
qed

lemma holds_set:
  assumes "holds pc m f s" "vars_apart pc" "length bs = 4" "ram t = mem_put (ucast (var_at pc v)) bs (ram s)"
  shows "holds pc m (f(v \<mapsto> le bs)) t"
  unfolding holds_def
proof (intro conjI allI impI)
  fix x
  have l: "unat (var_at pc v) + 4 \<le> 2 ^ 64" using assms(2) by (auto simp: vars_apart_def intro: order_trans)
  assume "\<not> in_vars pc x"
  then have "\<not> (unat (var_at pc v) \<le> unat x \<and> unat x < unat (var_at pc v) + 4)" by (auto simp: in_vars_def)
  then have "ram t x = ram s x" using assms(3, 4) l by (auto simp: mem_put_at)
  then show "ram t x = m x" using assms(1) \<open>\<not> in_vars pc x\<close> by (simp add: holds_mem)
next
  fix w x
  assume w: "(f(v \<mapsto> le bs)) w = Some x"
  show "get_var pc w t = x"
  proof (cases "w = v")
    case True
    then show ?thesis using w assms(3, 4) mem_get_put_same [of bs "ucast (var_at pc v)" "ram s"] by (simp add: get_var_def)
  next
    case False
    have "mem_get (ram t) (ucast (var_at pc w)) 4 = mem_get (ram s) (ucast (var_at pc w)) 4"
      unfolding assms(4) using assms(2, 3) False
      by (intro mem_get_put_disjoint) (auto simp: vars_apart_def intro: order_trans)
    then show ?thesis using False w assms(1) by (simp add: get_var_def holds_def)
  qed
qed

lemma holds_set_var: "holds pc m f s \<Longrightarrow> vars_apart pc \<Longrightarrow> holds pc m (f(v \<mapsto> x)) (set_var pc v x s)"
  using holds_set [of pc m f s "to_le 4 x" _ v] by (simp add: set_var_def le_to_le)

context fw_cfg_host begin

lemma dma_sets:
  assumes "holds pc m f s" "vars_apart pc"
  obtains t where "bios_cfg_read_entry_dma pc (var_at pc v) key 4 s = Some t"
    "holds pc m (f(v \<mapsto> le (blob item key 4))) t" "seg_es t = seg_es s"
proof -
  obtain t where t: "bios_cfg_read_entry_dma pc (var_at pc v) key 4 s = Some t" "seg_es t = seg_es s"
    "ram t = mem_put (ucast (var_at pc v)) (blob item key 4) (ram s)"
    using dma_reads [of "var_at pc v" key 4 s] by auto
  show ?thesis using that t(1, 2) holds_set [OF assms _ t(3)] by simp
qed

lemma dma_puts:
  assumes "holds pc m f s" "vars_apart pc" "clear pc (ucast a) (unat n)"
  obtains t where "bios_cfg_read_entry_dma pc a key n s = Some t"
    "holds pc (mem_put (ucast a) (blob item key (unat n)) m) f t" "seg_es t = seg_es s"
proof -
  obtain t where t: "bios_cfg_read_entry_dma pc a key n s = Some t" "seg_es t = seg_es s"
    "ram t = mem_put (ucast a) (blob item key (unat n)) (ram s)"
    using dma_reads [of a key n s] by auto
  show ?thesis using that t(1, 2) holds_put [OF assms(1, 2) _ t(3)] assms(3) by simp
qed

lemma entry_sets:
  assumes "holds pc m f s" "vars_apart pc"
  obtains t where "bios_cfg_read_entry pc (var_at pc v) key 4 version s = Some t" "holds pc m (f(v \<mapsto> le (blob item key 4))) t"
proof -
  have "unat (var_at pc v) + unat (4 :: u32) \<le> 2 ^ 32" using assms(2) by (simp add: vars_apart_def)
  then obtain t where t: "bios_cfg_read_entry pc (var_at pc v) key 4 version s = Some t"
    "ram t = mem_put (ucast (var_at pc v)) (blob item key 4) (ram s)"
    using entry_reads [of "var_at pc v" 4 key version s] by auto
  show ?thesis using that t(1) holds_set [OF assms _ t(2)] by simp
qed

lemma entry_puts:
  assumes "holds pc m f s" "vars_apart pc" "clear pc (ucast a) (unat n)" "unat a + unat n \<le> 2 ^ 32"
  obtains t where "bios_cfg_read_entry pc a key n version s = Some t"
    "holds pc (mem_put (ucast a) (blob item key (unat n)) m) f t"
proof -
  obtain t where t: "bios_cfg_read_entry pc a key n version s = Some t" "ram t = mem_put (ucast a) (blob item key (unat n)) (ram s)"
    using entry_reads [OF assms(4), of key version s] by auto
  show ?thesis using that t(1) holds_put [OF assms(1, 2) _ t(2)] assms(3) by simp
qed

lemma version_sets:
  assumes "holds pc m f s" "vars_apart pc"
  obtains t where "bios_cfg_version pc s = (le (blob item (cfg_id pc) 4), t)" "holds pc m (f(CfgVersion \<mapsto> le (blob item (cfg_id pc) 4))) t"
proof -
  let ?t = "bios_cfg_read_entry_io pc (var_at pc CfgVersion) (cfg_id pc) 4 s"
  have "unat (var_at pc CfgVersion) + unat (4 :: u32) \<le> 2 ^ 32" using assms(2) by (simp add: vars_apart_def)
  then have "ram ?t = mem_put (ucast (var_at pc CfgVersion)) (blob item (cfg_id pc) 4) (ram s)"
    using io_reads [of "var_at pc CfgVersion" 4 "cfg_id pc" s] by simp
  then have "holds pc m (f(CfgVersion \<mapsto> le (blob item (cfg_id pc) 4))) ?t"
    using holds_set [OF assms, of "blob item (cfg_id pc) 4"] by simp
  moreover from this have "get_var pc CfgVersion ?t = le (blob item (cfg_id pc) 4)" by (rule holds_var) simp
  ultimately show ?thesis using that by (simp add: bios_cfg_version_def Let_def)
qed

end

text \<open>
  QEMU's device over any items: a command is served when the address of \<open>access\<close> is written,
  the processor sees its control field cleared after one \<open>pause\<close>.
\<close>

definition qemu_fw_cfg :: "(u16 \<Rightarrow> nat \<Rightarrow> u8) \<Rightarrow> (rom_var \<Rightarrow> u32) \<Rightarrow> (u16 \<times> u16 \<times> u16 \<times> u16) \<Rightarrow> (u16 \<times> nat) pc" where
  "qemu_fw_cfg item vars e801 = \<lparr>
     outw_port = (\<lambda>v port d. if port = BIOS_CFG_IOPORT_CFG then (v, 0) else d),
     outl_port = (\<lambda>v port s. if port = BIOS_CFG_DMA_ADDR_LOW
        then s\<lparr>ram := mem_put (bswapq (dma_address (access s)))
            (blob item (ucast (drop_bit 16 (bswapl (dma_control (access s))))) (unat (bswapl (dma_length (access s))))) (ram s)\<rparr>
        else s),
     inb_port = (\<lambda>port d. (item (fst d) (snd d), (fst d, snd d + 1))),
     pause = (\<lambda>s. s\<lparr>access := (access s)\<lparr>dma_control := 0\<rparr>\<rparr>),
     int15 = (\<lambda>ax d. (e801, d)),
     var_at = vars, access_at = 0x9000, cmdline_buffer = 0x8000,
     ctl_error = 1, ctl_select = 8, ctl_read = 2, version_dma = 2, cfg_id = 1, hvm_magic = 0x336ec578\<rparr>"

lemma dma_command_key: "ucast (drop_bit 16 (push_bit 16 (ucast key) OR 8 OR 2 :: u32)) = (key :: u16)"
proof -
  have "ucast (drop_bit 16 (push_bit 16 (ucast key) :: u32)) = (key :: u16)"
    by (rule bit_word_eqI) (auto simp: bit_simps)
  moreover have "drop_bit 16 (push_bit 16 (ucast key) OR 8 OR 2 :: u32) = drop_bit 16 (push_bit 16 (ucast key))"
    by simp
  ultimately show ?thesis by simp
qed

interpretation qemu: fw_cfg_host "qemu_fw_cfg item vars e801" item "\<lambda>d. d" for item vars e801
proof
  fix s :: "(u16 \<times> nat) pcs" and key
  let ?pc = "qemu_fw_cfg item vars e801"
  assume c: "bswapl (dma_control (access s)) = dma_command ?pc key"
  let ?s = "outl_port ?pc (bswapl (access_at ?pc)) BIOS_CFG_DMA_ADDR_LOW s"
  have k: "ucast (drop_bit 16 (bswapl (dma_control (access s)))) = key"
    unfolding c dma_command_def using dma_command_key [of key] by (simp add: qemu_fw_cfg_def del: drop_bit_or)
  have "bit (dma_command ?pc key) 3" by (simp add: dma_command_def qemu_fw_cfg_def bit_simps)
  then have "bit (bswapl (dma_control (access s)) AND NOT 1) 3" unfolding c by (simp add: bit_simps)
  then have b: "bswapl (dma_control (access s)) AND NOT 1 \<noteq> 0" by auto
  then have "dma_busy ?pc ?s" by (simp add: dma_busy_def qemu_fw_cfg_def)
  then show "\<exists>k t. (pause ?pc ^^ k) ?s = t \<and> (\<forall>j<k. dma_busy ?pc ((pause ?pc ^^ j) ?s)) \<and>
        dma_control (access t) = 0 \<and> seg_es t = seg_es s \<and>
        ram t = mem_put (bswapq (dma_address (access s))) (blob item key (unat (bswapl (dma_length (access s))))) (ram s)"
    using k by (intro exI [of _ 1] exI [of _ "pause ?pc ?s"]) (simp add: qemu_fw_cfg_def)
qed (auto simp: qemu_fw_cfg_def)

text \<open>
  C33: both transports of fw_cfg, DMA and port input, deliver the same bytes.
\<close>

theorem read_entry_same:
  assumes "fw_cfg_host pc item sel" "unat buf + unat len \<le> 2 ^ 32"
  shows "\<exists>t u. bios_cfg_read_entry pc buf key len v s = Some t \<and> bios_cfg_read_entry pc buf key len w s = Some u \<and>
    ram t = ram u \<and> mem_get (ram t) (ucast buf) (unat len) = blob item key (unat len)"
proof -
  obtain t where t: "bios_cfg_read_entry pc buf key len v s = Some t" "ram t = mem_put (ucast buf) (blob item key (unat len)) (ram s)"
    using fw_cfg_host.entry_reads [OF assms, of key v s] by metis
  obtain u where u: "bios_cfg_read_entry pc buf key len w s = Some u" "ram u = mem_put (ucast buf) (blob item key (unat len)) (ram s)"
    using fw_cfg_host.entry_reads [OF assms, of key w s] by metis
  have "mem_get (ram t) (ucast buf) (unat len) = blob item key (unat len)"
    using mem_get_put_same [of "blob item key (unat len)" "ucast buf" "ram s"] unsigned_less [of len, where ?'a = nat] t(2) by simp
  then show ?thesis using t u by auto
qed

definition demo_pcs :: "(u16 \<times> nat) pcs" where
  "demo_pcs = \<lparr>ram = (\<lambda>x. 0), access = \<lparr>dma_control = 0, dma_length = 0, dma_address = 0\<rparr>, seg_es = 0, pdev = (0, 0)\<rparr>"

theorem read_entry_same_witness:
  "\<exists>t u. bios_cfg_read_entry (qemu_fw_cfg (\<lambda>key i. 7) (\<lambda>v. 0) (0, 0, 0, 0)) 0x5000 1 16 0 demo_pcs = Some t \<and>
     bios_cfg_read_entry (qemu_fw_cfg (\<lambda>key i. 7) (\<lambda>v. 0) (0, 0, 0, 0)) 0x5000 1 16 2 demo_pcs = Some u \<and>
     ram t = ram u \<and> mem_get (ram t) 0x5000 16 = replicate 16 7"
  using read_entry_same [OF qemu.fw_cfg_host_axioms, of "0x5000" 16 "\<lambda>key i. 7" "\<lambda>v. 0" "(0, 0, 0, 0)" 1 0 demo_pcs 2]
  by (simp add: blob_def map_replicate_const)

end
