(* ===== verification/LinuxBoot.thy ===== *)
theory LinuxBoot
  imports FwCfg
begin

text \<open>
  The option ROM that boots a Linux kernel handed over by QEMU (\<open>linuxboot_dma.c\<close>), in real
  mode: it reads setup code, initrd, kernel and command line from fw_cfg into storage, moves
  the initrd below the end of memory, and enters the setup code.
\<close>

section \<open>optionrom.h\<close>

text \<open>The keys of the items.\<close>

definition FW_CFG_KERNEL_ADDR :: u16 where "FW_CFG_KERNEL_ADDR = 0x07"
definition FW_CFG_KERNEL_SIZE :: u16 where "FW_CFG_KERNEL_SIZE = 0x08"
definition FW_CFG_INITRD_ADDR :: u16 where "FW_CFG_INITRD_ADDR = 0x0a"
definition FW_CFG_INITRD_SIZE :: u16 where "FW_CFG_INITRD_SIZE = 0x0b"
definition FW_CFG_KERNEL_ENTRY :: u16 where "FW_CFG_KERNEL_ENTRY = 0x10"
definition FW_CFG_KERNEL_DATA :: u16 where "FW_CFG_KERNEL_DATA = 0x11"
definition FW_CFG_INITRD_DATA :: u16 where "FW_CFG_INITRD_DATA = 0x12"
definition FW_CFG_CMDLINE_ADDR :: u16 where "FW_CFG_CMDLINE_ADDR = 0x13"
definition FW_CFG_CMDLINE_SIZE :: u16 where "FW_CFG_CMDLINE_SIZE = 0x14"
definition FW_CFG_CMDLINE_DATA :: u16 where "FW_CFG_CMDLINE_DATA = 0x15"
definition FW_CFG_SETUP_ADDR :: u16 where "FW_CFG_SETUP_ADDR = 0x16"
definition FW_CFG_SETUP_SIZE :: u16 where "FW_CFG_SETUP_SIZE = 0x17"
definition FW_CFG_SETUP_DATA :: u16 where "FW_CFG_SETUP_DATA = 0x18"

section \<open>Segments\<close>

definition set_es :: "u32 \<Rightarrow> 'd pcs \<Rightarrow> 'd pcs" where
  "set_es addr s = s\<lparr>seg_es := ucast (drop_bit 4 addr)\<rparr>"

definition es_addr :: "u16 \<Rightarrow> u16 \<Rightarrow> u64" where
  "es_addr e offset = push_bit 4 (ucast e) + ucast offset"

definition readw_es :: "u16 \<Rightarrow> 'd pcs \<Rightarrow> u16" where
  "readw_es offset s = le (mem_get (ram s) (es_addr (seg_es s) offset) 2)"

definition readl_es :: "u16 \<Rightarrow> 'd pcs \<Rightarrow> u32" where
  "readl_es offset s = le (mem_get (ram s) (es_addr (seg_es s) offset) 4)"

definition writel_es :: "u16 \<Rightarrow> u32 \<Rightarrow> 'd pcs \<Rightarrow> 'd pcs" where
  "writel_es offset val s = s\<lparr>ram := mem_put (es_addr (seg_es s) offset) (to_le 4 val) (ram s)\<rparr>"

section \<open>The end of memory\<close>

text \<open>What \<open>get_e801_addr\<close> makes of the registers that the BIOS call returns.\<close>

definition e801_end :: "u16 \<Rightarrow> u16 \<Rightarrow> u16 \<Rightarrow> u16 \<Rightarrow> u32" where
  "e801_end ax bx cx dx =
     (let (cx, dx) = if cx = 0 \<and> dx = 0 then (ax, bx) else (cx, dx)
      in if dx \<noteq> 0 then push_bit 16 (ucast dx + 256) else push_bit 10 (ucast cx + 1024))"

definition get_e801_addr :: "'d pc \<Rightarrow> 'd pcs \<Rightarrow> u32 \<times> 'd pcs" where
  "get_e801_addr pc s =
     (case int15 pc 0xe801 (pdev s) of ((ax, bx, cx, dx), d) \<Rightarrow> (e801_end ax bx cx dx, s\<lparr>pdev := d\<rparr>))"

section \<open>load\_kernel\<close>

definition page_of :: "u32 \<Rightarrow> u32" where
  "page_of x = x AND - 4096"

definition must_move :: "u32 \<Rightarrow> u32 \<Rightarrow> u32 \<Rightarrow> bool" where
  "must_move initrd_addr initrd_size initrd_max \<longleftrightarrow>
     (let initrd_end_page = page_of (initrd_addr + initrd_size); max_allowed_page = page_of initrd_max
      in initrd_end_page \<noteq> 0 \<and> max_allowed_page \<noteq> 0 \<and> initrd_end_page \<noteq> max_allowed_page)"

definition move_initrd :: "'d pc \<Rightarrow> 'd pcs \<Rightarrow> 'd pcs" where
  "move_initrd pc s =
     (if must_move (get_var pc InitrdAddr s) (get_var pc InitrdSize s) (readl_es 0x22c s)
      then case get_e801_addr pc s of (mem_end, t) \<Rightarrow>
        let u = set_var pc InitrdAddr (page_of (mem_end - get_var pc InitrdSize t)) t
        in writel_es 0x218 (get_var pc InitrdAddr u) u
      else s)"

definition old_protocol :: "'d pcs \<Rightarrow> 'd pcs" where
  "old_protocol s = (if readw_es 0x206 s < 0x203 then writel_es 0x22c 0x37ffffff s else s)"

text \<open>
  The registers the kernel starts with: the selectors are the segment of the setup code, the
  code is entered 0x200 bytes behind it, the general registers are zero (\<open>ax\<close> the code
  segment, which was pushed with the instruction pointer for the far return).
\<close>

record boot_regs =
  reg_seg :: u16
  reg_esp :: u32
  reg_cs :: u16
  reg_ip :: u16

definition enter_kernel :: "u32 \<Rightarrow> u32 \<Rightarrow> 'd pcs \<Rightarrow> boot_regs \<times> 'd pcs" where
  "enter_kernel segment_addr stack_addr s =
     (let seg = ucast segment_addr; cs = seg + 0x20; sp = ucast stack_addr
      in (\<lparr>reg_seg = seg, reg_esp = stack_addr, reg_cs = cs, reg_ip = 0\<rparr>,
          s\<lparr>ram := mem_put (es_addr seg (sp - 4)) (to_le 2 (0 :: u16)) (mem_put (es_addr seg (sp - 2)) (to_le 2 cs) (ram s)),
            seg_es := seg\<rparr>))"

definition load_kernel :: "'d pc \<Rightarrow> 'd pcs \<Rightarrow> (boot_regs \<times> 'd pcs) option" where
  "load_kernel pc s = do {
     s \<leftarrow> bios_cfg_read_entry_dma pc (var_at pc SetupAddr) FW_CFG_SETUP_ADDR 4 s;
     s \<leftarrow> bios_cfg_read_entry_dma pc (var_at pc SetupSize) FW_CFG_SETUP_SIZE 4 s;
     s \<leftarrow> bios_cfg_read_entry_dma pc (get_var pc SetupAddr s) FW_CFG_SETUP_DATA (get_var pc SetupSize s) s;
     let s = old_protocol (set_es (get_var pc SetupAddr s) s);
     s \<leftarrow> bios_cfg_read_entry_dma pc (var_at pc InitrdAddr) FW_CFG_INITRD_ADDR 4 s;
     s \<leftarrow> bios_cfg_read_entry_dma pc (var_at pc InitrdSize) FW_CFG_INITRD_SIZE 4 s;
     let s = move_initrd pc s;
     s \<leftarrow> bios_cfg_read_entry_dma pc (get_var pc InitrdAddr s) FW_CFG_INITRD_DATA (get_var pc InitrdSize s) s;
     s \<leftarrow> bios_cfg_read_entry_dma pc (var_at pc KernelAddr) FW_CFG_KERNEL_ADDR 4 s;
     s \<leftarrow> bios_cfg_read_entry_dma pc (var_at pc KernelSize) FW_CFG_KERNEL_SIZE 4 s;
     s \<leftarrow> bios_cfg_read_entry_dma pc (get_var pc KernelAddr s) FW_CFG_KERNEL_DATA (get_var pc KernelSize s) s;
     s \<leftarrow> bios_cfg_read_entry_dma pc (var_at pc CmdlineAddr) FW_CFG_CMDLINE_ADDR 4 s;
     s \<leftarrow> bios_cfg_read_entry_dma pc (var_at pc CmdlineSize) FW_CFG_CMDLINE_SIZE 4 s;
     s \<leftarrow> bios_cfg_read_entry_dma pc (get_var pc CmdlineAddr s) FW_CFG_CMDLINE_DATA (get_var pc CmdlineSize s) s;
     Some (enter_kernel (drop_bit 4 (get_var pc SetupAddr s)) (get_var pc CmdlineAddr s - get_var pc SetupAddr s - 16) s)
   }"

section \<open>What is booted\<close>

text \<open>
  The promise of the ROM, without variables, ports and waiting: the four items lie where QEMU
  wants them, but the initrd below the end of memory when it does not end at the kernel's
  limit; the header of the setup code is patched accordingly.
\<close>

definition num :: "(u16 \<Rightarrow> nat \<Rightarrow> u8) \<Rightarrow> u16 \<Rightarrow> u32" where
  "num item key = le (blob item key 4)"

definition header :: "(u16 \<Rightarrow> nat \<Rightarrow> u8) \<Rightarrow> u16 \<Rightarrow> u64" where
  "header item offset = es_addr (ucast (drop_bit 4 (num item FW_CFG_SETUP_ADDR))) offset"

definition setup_image :: "(u16 \<Rightarrow> nat \<Rightarrow> u8) \<Rightarrow> (u64 \<Rightarrow> u8) \<Rightarrow> (u64 \<Rightarrow> u8)" where
  "setup_image item m =
     (let m1 = mem_put (ucast (num item FW_CFG_SETUP_ADDR)) (blob item FW_CFG_SETUP_DATA (unat (num item FW_CFG_SETUP_SIZE))) m
      in if (le (mem_get m1 (header item 0x206) 2) :: u16) < 0x203 then mem_put (header item 0x22c) (to_le 4 (0x37ffffff :: u32)) m1 else m1)"

definition moved :: "(u16 \<Rightarrow> nat \<Rightarrow> u8) \<Rightarrow> (u64 \<Rightarrow> u8) \<Rightarrow> bool" where
  "moved item m \<longleftrightarrow> must_move (num item FW_CFG_INITRD_ADDR) (num item FW_CFG_INITRD_SIZE) (le (mem_get (setup_image item m) (header item 0x22c) 4))"

definition initrd_at :: "(u16 \<Rightarrow> nat \<Rightarrow> u8) \<Rightarrow> u32 \<Rightarrow> (u64 \<Rightarrow> u8) \<Rightarrow> u32" where
  "initrd_at item mem_end m =
     (if moved item m then page_of (mem_end - num item FW_CFG_INITRD_SIZE) else num item FW_CFG_INITRD_ADDR)"

definition boot_image :: "(u16 \<Rightarrow> nat \<Rightarrow> u8) \<Rightarrow> u32 \<Rightarrow> (u64 \<Rightarrow> u8) \<Rightarrow> (u64 \<Rightarrow> u8)" where
  "boot_image item mem_end m =
     (let m3 = if moved item m then mem_put (header item 0x218) (to_le 4 (initrd_at item mem_end m)) (setup_image item m) else setup_image item m;
          m4 = mem_put (ucast (initrd_at item mem_end m)) (blob item FW_CFG_INITRD_DATA (unat (num item FW_CFG_INITRD_SIZE))) m3;
          m5 = mem_put (ucast (num item FW_CFG_KERNEL_ADDR)) (blob item FW_CFG_KERNEL_DATA (unat (num item FW_CFG_KERNEL_SIZE))) m4
      in mem_put (ucast (num item FW_CFG_CMDLINE_ADDR)) (blob item FW_CFG_CMDLINE_DATA (unat (num item FW_CFG_CMDLINE_SIZE))) m5)"

text \<open>The places the ROM writes do not meet its variables.\<close>

definition layout_ok :: "'d pc \<Rightarrow> (u16 \<Rightarrow> nat \<Rightarrow> u8) \<Rightarrow> u32 \<Rightarrow> (u64 \<Rightarrow> u8) \<Rightarrow> bool" where
  "layout_ok pc item mem_end m \<longleftrightarrow> vars_apart pc \<and>
     clear pc (ucast (num item FW_CFG_SETUP_ADDR)) (unat (num item FW_CFG_SETUP_SIZE)) \<and>
     clear pc (header item 0x206) 2 \<and> clear pc (header item 0x22c) 4 \<and> clear pc (header item 0x218) 4 \<and>
     clear pc (ucast (initrd_at item mem_end m)) (unat (num item FW_CFG_INITRD_SIZE)) \<and>
     clear pc (ucast (num item FW_CFG_KERNEL_ADDR)) (unat (num item FW_CFG_KERNEL_SIZE)) \<and>
     clear pc (ucast (num item FW_CFG_CMDLINE_ADDR)) (unat (num item FW_CFG_CMDLINE_SIZE))"

text \<open>fw\_cfg, and a BIOS that answers \<open>int 0x15\<close> with the same memory map whenever it is asked.\<close>

locale pc_bios = fw_cfg_host +
  fixes e801 :: "u16 \<times> u16 \<times> u16 \<times> u16" and mem_end :: u32
  assumes bios: "fst (int15 pc 0xe801 d) = e801"
    and mem_end: "mem_end = (case e801 of (ax, bx, cx, dx) \<Rightarrow> e801_end ax bx cx dx)"
begin

lemma item_loads:
  assumes "holds pc m f s" "vars_apart pc" "va \<noteq> vs" "clear pc (ucast (num item ka)) (unat (num item ks))"
  obtains s1 s2 t where "bios_cfg_read_entry_dma pc (var_at pc va) ka 4 s = Some s1"
    "bios_cfg_read_entry_dma pc (var_at pc vs) ks 4 s1 = Some s2"
    "bios_cfg_read_entry_dma pc (get_var pc va s2) kd (get_var pc vs s2) s2 = Some t"
    "holds pc (mem_put (ucast (num item ka)) (blob item kd (unat (num item ks))) m) (f(va \<mapsto> num item ka, vs \<mapsto> num item ks)) t"
    "seg_es t = seg_es s"
proof -
  obtain s1 where s1: "bios_cfg_read_entry_dma pc (var_at pc va) ka 4 s = Some s1" "holds pc m (f(va \<mapsto> num item ka)) s1" "seg_es s1 = seg_es s"
    using dma_sets [OF assms(1, 2)] unfolding num_def by metis
  obtain s2 where s2: "bios_cfg_read_entry_dma pc (var_at pc vs) ks 4 s1 = Some s2"
    "holds pc m (f(va \<mapsto> num item ka, vs \<mapsto> num item ks)) s2" "seg_es s2 = seg_es s1"
    using dma_sets [OF s1(2) assms(2)] unfolding num_def by metis
  have "get_var pc va s2 = num item ka" "get_var pc vs s2 = num item ks" using s2(2) assms(3) by (auto intro: holds_var)
  then show ?thesis using that s1(1, 3) s2(1, 3) dma_puts [OF s2(2) assms(2, 4), of kd] by metis
qed

lemma old_protocol_holds:
  assumes "holds pc m f s" "vars_apart pc" "clear pc (es_addr (seg_es s) 0x206) 2" "clear pc (es_addr (seg_es s) 0x22c) 4"
  shows "holds pc (if (le (mem_get m (es_addr (seg_es s) 0x206) 2) :: u16) < 0x203
      then mem_put (es_addr (seg_es s) 0x22c) (to_le 4 (0x37ffffff :: u32)) m else m) f (old_protocol s)"
    "seg_es (old_protocol s) = seg_es s"
  using assms holds_get [OF assms(1, 3)] holds_put [OF assms(1, 2), of "es_addr (seg_es s) 0x22c" "to_le 4 (0x37ffffff :: u32)"]
  by (simp_all add: old_protocol_def readw_es_def writel_es_def)

lemma move_initrd_holds:
  assumes "holds pc m f s" "vars_apart pc" "clear pc (es_addr (seg_es s) 0x22c) 4" "clear pc (es_addr (seg_es s) 0x218) 4"
    and "f InitrdAddr = Some a" "f InitrdSize = Some n" "mv \<longleftrightarrow> must_move a n (le (mem_get m (es_addr (seg_es s) 0x22c) 4))"
    and "b = (if mv then page_of (mem_end - n) else a)"
  shows "holds pc (if mv then mem_put (es_addr (seg_es s) 0x218) (to_le 4 b) m else m) (f(InitrdAddr \<mapsto> b)) (move_initrd pc s)"
    "seg_es (move_initrd pc s) = seg_es s"
proof -
  note v = holds_var [OF assms(1, 5)] holds_var [OF assms(1, 6)] holds_get [OF assms(1, 3)]
  obtain t where t: "get_e801_addr pc s = (mem_end, t)" "ram t = ram s" "seg_es t = seg_es s"
  proof (cases "int15 pc 0xe801 (pdev s)")
    case (Pair r d)
    then show ?thesis using that bios [of "pdev s"] mem_end by (cases r) (auto simp: get_e801_addr_def)
  qed
  have n: "get_var pc InitrdSize t = n" using v(2) t(2) by (simp add: get_var_def)
  let ?u = "set_var pc InitrdAddr (page_of (mem_end - n)) t"
  have u: "holds pc m (f(InitrdAddr \<mapsto> page_of (mem_end - n))) ?u"
    using holds_set_var [OF _ assms(2)] holds_cong [OF t(2)] assms(1) by blast
  then have g: "get_var pc InitrdAddr ?u = page_of (mem_end - n)" by (rule holds_var) simp
  have e: "seg_es ?u = seg_es s" using t(3) by (simp add: set_var_def)
  show "holds pc (if mv then mem_put (es_addr (seg_es s) 0x218) (to_le 4 b) m else m) (f(InitrdAddr \<mapsto> b)) (move_initrd pc s)"
  proof (cases mv)
    case True
    then have "move_initrd pc s = writel_es 0x218 b ?u"
      using assms(7, 8) v t(1) n g by (simp add: move_initrd_def readl_es_def Let_def)
    then show ?thesis
      using True assms(4, 8) holds_put [OF u assms(2), of "es_addr (seg_es s) 0x218" "to_le 4 b"] e by (simp add: writel_es_def)
  next
    case False
    then have "move_initrd pc s = s" using assms(7) v by (simp add: move_initrd_def readl_es_def)
    with False show ?thesis using assms(1, 5, 8) by (simp add: fun_upd_idem)
  qed
  show "seg_es (move_initrd pc s) = seg_es s"
    using t(1, 3) by (auto simp: move_initrd_def writel_es_def set_var_def Let_def)
qed

lemma setup_loads:
  assumes "layout_ok pc item mem_end (ram s)"
  obtains s1 s2 s3 where "bios_cfg_read_entry_dma pc (var_at pc SetupAddr) FW_CFG_SETUP_ADDR 4 s = Some s1"
    "bios_cfg_read_entry_dma pc (var_at pc SetupSize) FW_CFG_SETUP_SIZE 4 s1 = Some s2"
    "bios_cfg_read_entry_dma pc (get_var pc SetupAddr s2) FW_CFG_SETUP_DATA (get_var pc SetupSize s2) s2 = Some s3"
    "holds pc (setup_image item (ram s)) [SetupAddr \<mapsto> num item FW_CFG_SETUP_ADDR, SetupSize \<mapsto> num item FW_CFG_SETUP_SIZE]
      (old_protocol (set_es (get_var pc SetupAddr s3) s3))"
    "es_addr (seg_es (old_protocol (set_es (get_var pc SetupAddr s3) s3))) = header item"
proof -
  from assms have va: "vars_apart pc" and c: "clear pc (ucast (num item FW_CFG_SETUP_ADDR)) (unat (num item FW_CFG_SETUP_SIZE))"
    "clear pc (header item 0x206) 2" "clear pc (header item 0x22c) 4" by (simp_all add: layout_ok_def)
  obtain s1 s2 s3 where s: "bios_cfg_read_entry_dma pc (var_at pc SetupAddr) FW_CFG_SETUP_ADDR 4 s = Some s1"
    "bios_cfg_read_entry_dma pc (var_at pc SetupSize) FW_CFG_SETUP_SIZE 4 s1 = Some s2"
    "bios_cfg_read_entry_dma pc (get_var pc SetupAddr s2) FW_CFG_SETUP_DATA (get_var pc SetupSize s2) s2 = Some s3"
    "holds pc (mem_put (ucast (num item FW_CFG_SETUP_ADDR)) (blob item FW_CFG_SETUP_DATA (unat (num item FW_CFG_SETUP_SIZE))) (ram s))
      [SetupAddr \<mapsto> num item FW_CFG_SETUP_ADDR, SetupSize \<mapsto> num item FW_CFG_SETUP_SIZE] s3"
    by (rule item_loads [OF holdsI va _ c(1), of SetupAddr SetupSize]) auto
  let ?t = "set_es (get_var pc SetupAddr s3) s3"
  have g: "get_var pc SetupAddr s3 = num item FW_CFG_SETUP_ADDR" using s(4) by (rule holds_var) simp
  have h: "es_addr (seg_es ?t) = header item" by (rule ext) (simp add: set_es_def g header_def)
  have "ram ?t = ram s3" by (simp add: set_es_def)
  note t = s(4) [folded holds_cong [OF this]]
  note o = old_protocol_holds [OF t va, unfolded h, OF c(2, 3)]
  show ?thesis using that [OF s(1-3)] o h by (simp add: setup_image_def Let_def)
qed

lemma load_kernel_ok:
  assumes "layout_ok pc item mem_end (ram s)"
  obtains t where "load_kernel pc s = Some (enter_kernel (drop_bit 4 (num item FW_CFG_SETUP_ADDR))
      (num item FW_CFG_CMDLINE_ADDR - num item FW_CFG_SETUP_ADDR - 16) t)"
    "\<forall>x. \<not> in_vars pc x \<longrightarrow> ram t x = boot_image item mem_end (ram s) x"
proof -
  note l = assms [unfolded layout_ok_def]
  from l have va: "vars_apart pc" by simp
  let ?m2 = "setup_image item (ram s)"
  let ?f = "[SetupAddr \<mapsto> num item FW_CFG_SETUP_ADDR, SetupSize \<mapsto> num item FW_CFG_SETUP_SIZE]"
  let ?t3 = "\<lambda>x. old_protocol (set_es (get_var pc SetupAddr x) x)"
  obtain s1 s2 s3 where s: "bios_cfg_read_entry_dma pc (var_at pc SetupAddr) FW_CFG_SETUP_ADDR 4 s = Some s1"
    "bios_cfg_read_entry_dma pc (var_at pc SetupSize) FW_CFG_SETUP_SIZE 4 s1 = Some s2"
    "bios_cfg_read_entry_dma pc (get_var pc SetupAddr s2) FW_CFG_SETUP_DATA (get_var pc SetupSize s2) s2 = Some s3"
    "holds pc ?m2 ?f (?t3 s3)"
    "es_addr (seg_es (?t3 s3)) = header item" by (rule setup_loads [OF assms])
  obtain s4 where s4: "bios_cfg_read_entry_dma pc (var_at pc InitrdAddr) FW_CFG_INITRD_ADDR 4 (?t3 s3) = Some s4"
    "holds pc ?m2 (?f(InitrdAddr \<mapsto> num item FW_CFG_INITRD_ADDR)) s4" "seg_es s4 = seg_es (?t3 s3)"
    using dma_sets [OF s(4) va] unfolding num_def by metis
  obtain s5 where s5: "bios_cfg_read_entry_dma pc (var_at pc InitrdSize) FW_CFG_INITRD_SIZE 4 s4 = Some s5"
    "holds pc ?m2 (?f(InitrdAddr \<mapsto> num item FW_CFG_INITRD_ADDR, InitrdSize \<mapsto> num item FW_CFG_INITRD_SIZE)) s5" "seg_es s5 = seg_es s4"
    using dma_sets [OF s4(2) va] unfolding num_def by metis
  have h: "es_addr (seg_es s5) = header item" using s(5) s4(3) s5(3) by simp
  let ?b = "initrd_at item mem_end (ram s)"
  let ?m3 = "if moved item (ram s) then mem_put (header item 0x218) (to_le 4 ?b) ?m2 else ?m2"
  let ?g = "?f(InitrdAddr \<mapsto> num item FW_CFG_INITRD_ADDR, InitrdSize \<mapsto> num item FW_CFG_INITRD_SIZE, InitrdAddr \<mapsto> ?b)"
  have s6: "holds pc ?m3 ?g (move_initrd pc s5)"
    using move_initrd_holds(1) [OF s5(2) va, unfolded h, of "num item FW_CFG_INITRD_ADDR" "num item FW_CFG_INITRD_SIZE" "moved item (ram s)" ?b] l
    by (simp add: moved_def initrd_at_def)
  then have v: "get_var pc InitrdAddr (move_initrd pc s5) = ?b" "get_var pc InitrdSize (move_initrd pc s5) = num item FW_CFG_INITRD_SIZE"
    by (auto intro: holds_var)
  let ?m4 = "mem_put (ucast ?b) (blob item FW_CFG_INITRD_DATA (unat (num item FW_CFG_INITRD_SIZE))) ?m3"
  let ?m5 = "mem_put (ucast (num item FW_CFG_KERNEL_ADDR)) (blob item FW_CFG_KERNEL_DATA (unat (num item FW_CFG_KERNEL_SIZE))) ?m4"
  let ?h = "?g(KernelAddr \<mapsto> num item FW_CFG_KERNEL_ADDR, KernelSize \<mapsto> num item FW_CFG_KERNEL_SIZE)"
  obtain s7 where s7: "bios_cfg_read_entry_dma pc ?b FW_CFG_INITRD_DATA (num item FW_CFG_INITRD_SIZE) (move_initrd pc s5) = Some s7"
    "holds pc ?m4 ?g s7"
    using dma_puts [OF s6 va, of ?b "num item FW_CFG_INITRD_SIZE" FW_CFG_INITRD_DATA] l by metis
  obtain k1 k2 k3 where k: "bios_cfg_read_entry_dma pc (var_at pc KernelAddr) FW_CFG_KERNEL_ADDR 4 s7 = Some k1"
    "bios_cfg_read_entry_dma pc (var_at pc KernelSize) FW_CFG_KERNEL_SIZE 4 k1 = Some k2"
    "bios_cfg_read_entry_dma pc (get_var pc KernelAddr k2) FW_CFG_KERNEL_DATA (get_var pc KernelSize k2) k2 = Some k3"
    "holds pc ?m5 ?h k3"
    by (rule item_loads [OF s7(2) va, of KernelAddr KernelSize FW_CFG_KERNEL_ADDR FW_CFG_KERNEL_SIZE FW_CFG_KERNEL_DATA]) (use l in auto)
  obtain c1 c2 t where t: "bios_cfg_read_entry_dma pc (var_at pc CmdlineAddr) FW_CFG_CMDLINE_ADDR 4 k3 = Some c1"
    "bios_cfg_read_entry_dma pc (var_at pc CmdlineSize) FW_CFG_CMDLINE_SIZE 4 c1 = Some c2"
    "bios_cfg_read_entry_dma pc (get_var pc CmdlineAddr c2) FW_CFG_CMDLINE_DATA (get_var pc CmdlineSize c2) c2 = Some t"
    "holds pc (mem_put (ucast (num item FW_CFG_CMDLINE_ADDR)) (blob item FW_CFG_CMDLINE_DATA (unat (num item FW_CFG_CMDLINE_SIZE))) ?m5)
      (?h(CmdlineAddr \<mapsto> num item FW_CFG_CMDLINE_ADDR, CmdlineSize \<mapsto> num item FW_CFG_CMDLINE_SIZE)) t"
    by (rule item_loads [OF k(4) va, of CmdlineAddr CmdlineSize FW_CFG_CMDLINE_ADDR FW_CFG_CMDLINE_SIZE FW_CFG_CMDLINE_DATA]) (use l in auto)
  have "get_var pc SetupAddr t = num item FW_CFG_SETUP_ADDR" "get_var pc CmdlineAddr t = num item FW_CFG_CMDLINE_ADDR"
    using t(4) by (auto intro: holds_var)
  then have "load_kernel pc s = Some (enter_kernel (drop_bit 4 (num item FW_CFG_SETUP_ADDR))
      (num item FW_CFG_CMDLINE_ADDR - num item FW_CFG_SETUP_ADDR - 16) t)"
    unfolding load_kernel_def Let_def using s(1-3) s4(1) s5(1) s7(1) v k(1-3) t(1-3) by simp
  moreover have "\<forall>x. \<not> in_vars pc x \<longrightarrow> ram t x = boot_image item mem_end (ram s) x"
    using holds_mem [OF t(4)] by (simp add: boot_image_def Let_def)
  ultimately show ?thesis using that by blast
qed

end

text \<open>The two words that the far return takes from the stack.\<close>

definition on_stack :: "(u16 \<Rightarrow> nat \<Rightarrow> u8) \<Rightarrow> u64 \<Rightarrow> bool" where
  "on_stack item x \<longleftrightarrow>
     (let sp = ucast (num item FW_CFG_CMDLINE_ADDR - num item FW_CFG_SETUP_ADDR - 16)
      in unat (x - header item (sp - 2)) < 2 \<or> unat (x - header item (sp - 4)) < 2)"

text \<open>
  C11: \<open>load_kernel\<close> with a device that follows the protocol: it returns, enters the kernel's setup
  code at its segment, and leaves the boot image in storage, but for its own variables and the
  stack: setup code, initrd, kernel and command line where QEMU wants them, the header patched.
\<close>

theorem load_kernel_boots:
  assumes "pc_bios pc item sel e801 mem_end" "layout_ok pc item mem_end (ram s)"
  shows "\<exists>t. load_kernel pc s = Some (\<lparr>reg_seg = ucast (drop_bit 4 (num item FW_CFG_SETUP_ADDR)),
        reg_esp = num item FW_CFG_CMDLINE_ADDR - num item FW_CFG_SETUP_ADDR - 16,
        reg_cs = ucast (drop_bit 4 (num item FW_CFG_SETUP_ADDR)) + 0x20, reg_ip = 0\<rparr>, t) \<and>
    (\<forall>x. \<not> in_vars pc x \<and> \<not> on_stack item x \<longrightarrow> ram t x = boot_image item mem_end (ram s) x)"
proof -
  obtain t where t: "load_kernel pc s = Some (enter_kernel (drop_bit 4 (num item FW_CFG_SETUP_ADDR))
      (num item FW_CFG_CMDLINE_ADDR - num item FW_CFG_SETUP_ADDR - 16) t)"
    "\<forall>x. \<not> in_vars pc x \<longrightarrow> ram t x = boot_image item mem_end (ram s) x"
    by (rule pc_bios.load_kernel_ok [OF assms])
  then show ?thesis
    by (simp add: enter_kernel_def Let_def on_stack_def header_def mem_put_def)
qed

lemma page_of_nat: "unat (page_of x) = unat x div 4096 * 4096"
proof -
  have m: "(- 4096 :: u32) = NOT (mask 12)" by (simp add: mask_eq_exp_minus_1)
  have "x AND NOT (mask 12) = push_bit 12 (drop_bit 12 x)"
    by (rule bit_word_eqI) (auto simp: bit_simps)
  then have "page_of x = push_bit 12 (drop_bit 12 x)" unfolding page_of_def m .
  then have "unat (page_of x) = (unat x div 4096 * 4096) mod 2 ^ 32"
    by (simp add: push_bit_eq_mult drop_bit_eq_div unat_word_ariths unat_div mod_mult_left_eq)
  also have "\<dots> = unat x div 4096 * 4096"
    using unsigned_less [of x, where ?'a = nat] by (intro mod_less) (auto intro: le_less_trans [OF div_times_less_eq_dividend])
  finally show ?thesis .
qed


section \<open>A machine to boot\<close>

interpretation qemu_pc: pc_bios "qemu_fw_cfg item vars (ax, bx, cx, dx)" item "\<lambda>d. d" "(ax, bx, cx, dx)" "e801_end ax bx cx dx"
  for item vars ax bx cx dx
  by unfold_locales (simp_all add: qemu_fw_cfg_def)

fun demo_var :: "rom_var \<Rightarrow> u32" where
  "demo_var SetupAddr = 0x9100" | "demo_var InitrdAddr = 0x9104" | "demo_var KernelAddr = 0x9108"
| "demo_var CmdlineAddr = 0x910c" | "demo_var SetupSize = 0x9110" | "demo_var InitrdSize = 0x9114"
| "demo_var KernelSize = 0x9118" | "demo_var CmdlineSize = 0x911c" | "demo_var KernelEntry = 0x9120"
| "demo_var CfgVersion = 0x9124"

definition demo_num :: "u16 \<rightharpoonup> u32" where
  "demo_num = [FW_CFG_SETUP_ADDR \<mapsto> 0x10000, FW_CFG_SETUP_SIZE \<mapsto> 0x400, FW_CFG_INITRD_ADDR \<mapsto> 0x1000000,
     FW_CFG_INITRD_SIZE \<mapsto> 0x1800, FW_CFG_KERNEL_ADDR \<mapsto> 0x100000, FW_CFG_KERNEL_SIZE \<mapsto> 0x8000,
     FW_CFG_CMDLINE_ADDR \<mapsto> 0x20000, FW_CFG_CMDLINE_SIZE \<mapsto> 0x10]"

definition demo_item :: "u16 \<Rightarrow> nat \<Rightarrow> u8" where
  "demo_item key i = (case demo_num key of Some x \<Rightarrow> to_le 4 x ! i
     | None \<Rightarrow> if key = FW_CFG_KERNEL_DATA then 77 else if key = FW_CFG_INITRD_DATA then 99 else 0)"

lemmas fw_cfg_keys = FW_CFG_KERNEL_ADDR_def FW_CFG_KERNEL_SIZE_def FW_CFG_INITRD_ADDR_def FW_CFG_INITRD_SIZE_def
  FW_CFG_KERNEL_ENTRY_def FW_CFG_KERNEL_DATA_def FW_CFG_INITRD_DATA_def FW_CFG_CMDLINE_ADDR_def FW_CFG_CMDLINE_SIZE_def
  FW_CFG_CMDLINE_DATA_def FW_CFG_SETUP_ADDR_def FW_CFG_SETUP_SIZE_def FW_CFG_SETUP_DATA_def

lemma num_demo: "demo_num key = Some x \<Longrightarrow> num demo_item key = x"
proof -
  assume a: "demo_num key = Some x"
  have "blob demo_item key 4 = to_le 4 x" by (rule nth_equalityI) (simp_all add: blob_def demo_item_def a)
  then show ?thesis by (simp add: num_def le_to_le)
qed

lemma demo_nums:
  "num demo_item FW_CFG_SETUP_ADDR = 0x10000" "num demo_item FW_CFG_SETUP_SIZE = 0x400" "num demo_item FW_CFG_INITRD_ADDR = 0x1000000"
  "num demo_item FW_CFG_INITRD_SIZE = 0x1800" "num demo_item FW_CFG_KERNEL_ADDR = 0x100000" "num demo_item FW_CFG_KERNEL_SIZE = 0x8000"
  "num demo_item FW_CFG_CMDLINE_ADDR = 0x20000" "num demo_item FW_CFG_CMDLINE_SIZE = 0x10"
  by (rule num_demo, simp add: demo_num_def fw_cfg_keys)+

lemma demo_header: "header demo_item off = 0x10000 + ucast off"
  by (simp add: header_def demo_nums es_addr_def)

abbreviation demo_pc :: "(u16 \<times> nat) pc" where
  "demo_pc \<equiv> qemu_fw_cfg demo_item demo_var (0, 0, 0, 0x700)"

lemma demo_clear: "unat a + n \<le> 2 ^ 64 \<Longrightarrow> unat a + n \<le> 0x9100 \<or> 0x9128 \<le> unat a \<Longrightarrow> clear (qemu_fw_cfg item demo_var e) a n"
  unfolding clear_def
proof (intro conjI allI)
  fix v
  assume "unat a + n \<le> 0x9100 \<or> 0x9128 \<le> unat a"
  then show "unat (var_at (qemu_fw_cfg item demo_var e) v) + 4 \<le> unat a \<or> unat a + n \<le> unat (var_at (qemu_fw_cfg item demo_var e) v)"
    by (cases v) (auto simp: qemu_fw_cfg_def)
qed

lemma demo_vars: "vars_apart (qemu_fw_cfg item demo_var e)"
  unfolding vars_apart_def
proof (intro conjI allI impI)
  fix v w :: rom_var
  show "unat (var_at (qemu_fw_cfg item demo_var e) v) + 4 \<le> 2 ^ 32" by (cases v) (simp_all add: qemu_fw_cfg_def)
  assume "v \<noteq> w"
  then show "unat (var_at (qemu_fw_cfg item demo_var e) v) + 4 \<le> unat (var_at (qemu_fw_cfg item demo_var e) w) \<or> unat (var_at (qemu_fw_cfg item demo_var e) w) + 4 \<le> unat (var_at (qemu_fw_cfg item demo_var e) v)"
    by (cases v; cases w) (simp_all add: qemu_fw_cfg_def)
qed

lemma demo_initrd: "moved demo_item (ram demo_pcs)" "initrd_at demo_item (e801_end 0 0 0 0x700) (ram demo_pcs) = 0x7ffe000"
proof -
  have d: "demo_item FW_CFG_SETUP_DATA i = 0" for i by (simp add: demo_item_def demo_num_def fw_cfg_keys)
  then have "mem_put a (blob demo_item FW_CFG_SETUP_DATA n) (\<lambda>x. 0) = (\<lambda>x. 0)" for a n
    by (intro ext) (simp add: mem_put_def blob_def)
  then have "setup_image demo_item (ram demo_pcs) = mem_put (header demo_item 0x22c) (to_le 4 (0x37ffffff :: u32)) (\<lambda>x. 0)"
    by (simp add: setup_image_def demo_nums demo_pcs_def le_def mem_get_def map_replicate_const rev_replicate)
  then have "mem_get (setup_image demo_item (ram demo_pcs)) (header demo_item 0x22c) 4 = to_le 4 (0x37ffffff :: u32)"
    using mem_get_put_same [of "to_le 4 (0x37ffffff :: u32)"] by simp
  then show m: "moved demo_item (ram demo_pcs)"
    by (simp add: moved_def demo_nums le_to_le must_move_def page_of_def Let_def)
  then show "initrd_at demo_item (e801_end 0 0 0 0x700) (ram demo_pcs) = 0x7ffe000"
    by (simp add: initrd_at_def demo_nums e801_end_def page_of_def)
qed

theorem load_kernel_boots_witness:
  "\<exists>t. load_kernel demo_pc demo_pcs = Some (\<lparr>reg_seg = 0x1000, reg_esp = 0xfff0, reg_cs = 0x1020, reg_ip = 0\<rparr>, t) \<and>
     ram t 0x100000 = 77 \<and> ram t 0x7ffe000 = 99"
proof -
  let ?e = "e801_end 0 0 0 0x700"
  have "layout_ok demo_pc demo_item ?e (ram demo_pcs)"
    unfolding layout_ok_def demo_nums demo_header demo_initrd(2)
    by (intro conjI demo_vars demo_clear) simp_all
  from load_kernel_boots [OF qemu_pc.pc_bios_axioms this]
  obtain t where t: "load_kernel demo_pc demo_pcs = Some (\<lparr>reg_seg = 0x1000, reg_esp = 0xfff0, reg_cs = 0x1020, reg_ip = 0\<rparr>, t)"
    "\<forall>x. \<not> in_vars demo_pc x \<and> \<not> on_stack demo_item x \<longrightarrow> ram t x = boot_image demo_item ?e (ram demo_pcs) x"
    by (auto simp: demo_nums)
  have v: "\<not> in_vars demo_pc x" if "0x9128 \<le> unat x" for x
  proof -
    have "unat (var_at demo_pc w) + 4 \<le> 0x9128" for w by (cases w) (simp_all add: qemu_fw_cfg_def)
    then show ?thesis using that unfolding in_vars_def by (meson leD order_less_le_trans)
  qed
  have st: "\<not> on_stack demo_item 0x100000" "\<not> on_stack demo_item 0x7ffe000"
    by (simp_all add: on_stack_def demo_nums demo_header)
  have "boot_image demo_item ?e (ram demo_pcs) 0x100000 = 77" "boot_image demo_item ?e (ram demo_pcs) 0x7ffe000 = 99"
    unfolding boot_image_def demo_nums demo_initrd(2) Let_def
    by (simp_all add: mem_put_def blob_def demo_item_def demo_num_def fw_cfg_keys)
  then show ?thesis using t v [of "0x100000"] v [of "0x7ffe000"] st by auto
qed

definition demo_moving :: "(u16 \<times> nat) pcs" where
  "demo_moving = set_var demo_pc InitrdSize 0x1800 (set_var demo_pc InitrdAddr 0x1000000
     (writel_es 0x22c 0x37ffffff (set_es 0x10000 demo_pcs)))"


end
