(* ===== verification/Pvh.thy ===== *)
theory Pvh
  imports LinuxBoot
begin

text \<open>
  The option ROM that starts a kernel by the PVH protocol (\<open>pvh_main.c\<close>): it looks for the
  ACPI root pointer, reads command line and initrd from fw_cfg, and enters the kernel with the
  start information. The numbers of the E820 table are filled in by \<open>pvh.S\<close>.
\<close>

section \<open>The root pointer\<close>

definition RSDP_SIGNATURE :: u64 where "RSDP_SIGNATURE = 0x2052545020445352"
definition RSDP_AREA_ADDR :: u32 where "RSDP_AREA_ADDR = 0x000E0000"
definition RSDP_AREA_SIZE :: u32 where "RSDP_AREA_SIZE = 0x00020000"
definition EBDA_BASE_ADDR :: u32 where "EBDA_BASE_ADDR = 0x0000040E"
definition EBDA_SIZE :: u32 where "EBDA_SIZE = 1024"

definition rsdp_at :: "(u64 \<Rightarrow> u8) \<Rightarrow> u32 \<Rightarrow> bool" where
  "rsdp_at m p \<longleftrightarrow> le (mem_get m (ucast p) 8) = RSDP_SIGNATURE"

partial_function (option) search_rsdp :: "(u64 \<Rightarrow> u8) \<Rightarrow> u32 \<Rightarrow> u32 \<Rightarrow> u32 option" where
  "search_rsdp m p end_addr =
     (if p < end_addr then if rsdp_at m p then Some p else search_rsdp m (p + 16) end_addr else Some 0)"

definition find_rsdp :: "(u64 \<Rightarrow> u8) \<Rightarrow> u32 option" where
  "find_rsdp m = do {
     r \<leftarrow> search_rsdp m RSDP_AREA_ADDR (RSDP_AREA_ADDR + RSDP_AREA_SIZE);
     if r \<noteq> 0 then Some r
     else let ebda_paddr = push_bit 4 (ucast (le (mem_get m (ucast EBDA_BASE_ADDR) 2) :: u16)) :: u32
       in if 0x400 < ebda_paddr
          then let ebda = le (mem_get m (ucast ebda_paddr) 4) in search_rsdp m ebda (ebda + EBDA_SIZE)
          else Some 0
   }"

section \<open>pvh\_load\_kernel\<close>

record start_info =
  si_magic :: u32
  si_version :: u32
  nr_modules :: u32
  modlist_paddr :: u64
  cmdline_paddr :: u64
  rsdp_paddr :: u64
  memmap_paddr :: u64
  memmap_entries :: u32

record modlist_entry =
  mod_paddr :: u64
  mod_size :: u64

text \<open>Static objects: \<open>pvh_e820\<close> and the address of \<open>ramdisk_mod\<close>.\<close>

record pvh_static =
  e820_entries :: u32
  e820_table :: u32
  ramdisk_mod_at :: u32

text \<open>What the kernel is entered with: its address, \<open>start_info\<close> (in \<open>ebx\<close>), \<open>ramdisk_mod\<close>.\<close>

record pvh_entry =
  entry_at :: u32
  entry_info :: start_info
  entry_mod :: modlist_entry

definition E820_MAXENTRIES :: nat where "E820_MAXENTRIES = 128"
definition CMDLINE_BUFSIZE :: nat where "CMDLINE_BUFSIZE = 4096"

definition no_mod :: modlist_entry where
  "no_mod = \<lparr>mod_paddr = 0, mod_size = 0\<rparr>"

definition load_initrd :: "'d pc \<Rightarrow> pvh_static \<Rightarrow> u32 \<Rightarrow> start_info \<Rightarrow> 'd pcs \<Rightarrow> (start_info \<times> modlist_entry \<times> 'd pcs) option" where
  "load_initrd pc st version si s =
     (if get_var pc InitrdSize s \<noteq> 0 then do {
        s \<leftarrow> bios_cfg_read_entry pc (var_at pc InitrdAddr) FW_CFG_INITRD_ADDR 4 version s;
        s \<leftarrow> bios_cfg_read_entry pc (get_var pc InitrdAddr s) FW_CFG_INITRD_DATA (get_var pc InitrdSize s) version s;
        Some (si\<lparr>modlist_paddr := ucast (ramdisk_mod_at st), nr_modules := 1\<rparr>,
          \<lparr>mod_paddr = ucast (get_var pc InitrdAddr s), mod_size = ucast (get_var pc InitrdSize s)\<rparr>, s)
      } else Some (si, no_mod, s))"

definition pvh_load_kernel :: "'d pc \<Rightarrow> pvh_static \<Rightarrow> 'd pcs \<Rightarrow> (pvh_entry \<times> 'd pcs) option" where
  "pvh_load_kernel pc st s =
     (case bios_cfg_version pc s of (version, s) \<Rightarrow> do {
        rsdp \<leftarrow> find_rsdp (ram s);
        s \<leftarrow> bios_cfg_read_entry pc (var_at pc CmdlineSize) FW_CFG_CMDLINE_SIZE 4 version s;
        s \<leftarrow> bios_cfg_read_entry pc (cmdline_buffer pc) FW_CFG_CMDLINE_DATA (get_var pc CmdlineSize s) version s;
        s \<leftarrow> bios_cfg_read_entry pc (var_at pc InitrdSize) FW_CFG_INITRD_SIZE 4 version s;
        (si, md, s) \<leftarrow> load_initrd pc st version
          \<lparr>si_magic = hvm_magic pc, si_version = 1, nr_modules = 0, modlist_paddr = 0,
            cmdline_paddr = ucast (cmdline_buffer pc), rsdp_paddr = ucast rsdp,
            memmap_paddr = ucast (e820_table st), memmap_entries = e820_entries st\<rparr> s;
        s \<leftarrow> bios_cfg_read_entry pc (var_at pc KernelEntry) FW_CFG_KERNEL_ENTRY 4 version s;
        Some (\<lparr>entry_at = get_var pc KernelEntry s, entry_info = si, entry_mod = md\<rparr>, s)
      })"

section \<open>The search\<close>

definition first_rsdp :: "(u64 \<Rightarrow> u8) \<Rightarrow> u32 \<Rightarrow> nat \<Rightarrow> u32" where
  "first_rsdp m p n = (case find (\<lambda>k. rsdp_at m (p + 16 * word_of_nat k)) [0..<n] of None \<Rightarrow> 0 | Some k \<Rightarrow> p + 16 * word_of_nat k)"

lemma first_rsdp_Suc: "first_rsdp m p (Suc n) = (if rsdp_at m p then p else first_rsdp m (p + 16) n)"
proof -
  have "find P (map f xs) = map_option f (find (\<lambda>x. P (f x)) xs)" for P :: "nat \<Rightarrow> bool" and f :: "nat \<Rightarrow> nat" and xs
    by (induction xs) auto
  moreover have "[0..<Suc n] = 0 # map Suc [0..<n]" by (simp add: map_Suc_upt upt_conv_Cons del: upt_Suc)
  moreover have "p + 16 * word_of_nat (Suc k) = p + 16 + 16 * word_of_nat k" for k by (simp add: algebra_simps)
  ultimately show ?thesis by (simp add: first_rsdp_def option.case_distrib add.assoc split: option.split del: upt_Suc of_nat_Suc)
qed

lemma search_rsdp_first:
  assumes "unat end_addr + 15 < 2 ^ 32"
  shows "search_rsdp m p end_addr = Some (first_rsdp m p ((unat end_addr - unat p + 15) div 16))"
  using assms
proof (induction "unat end_addr - unat p" arbitrary: p rule: less_induct)
  case less
  show ?case
  proof (cases "p < end_addr")
    case True
    then have l: "unat p < unat end_addr" by (simp add: word_less_nat_alt)
    have q: "unat (p + 16) = unat p + 16" using l less.prems by (simp add: unat_word_ariths)
    have n: "(unat end_addr - unat p + 15) div 16 = Suc ((unat end_addr - unat (p + 16) + 15) div 16)"
      using l unfolding q by (cases "unat p + 16 \<le> unat end_addr") (auto simp: le_div_geq div_if)
    have "search_rsdp m (p + 16) end_addr = Some (first_rsdp m (p + 16) ((unat end_addr - unat (p + 16) + 15) div 16))"
      using l q less.prems by (intro less.hyps) simp_all
    then show ?thesis using True unfolding n first_rsdp_Suc by (subst search_rsdp.simps) simp
  next
    case False
    then have "(unat end_addr - unat p + 15) div 16 = 0" by (simp add: word_less_nat_alt)
    then show ?thesis using False by (subst search_rsdp.simps) (simp add: first_rsdp_def)
  qed
qed

lemma first_rsdp_none: "\<forall>k < n. \<not> rsdp_at m (p + 16 * word_of_nat k) \<Longrightarrow> first_rsdp m p n = 0"
  by (auto simp: first_rsdp_def find_Some_iff split: option.split)

definition ebda_addr :: "(u64 \<Rightarrow> u8) \<Rightarrow> u32" where
  "ebda_addr m = push_bit 4 (ucast (le (mem_get m 0x40E 2) :: u16))"

definition ebda_word :: "(u64 \<Rightarrow> u8) \<Rightarrow> u32" where
  "ebda_word m = le (mem_get m (ucast (ebda_addr m)) 4)"

lemma find_rsdp_cases:
  assumes "unat (ebda_word m) + 1039 < 2 ^ 32"
  shows "find_rsdp m = Some (let r = first_rsdp m 0xE0000 8192
     in if r \<noteq> 0 then r else if 0x400 < ebda_addr m then first_rsdp m (ebda_word m) 64 else 0)"
proof -
  have a: "search_rsdp m RSDP_AREA_ADDR (RSDP_AREA_ADDR + RSDP_AREA_SIZE) = Some (first_rsdp m 0xE0000 8192)"
    using search_rsdp_first [of "RSDP_AREA_ADDR + RSDP_AREA_SIZE" m RSDP_AREA_ADDR]
    by (simp add: RSDP_AREA_ADDR_def RSDP_AREA_SIZE_def)
  have "unat (ebda_word m + EBDA_SIZE) = unat (ebda_word m) + 1024"
    using assms by (simp add: unat_word_ariths EBDA_SIZE_def)
  then have b: "search_rsdp m (ebda_word m) (ebda_word m + EBDA_SIZE) = Some (first_rsdp m (ebda_word m) 64)"
    using search_rsdp_first [of "ebda_word m + EBDA_SIZE" m "ebda_word m"] assms by simp
  show ?thesis
    using b by (simp add: find_rsdp_def a Let_def EBDA_BASE_ADDR_def ebda_word_def ebda_addr_def)
qed

lemma first_rsdp_sound: "first_rsdp m p n = 0 \<or> rsdp_at m (first_rsdp m p n)"
  by (auto simp: first_rsdp_def find_Some_iff split: option.split)

lemma first_rsdp_least:
  "k < n \<Longrightarrow> rsdp_at m (p + 16 * word_of_nat k) \<Longrightarrow> 0 < unat p \<Longrightarrow> unat p + 16 * n < 2 ^ 32 \<Longrightarrow>
     first_rsdp m p n \<noteq> 0 \<and> unat (first_rsdp m p n) \<le> unat p + 16 * k"
proof (induction n arbitrary: p k)
  case (Suc n)
  show ?case
  proof (cases "rsdp_at m p")
    case True
    then show ?thesis using Suc.prems(3) by (auto simp: first_rsdp_Suc)
  next
    case False
    with Suc.prems obtain j where j: "k = Suc j" by (cases k) auto
    have q: "unat (p + 16) = unat p + 16" using Suc.prems(4) by (simp add: unat_word_ariths)
    have "p + 16 * word_of_nat k = p + 16 + 16 * word_of_nat j" by (simp add: j algebra_simps)
    then have "first_rsdp m (p + 16) n \<noteq> 0 \<and> unat (first_rsdp m (p + 16) n) \<le> unat (p + 16) + 16 * j"
      using Suc.prems j q by (intro Suc.IH) (simp_all add: add.assoc)
    with False q j show ?thesis by (simp add: first_rsdp_Suc)
  qed
qed simp


text \<open>
  C36: without a signature in the BIOS area, the search looks at the 1 KiB behind the
  \<^emph>\<open>contents\<close> of the first word of the extended BIOS data area, not at the area itself: a root
  pointer in the area is not found.
\<close>

theorem find_rsdp_misses_ebda:
  assumes "\<forall>k < 8192. \<not> rsdp_at m (0xE0000 + 16 * word_of_nat k)"
    and "unat (ebda_word m) + 1039 < 2 ^ 32" "\<forall>k < 64. \<not> rsdp_at m (ebda_word m + 16 * word_of_nat k)"
  shows "find_rsdp m = Some 0"
  using find_rsdp_cases [OF assms(2)] first_rsdp_none [OF assms(1)] first_rsdp_none [OF assms(3)] by simp

definition ebda_ram :: "u64 \<Rightarrow> u8" where
  "ebda_ram = mem_put 0x9fc10 (to_le 8 RSDP_SIGNATURE) (mem_put 0x9fc00 (to_le 4 (1 :: u32)) (mem_put 0x40E (to_le 2 (0x9fc0 :: u16)) (\<lambda>x. 0)))"

lemma ebda_ram_get:
  "mem_get ebda_ram 0x9fc10 8 = to_le 8 RSDP_SIGNATURE" "mem_get ebda_ram 0x9fc00 4 = to_le 4 (1 :: u32)"
  "mem_get ebda_ram 0x40E 2 = to_le 2 (0x9fc0 :: u16)"
  using mem_get_put_same [of "to_le 8 RSDP_SIGNATURE" "0x9fc10"] mem_get_put_same [of "to_le 4 (1 :: u32)" "0x9fc00"]
    mem_get_put_same [of "to_le 2 (0x9fc0 :: u16)" "0x40E"]
  by (simp_all add: ebda_ram_def mem_get_put_disjoint)

lemma ebda_ram_zero:
  assumes "unat p + 8 \<le> 0x40E \<or> 0x9fc18 \<le> unat p"
  shows "\<not> rsdp_at ebda_ram p"
proof -
  have "mem_get ebda_ram (ucast p) 8 = mem_get (\<lambda>x. 0) (ucast p) 8"
    using assms unsigned_less [of p, where ?'a = nat] unfolding ebda_ram_def
    by (auto simp: mem_get_put_disjoint)
  also have "\<dots> = replicate 8 0" by (simp add: mem_get_def map_replicate_const)
  finally show ?thesis by (simp add: rsdp_at_def le_def rev_replicate RSDP_SIGNATURE_def)
qed

lemma ebda_ram_fields: "ebda_addr ebda_ram = 0x9fc00" "ebda_word ebda_ram = 1"
  by (simp_all add: ebda_addr_def ebda_word_def ebda_ram_get le_to_le)

lemma bios_area_nat: "k < 8192 \<Longrightarrow> unat (0xE0000 + 16 * word_of_nat k :: u32) = 0xE0000 + 16 * k"
  by (simp add: unat_word_ariths unat_of_nat take_bit_nat_eq_self)

theorem find_rsdp_misses_ebda_witness:
  "ebda_addr ebda_ram = 0x9fc00 \<and> rsdp_at ebda_ram 0x9fc10 \<and> find_rsdp ebda_ram = Some 0"
proof -
  have "\<not> rsdp_at ebda_ram (0xE0000 + 16 * word_of_nat k)" if "k < 8192" for k
    using that by (intro ebda_ram_zero) (simp add: bios_area_nat)
  moreover have "\<not> rsdp_at ebda_ram (1 + 16 * word_of_nat k)" if "k < 64" for k
    using that by (intro ebda_ram_zero) (simp add: unat_word_ariths unat_of_nat take_bit_nat_eq_self)
  ultimately have "find_rsdp ebda_ram = Some 0"
    by (intro find_rsdp_misses_ebda) (simp_all add: ebda_ram_fields)
  then show ?thesis by (simp add: ebda_ram_fields rsdp_at_def ebda_ram_get le_to_le)
qed

definition bios_ram :: "u64 \<Rightarrow> u8" where
  "bios_ram = mem_put 0xf0010 (to_le 8 RSDP_SIGNATURE) (\<lambda>x. 0)"


section \<open>What the kernel finds\<close>

definition pvh_info :: "'d pc \<Rightarrow> pvh_static \<Rightarrow> (u16 \<Rightarrow> nat \<Rightarrow> u8) \<Rightarrow> u32 \<Rightarrow> pvh_entry" where
  "pvh_info pc st item rsdp =
     (let initrd = num item FW_CFG_INITRD_SIZE \<noteq> 0
      in \<lparr>entry_at = num item FW_CFG_KERNEL_ENTRY,
          entry_info = \<lparr>si_magic = hvm_magic pc, si_version = 1, nr_modules = of_bool initrd,
            modlist_paddr = (if initrd then ucast (ramdisk_mod_at st) else 0),
            cmdline_paddr = ucast (cmdline_buffer pc), rsdp_paddr = ucast rsdp,
            memmap_paddr = ucast (e820_table st), memmap_entries = e820_entries st\<rparr>,
          entry_mod = (if initrd then \<lparr>mod_paddr = ucast (num item FW_CFG_INITRD_ADDR), mod_size = ucast (num item FW_CFG_INITRD_SIZE)\<rparr> else no_mod)\<rparr>)"

definition pvh_image :: "'d pc \<Rightarrow> (u16 \<Rightarrow> nat \<Rightarrow> u8) \<Rightarrow> (u64 \<Rightarrow> u8) \<Rightarrow> (u64 \<Rightarrow> u8)" where
  "pvh_image pc item m =
     mem_put (ucast (num item FW_CFG_INITRD_ADDR)) (blob item FW_CFG_INITRD_DATA (unat (num item FW_CFG_INITRD_SIZE)))
       (mem_put (ucast (cmdline_buffer pc)) (blob item FW_CFG_CMDLINE_DATA (unat (num item FW_CFG_CMDLINE_SIZE))) m)"

lemma mem_put_nil [simp]: "mem_put a [] m = m"
  by (rule ext) (simp add: mem_put_def)

context fw_cfg_host begin

lemma load_initrd_ok:
  assumes "holds pc m f s" "vars_apart pc" "f InitrdSize = Some (num item FW_CFG_INITRD_SIZE)"
    and "clear pc (ucast (num item FW_CFG_INITRD_ADDR)) (unat (num item FW_CFG_INITRD_SIZE))"
    and "unat (num item FW_CFG_INITRD_ADDR) + unat (num item FW_CFG_INITRD_SIZE) \<le> 2 ^ 32"
  obtains t g where "load_initrd pc st version si s = Some (if num item FW_CFG_INITRD_SIZE \<noteq> 0
      then (si\<lparr>modlist_paddr := ucast (ramdisk_mod_at st), nr_modules := 1\<rparr>,
        \<lparr>mod_paddr = ucast (num item FW_CFG_INITRD_ADDR), mod_size = ucast (num item FW_CFG_INITRD_SIZE)\<rparr>, t)
      else (si, no_mod, t))"
    "holds pc (mem_put (ucast (num item FW_CFG_INITRD_ADDR)) (blob item FW_CFG_INITRD_DATA (unat (num item FW_CFG_INITRD_SIZE))) m) g t"
proof (cases "num item FW_CFG_INITRD_SIZE = 0")
  case True
  then show ?thesis using that [of s f] assms(1) holds_var [OF assms(1, 3)] by (simp add: load_initrd_def blob_def)
next
  case False
  note v = holds_var [OF assms(1, 3)]
  obtain s1 where s1: "bios_cfg_read_entry pc (var_at pc InitrdAddr) FW_CFG_INITRD_ADDR 4 version s = Some s1"
    "holds pc m (f(InitrdAddr \<mapsto> num item FW_CFG_INITRD_ADDR)) s1" using entry_sets [OF assms(1, 2)] unfolding num_def by metis
  have v1: "get_var pc InitrdAddr s1 = num item FW_CFG_INITRD_ADDR" "get_var pc InitrdSize s1 = num item FW_CFG_INITRD_SIZE"
    using s1(2) assms(3) by (auto intro: holds_var)
  obtain t where t: "bios_cfg_read_entry pc (num item FW_CFG_INITRD_ADDR) FW_CFG_INITRD_DATA (num item FW_CFG_INITRD_SIZE) version s1 = Some t"
    "holds pc (mem_put (ucast (num item FW_CFG_INITRD_ADDR)) (blob item FW_CFG_INITRD_DATA (unat (num item FW_CFG_INITRD_SIZE))) m)
      (f(InitrdAddr \<mapsto> num item FW_CFG_INITRD_ADDR)) t"
    using entry_puts [OF s1(2) assms(2, 4, 5)] by metis
  have "get_var pc InitrdAddr t = num item FW_CFG_INITRD_ADDR" "get_var pc InitrdSize t = num item FW_CFG_INITRD_SIZE"
    using t(2) assms(3) by (auto intro: holds_var)
  then show ?thesis using that [OF _ t(2)] False v s1(1) v1 t(1) by (simp add: load_initrd_def)
qed

lemma pvh_ok:
  assumes va: "vars_apart pc"
    and c: "clear pc (ucast (cmdline_buffer pc)) (unat (num item FW_CFG_CMDLINE_SIZE))"
      "unat (cmdline_buffer pc) + unat (num item FW_CFG_CMDLINE_SIZE) \<le> 2 ^ 32"
    and i: "clear pc (ucast (num item FW_CFG_INITRD_ADDR)) (unat (num item FW_CFG_INITRD_SIZE))"
      "unat (num item FW_CFG_INITRD_ADDR) + unat (num item FW_CFG_INITRD_SIZE) \<le> 2 ^ 32"
    and r: "\<forall>m. (\<forall>x. \<not> in_vars pc x \<longrightarrow> m x = ram s x) \<longrightarrow> find_rsdp m = Some rsdp"
  obtains t where "pvh_load_kernel pc st s = Some (pvh_info pc st item rsdp, t)"
    "\<forall>x. \<not> in_vars pc x \<longrightarrow> ram t x = pvh_image pc item (ram s) x"
proof -
  let ?v = "le (blob item (cfg_id pc) 4) :: u32"
  obtain s0 where s0: "bios_cfg_version pc s = (?v, s0)" "holds pc (ram s) [CfgVersion \<mapsto> ?v] s0"
    using version_sets [OF holdsI va] by metis
  have rs: "find_rsdp (ram s0) = Some rsdp" using r holds_mem [OF s0(2)] by blast
  let ?f1 = "[CfgVersion \<mapsto> ?v, CmdlineSize \<mapsto> num item FW_CFG_CMDLINE_SIZE]"
  obtain s1 where s1: "bios_cfg_read_entry pc (var_at pc CmdlineSize) FW_CFG_CMDLINE_SIZE 4 ?v s0 = Some s1" "holds pc (ram s) ?f1 s1"
    using entry_sets [OF s0(2) va] unfolding num_def by metis
  have v1: "get_var pc CmdlineSize s1 = num item FW_CFG_CMDLINE_SIZE" using s1(2) by (rule holds_var) simp
  let ?m2 = "mem_put (ucast (cmdline_buffer pc)) (blob item FW_CFG_CMDLINE_DATA (unat (num item FW_CFG_CMDLINE_SIZE))) (ram s)"
  obtain s2 where s2: "bios_cfg_read_entry pc (cmdline_buffer pc) FW_CFG_CMDLINE_DATA (num item FW_CFG_CMDLINE_SIZE) ?v s1 = Some s2"
    "holds pc ?m2 ?f1 s2" using entry_puts [OF s1(2) va c] by metis
  obtain s3 where s3: "bios_cfg_read_entry pc (var_at pc InitrdSize) FW_CFG_INITRD_SIZE 4 ?v s2 = Some s3"
    "holds pc ?m2 (?f1(InitrdSize \<mapsto> num item FW_CFG_INITRD_SIZE)) s3" using entry_sets [OF s2(2) va] unfolding num_def by metis
  let ?si = "\<lparr>si_magic = hvm_magic pc, si_version = 1, nr_modules = 0, modlist_paddr = 0, cmdline_paddr = ucast (cmdline_buffer pc),
    rsdp_paddr = ucast rsdp, memmap_paddr = ucast (e820_table st), memmap_entries = e820_entries st\<rparr>"
  obtain s4 g where s4: "load_initrd pc st ?v ?si s3 = Some (if num item FW_CFG_INITRD_SIZE \<noteq> 0
      then (?si\<lparr>modlist_paddr := ucast (ramdisk_mod_at st), nr_modules := 1\<rparr>,
        \<lparr>mod_paddr = ucast (num item FW_CFG_INITRD_ADDR), mod_size = ucast (num item FW_CFG_INITRD_SIZE)\<rparr>, s4)
      else (?si, no_mod, s4))" "holds pc (pvh_image pc item (ram s)) g s4"
    by (rule load_initrd_ok [OF s3(2) va _ i, of st ?v ?si]) (auto simp: pvh_image_def)
  obtain t where t: "bios_cfg_read_entry pc (var_at pc KernelEntry) FW_CFG_KERNEL_ENTRY 4 ?v s4 = Some t"
    "holds pc (pvh_image pc item (ram s)) (g(KernelEntry \<mapsto> num item FW_CFG_KERNEL_ENTRY)) t"
    using entry_sets [OF s4(2) va] unfolding num_def by metis
  have "get_var pc KernelEntry t = num item FW_CFG_KERNEL_ENTRY" using t(2) by (rule holds_var) simp
  then have "pvh_load_kernel pc st s = Some (pvh_info pc st item rsdp, t)"
    using s0(1) rs s1(1) v1 s2(1) s3(1) s4(1) t(1)
    by (cases "num item FW_CFG_INITRD_SIZE = 0") (simp_all add: pvh_load_kernel_def pvh_info_def)
  then show ?thesis using that holds_mem [OF t(2)] by blast
qed

end


text \<open>
  C37: the size of the command line is not compared with the size of its buffer: byte 4096 and
  the following ones are stored behind \<open>cmdline_buffer\<close>.
\<close>

theorem pvh_cmdline_overflow:
  assumes "fw_cfg_host pc item sel" "vars_apart pc"
    and "clear pc (ucast (cmdline_buffer pc)) (unat (num item FW_CFG_CMDLINE_SIZE))"
      "unat (cmdline_buffer pc) + unat (num item FW_CFG_CMDLINE_SIZE) \<le> 2 ^ 32"
    and "clear pc (ucast (num item FW_CFG_INITRD_ADDR)) (unat (num item FW_CFG_INITRD_SIZE))"
      "unat (num item FW_CFG_INITRD_ADDR) + unat (num item FW_CFG_INITRD_SIZE) \<le> 2 ^ 32"
    and "\<forall>m. (\<forall>x. \<not> in_vars pc x \<longrightarrow> m x = ram s x) \<longrightarrow> find_rsdp m = Some rsdp"
    and "CMDLINE_BUFSIZE \<le> k" "k < unat (num item FW_CFG_CMDLINE_SIZE)" "x = ucast (cmdline_buffer pc) + word_of_nat k"
    and "unat (num item FW_CFG_INITRD_SIZE) \<le> unat (x - ucast (num item FW_CFG_INITRD_ADDR))"
  shows "\<exists>e t. pvh_load_kernel pc st s = Some (e, t) \<and> ram t x = item FW_CFG_CMDLINE_DATA k"
proof -
  obtain t where t: "pvh_load_kernel pc st s = Some (pvh_info pc st item rsdp, t)"
    "\<forall>x. \<not> in_vars pc x \<longrightarrow> ram t x = pvh_image pc item (ram s) x"
    by (rule fw_cfg_host.pvh_ok [OF assms(1-7), of st])
  have k: "unat x = unat (cmdline_buffer pc) + k" using assms(4, 9, 10) unat_add_small [of "ucast (cmdline_buffer pc)" k] by simp
  then have "\<not> in_vars pc x" using assms(9) by (intro clear_not_in_vars [OF assms(3)]) simp_all
  then have "ram t x = pvh_image pc item (ram s) x" using t(2) by simp
  also have "\<dots> = item FW_CFG_CMDLINE_DATA k"
    using assms(4, 9-11) by (simp add: pvh_image_def blob_def mem_put_def unat_of_nat take_bit_nat_eq_self)
  finally show ?thesis using t(1) by blast
qed

section \<open>Machines to boot\<close>

lemma demo_no_rsdp:
  assumes "\<forall>x. \<not> in_vars (qemu_fw_cfg item demo_var e801) x \<longrightarrow> m x = 0"
  shows "find_rsdp m = Some 0"
proof -
  have v: "\<not> in_vars (qemu_fw_cfg item demo_var e801) x" if "unat x < 0x9100 \<or> 0x9128 \<le> unat x" for x
  proof -
    have "0x9100 \<le> unat (var_at (qemu_fw_cfg item demo_var e801) w) \<and> unat (var_at (qemu_fw_cfg item demo_var e801) w) + 4 \<le> 0x9128" for w by (cases w) (simp_all add: qemu_fw_cfg_def)
    then show ?thesis using that unfolding in_vars_def by (meson leD order_less_le_trans)
  qed
  have z: "mem_get m a n = replicate n 0" if "unat a + n \<le> 0x9100 \<or> 0x9128 \<le> unat a \<and> unat a + n \<le> 2 ^ 32" for a n
  proof (rule nth_equalityI)
    fix i
    assume "i < length (mem_get m a n)"
    moreover from this have "unat (a + word_of_nat i) = unat a + i" using that by (intro unat_add_small) auto
    ultimately show "mem_get m a n ! i = replicate n 0 ! i" using that assms v [of "a + word_of_nat i"] by auto
  qed simp
  have n: "\<not> rsdp_at m p" if "unat p + 8 \<le> 0x9100 \<or> 0x9128 \<le> unat p \<and> unat p + 8 \<le> 2 ^ 32" for p
    using z [of "ucast p" 8] that by (simp add: rsdp_at_def le_def rev_replicate RSDP_SIGNATURE_def)
  have e: "ebda_addr m = 0" using z [of "0x40E" 2] by (simp add: ebda_addr_def le_def rev_replicate)
  then have w: "ebda_word m = 0" using z [of 0 4] by (simp add: ebda_word_def le_def rev_replicate)
  have "first_rsdp m 0xE0000 8192 = 0"
  proof (intro first_rsdp_none allI impI)
    fix k :: nat
    assume "k < 8192"
    then show "\<not> rsdp_at m (0xE0000 + 16 * word_of_nat k)" by (intro n) (simp add: bios_area_nat)
  qed
  then show ?thesis using find_rsdp_cases [of m] e w by simp
qed

lemma demo_pcs_ram [simp]: "ram demo_pcs x = 0"
  by (simp add: demo_pcs_def)

definition demo_static :: pvh_static where
  "demo_static = \<lparr>e820_entries = 5, e820_table = 0x7000, ramdisk_mod_at = 0x7a00\<rparr>"


definition long_item :: "u16 \<Rightarrow> nat \<Rightarrow> u8" where
  "long_item key i = (if key = FW_CFG_CMDLINE_SIZE then to_le 4 (4100 :: u32) ! i else if key = FW_CFG_CMDLINE_DATA then 65 else 0)"

theorem pvh_cmdline_overflow_witness:
  "\<exists>e t. pvh_load_kernel (qemu_fw_cfg long_item demo_var (0, 0, 0, 0)) demo_static demo_pcs = Some (e, t) \<and> ram t 0x9000 = 65"
proof -
  let ?pc = "qemu_fw_cfg long_item demo_var (0, 0, 0, 0)"
  have b: "cmdline_buffer ?pc = 0x8000" by (simp add: qemu_fw_cfg_def)
  have "blob long_item FW_CFG_CMDLINE_SIZE 4 = to_le 4 (4100 :: u32)" "blob long_item FW_CFG_INITRD_SIZE 4 = replicate 4 0"
    "blob long_item FW_CFG_INITRD_ADDR 4 = replicate 4 0"
    by (rule nth_equalityI; simp add: blob_def long_item_def fw_cfg_keys)+
  then have n: "num long_item FW_CFG_CMDLINE_SIZE = 4100" "num long_item FW_CFG_INITRD_SIZE = 0" "num long_item FW_CFG_INITRD_ADDR = 0"
    by (simp_all add: num_def le_to_le) (simp_all add: le_def rev_replicate)
  have c: "clear ?pc (ucast (cmdline_buffer ?pc)) (unat (num long_item FW_CFG_CMDLINE_SIZE))"
    "unat (cmdline_buffer ?pc) + unat (num long_item FW_CFG_CMDLINE_SIZE) \<le> 2 ^ 32"
    unfolding n b by (intro demo_clear) simp_all
  have "\<exists>e t. pvh_load_kernel ?pc demo_static demo_pcs = Some (e, t) \<and> ram t 0x9000 = long_item FW_CFG_CMDLINE_DATA 4096"
    using demo_no_rsdp
    by (intro pvh_cmdline_overflow [OF qemu.fw_cfg_host_axioms demo_vars c, where rsdp = 0]; simp add: n b CMDLINE_BUFSIZE_def demo_clear)
  then show ?thesis by (simp add: long_item_def fw_cfg_keys)
qed

end
