(* ===== verification/VirtioNet.thy ===== *)
theory VirtioNet
  imports Jump VirtioHost "HOL-Library.Multiset"
begin

text \<open>
  The virtio-net driver of the network boot program (\<open>virtio-net.c\<close>): \<open>virtio_net_init\<close> hands
  64 buffers to the device, \<open>send\<close> and \<open>recv\<close> move single packets. The C library of that
  program (SLOF's, with its network library) is not part of the repository; the functions the
  program takes from it are the fields of the record \<open>slof\<close>.
\<close>

section \<open>The libraries of the network boot program\<close>

text \<open>Arguments of \<open>printf\<close>.\<close>

datatype parg = Num int | Str "u8 list"

text \<open>The parts of \<open>filename_ip_t\<close> and \<open>struct pl_cfg_entry\<close> the program uses.\<close>

record filename_ip =
  own_ip :: u32
  own_ip6 :: "u8 list"
  server_ip :: u32
  server_ip6 :: "u8 list"
  ip_version :: int
  sock_fd :: s32
  filename :: "u8 list"

record pl_cfg_entry =
  pl_label :: "u8 list"
  pl_kernel :: "u8 list option"
  pl_initrd :: "u8 list option"
  pl_append :: "u8 list option"

text \<open>
  What a function may write through a pointer it is given it returns. \<open>malloc\<close> returns 0 when
  there is no memory. \<open>filename_size\<close> is the size of the array \<open>filename\<close>, \<open>eth_mtu\<close> is
  \<open>ETH_MTU_SIZE\<close>, \<open>image_start\<close> is the address \<open>_start\<close>. \<open>stsi\<close> is the inline assembly of
  \<open>get_uuid\<close>. \<open>tftp\<close> returns \<open>rc\<close>, the error, and its \<open>filename_ip\<close>.
\<close>

record ('d, 'e) slof =
  printf :: "u8 list \<Rightarrow> parg list \<Rightarrow> ('d, unit) fw"
  puts :: "u8 list \<Rightarrow> ('d, unit) fw"
  malloc :: "nat \<Rightarrow> ('d, u64) fw"
  mfree :: "u64 \<Rightarrow> ('d, unit) fw"
  srand :: "u64 \<Rightarrow> ('d, unit) fw"
  stsi :: "u32 \<Rightarrow> u32 \<Rightarrow> u64 \<Rightarrow> ('d, int) fw"
  eth_mtu :: nat
  filename_size :: nat
  image_start :: u64
  set_mac_address :: "u8 list \<Rightarrow> ('d, unit) fw"
  set_ipv4_address :: "u32 \<Rightarrow> ('d, unit) fw"
  set_ipv6_address :: "s32 \<Rightarrow> ('d, unit) fw"
  get_ipv6_address :: "('d, u8 list) fw"
  ipv6_to_str :: "u8 list \<Rightarrow> ('d, u8 list) fw"
  dhcpv4_generate_transaction_id :: "('d, unit) fw"
  dhcpv6_generate_transaction_id :: "('d, unit) fw"
  dhcpv4 :: "filename_ip \<Rightarrow> ('d, s32 \<times> filename_ip) fw"
  dhcpv6 :: "filename_ip \<Rightarrow> ('d, s32 \<times> filename_ip) fw"
  dhcp_send_release :: "s32 \<Rightarrow> ('d, unit) fw"
  tftp :: "filename_ip \<Rightarrow> u64 \<Rightarrow> s32 \<Rightarrow> nat \<Rightarrow> ('d, s32 \<times> 'e \<times> filename_ip) fw"
  tftp_get_error_info :: "filename_ip \<Rightarrow> 'e \<Rightarrow> s32 \<Rightarrow> ('d, u8 list option) fw"
  pxelinux_load_parse_cfg :: "filename_ip \<Rightarrow> u8 list \<Rightarrow> u8 list option \<Rightarrow> nat \<Rightarrow> ptr \<Rightarrow> nat \<Rightarrow> nat \<Rightarrow>
    ('d, s32 \<times> pl_cfg_entry list \<times> nat \<times> filename_ip) fw"
  pxelinux_parse_cfg :: "ptr \<Rightarrow> nat \<Rightarrow> nat \<Rightarrow> ('d, s32 \<times> pl_cfg_entry list \<times> nat) fw"

section \<open>The driver\<close>

definition VIRTIO_NET_F_MAC_BIT :: u32 where "VIRTIO_NET_F_MAC_BIT = 32"
definition VQ_RX :: nat where "VQ_RX = 0"
definition VQ_TX :: nat where "VQ_TX = 1"

text \<open>The size of \<open>VirtioNetHdr\<close>.\<close>

definition net_hdr_size :: nat where "net_hdr_size = 10"

text \<open>The loop that hands out the buffers: \<open>n\<close> are left.\<close>

fun give_buffers :: "'d hw \<Rightarrow> ('d, 'e) slof \<Rightarrow> nat \<Rightarrow> ('d, unit) fw" where
  "give_buffers hw lib 0 = ret ()"
| "give_buffers hw lib (Suc n) =
     bnd (malloc lib (eth_mtu lib + net_hdr_size)) (\<lambda>b.
     seq (IPL_assert hw (b \<noteq> 0) (lit ''Can not allocate memory for receive buffers''))
    (seq (vring_send_buf VQ_RX (Phys b) (word_of_nat (eth_mtu lib + net_hdr_size)) VRING_DESC_F_WRITE)
    (give_buffers hw lib n)))"

text \<open>The result is the MAC address that \<open>virtio_net_init\<close> stores; its return value is 0.\<close>

definition virtio_net_init :: "'d hw \<Rightarrow> ('d, 'e) slof \<Rightarrow> ('d, s32 \<times> u8 list) fw" where
  "virtio_net_init hw lib =
     seq (upd_vd (\<lambda>v. v\<lparr>guest_features := (guest_features v)[0 := VIRTIO_NET_F_MAC_BIT]\<rparr>))
    (seq (virtio_setup_ccw hw)
    (bnd (gets (\<lambda>s. guest_features (vd s) ! 0)) (\<lambda>g.
     seq (IPL_assert hw (flag_on g VIRTIO_NET_F_MAC_BIT) (lit ''virtio-net device does not support the MAC address feature''))
    (bnd (load (Buf VConfig 0) 6) (\<lambda>mac.
     seq (give_buffers hw lib 64)
    (seq (vring_notify hw VQ_RX) (ret (0, mac))))))))"

partial_function (option) send_wait :: "'d hw \<Rightarrow> ('d, unit) fw" where
  "send_wait hw s = bnd (vr_poll hw VQ_TX) (\<lambda>k. if k = 0 then seq (yield hw) (\<lambda>s. send_wait hw s) else ret ()) s"

definition net_send :: "'d hw \<Rightarrow> ('d, 'e) slof \<Rightarrow> u64 \<Rightarrow> s32 \<Rightarrow> ('d, s32) fw" where
  "net_send hw lib buf len =
     seq (memset (Scr TxHdr 0) 0 net_hdr_size)
    (seq (vring_send_buf VQ_TX (Scr TxHdr 0) (word_of_nat net_hdr_size) VRING_DESC_F_NEXT)
    (seq (vring_send_buf VQ_TX (Phys buf) len VRING_HIDDEN_IS_CHAIN)
    (seq (\<lambda>s. send_wait hw s)
    (bnd (get_vr VQ_TX) (\<lambda>vr.
     bnd (drain_irqs hw (vr_schid vr)) (\<lambda>rc.
     if rc \<noteq> 0 then seq (puts lib (lit ''send: drain irqs failed'')) (ret (-1)) else ret len))))))"

text \<open>
  \<open>seen\<close> is \<open>rx_last_idx\<close>; the result is the length and the new \<open>rx_last_idx\<close>. \<open>memcpy\<close> takes
  its size as an unsigned 64-bit number: a negative length runs over all of storage.
\<close>

definition rx_give_back :: "u16 \<Rightarrow> vring \<Rightarrow> ring_mem \<Rightarrow> string + ring_mem" where
  "rx_give_back bid vr m =
     (let slot = unat (avail_idx m) mod unat (vr_num vr) in
      if slot < length (avail_ring m)
      then Inr (m\<lparr>avail_ring := (avail_ring m)[slot := bid], avail_idx := avail_idx m + 1\<rparr>)
      else Inl ''ring index'')"

definition net_recv :: "'d hw \<Rightarrow> ('d, 'e) slof \<Rightarrow> u16 \<Rightarrow> u64 \<Rightarrow> s32 \<Rightarrow> ('d, s32 \<times> u16) fw" where
  "net_recv hw lib seen buf maxlen =
     bnd (get_vr VQ_RX) (\<lambda>vr.
     bnd (get_rm VQ_RX) (\<lambda>m.
     if seen = used_idx m then ret (0, seen)
     else if vr_num vr = 0 then stop (Bad ''division by zero'')
     else let slot = unat seen mod unat (vr_num vr) in
     if \<not> slot < length (used_ring m) then stop (Bad ''ring index'')
     else let len = snd (used_ring m ! slot) - word_of_nat net_hdr_size :: s32 in
     bnd (if sint maxlen < sint len then seq (puts lib (lit ''virtio-net: Receive buffer too small'')) (ret maxlen) else ret len) (\<lambda>len.
     bnd (get_rm VQ_RX) (\<lambda>m.
     if \<not> slot < length (used_ring m) then stop (Bad ''ring index'')
     else let bid = unat (fst (used_ring m ! slot)) mod unat (vr_num vr) in
     if \<not> bid < length (rm_desc m) then stop (Bad ''ring index'')
     else if sint len < 0 then stop (Bad ''memcpy'')
     else
     seq (memcpy (Phys buf) (ptr_add (d_addr (rm_desc m ! bid)) net_hdr_size) (unat len))
    (bnd (get_rm VQ_RX) (\<lambda>m.
     case rx_give_back (word_of_nat bid) vr m of
       Inl e \<Rightarrow> stop (Bad e)
     | Inr m' \<Rightarrow>
        seq (set_rm VQ_RX m')
       (seq (vring_notify hw VQ_RX)
       (ret (len, seen + 1)))))))))"

section \<open>Sending a packet\<close>

text \<open>The two descriptors of a packet: its header and its data.\<close>

definition packet_cmds :: "u64 \<Rightarrow> s32 \<Rightarrow> virtio_cmd list" where
  "packet_cmds buf len =
     [\<lparr>vc_data = Scr TxHdr 0, vc_size = word_of_nat net_hdr_size, vc_flags = VRING_DESC_F_NEXT\<rparr>,
      \<lparr>vc_data = Phys buf, vc_size = len, vc_flags = 0\<rparr>]"

lemma packet_cmds_chained [simp]: "chained (packet_cmds buf len)" "length (packet_cmds buf len) = 2"
  by (simp_all add: packet_cmds_def VRING_DESC_F_NEXT_def VRING_HIDDEN_IS_CHAIN_def)

lemma ret_seq: "seq (ret ()) f = f"
  by (rule ext) simp

lemma send_packet_cmds:
  "seq (vring_send_buf q (Scr TxHdr 0) (word_of_nat net_hdr_size) VRING_DESC_F_NEXT)
     (seq (vring_send_buf q (Phys buf) len VRING_HIDDEN_IS_CHAIN) f) s = bnd (send_cmds q (packet_cmds buf len) 0) (\<lambda>_. f) s"
  by (simp add: packet_cmds_def bnd_assoc_fun ret_seq VRING_DESC_F_NEXT_def)

definition clear_hdr :: "'d machine \<Rightarrow> 'd machine" where
  "clear_hdr s = s\<lparr>io := (io s)\<lparr>scr := (scr (io s))(TxHdr := replicate 10 0)\<rparr>\<rparr>"

lemma idle_clear_hdr [simp]: "idle q (clear_hdr s) = idle q s"
  by (simp add: idle_def clear_hdr_def)

lemma clear_hdr_memset:
  "length (scr (io s) TxHdr) = 10 \<Longrightarrow> memset (Scr TxHdr 0) 0 net_hdr_size s = Some (Ret (), clear_hdr s)"
  by (simp add: memset_def net_hdr_size_def clear_hdr_def)

context ring_host begin

lemma send_wait_served:
  assumes "idle VQ_TX s" "chained cs" "length cs \<le> 4"
  shows "send_wait hw (sent VQ_TX 0 cs s) = Some (Ret (), served VQ_TX cs s)"
proof -
  obtain u where "vr_poll hw VQ_TX (sent VQ_TX 0 cs s) = Some (Ret 0, u)" "vr_poll hw VQ_TX u = Some (Ret 1, served VQ_TX cs s)"
    using vr_poll_sent [OF assms] vr_poll_served [OF assms] by blast
  then have "send_wait hw (sent VQ_TX 0 cs s) = send_wait hw u" "send_wait hw u = Some (Ret (), served VQ_TX cs s)"
    by (subst send_wait.simps, simp add: bnd_Ret ret_def)+
  then show ?thesis by simp
qed

lemma net_send_served:
  assumes "idle VQ_TX s" "length (scr (io s) TxHdr) = 10"
  shows "net_send hw lib buf len s = Some (Ret len, served VQ_TX (packet_cmds buf len) (clear_hdr s))"
proof -
  let ?s = "clear_hdr s" and ?cs = "packet_cmds buf len"
  have i: "idle VQ_TX ?s" using assms(1) by simp
  then have "send_cmds VQ_TX ?cs 0 ?s = Some (Ret (), sent VQ_TX 0 ?cs ?s)"
    by (intro send_cmds_sent) (auto simp: idle_def Let_def ring_wf_def)
  moreover have "has_ring VQ_TX (served VQ_TX ?cs ?s)"
    using served_ring_idle [OF i, of ?cs] by (simp add: idle_def)
  ultimately show ?thesis
    unfolding net_send_def bnd_Ret [of "memset (Scr TxHdr 0) 0 net_hdr_size" s, OF clear_hdr_memset [OF assms(2)]]
      send_packet_cmds
    by (simp add: bnd_Ret send_wait_served [OF i] get_vr_def ret_def)
qed

end


section \<open>The receive buffers\<close>

text \<open>
  The receive ring as driver and device work it: the device takes the next buffer of the
  available ring, from its position \<open>h\<close>, and returns it by the used ring; \<open>recv\<close> takes it from
  there, from \<open>rx_last_idx\<close>, and makes it available again. All indices count modulo $2^{16}$.
\<close>

definition window :: "'a list \<Rightarrow> u16 \<Rightarrow> u16 \<Rightarrow> 'a list" where
  "window xs i j = map (\<lambda>k. xs ! (unat (i + word_of_nat k) mod length xs)) [0..<unat (j - i)]"

definition ids_avail :: "ring_mem \<Rightarrow> u16 \<Rightarrow> nat list" where
  "ids_avail m h = map unat (window (avail_ring m) h (avail_idx m))"

definition ids_used :: "ring_mem \<Rightarrow> u16 \<Rightarrow> nat list" where
  "ids_used m seen = map (\<lambda>e. unat (fst e)) (window (used_ring m) seen (used_idx m))"

text \<open>One step of the ring: the device fills a buffer, or a call of \<open>recv\<close> empties one.\<close>

inductive rx_step :: "vring \<Rightarrow> ring_mem \<times> u16 \<times> u16 \<Rightarrow> ring_mem \<times> u16 \<times> u16 \<Rightarrow> bool" for vr where
  device_fills: "h \<noteq> avail_idx m \<Longrightarrow>
     rx_step vr (m, seen, h) (m\<lparr>used_ring := (used_ring m)[unat (used_idx m) mod length (used_ring m) :=
         (ucast (avail_ring m ! (unat h mod length (avail_ring m))), len)], used_idx := used_idx m + 1\<rparr>, seen, h + 1)"
| recv_empties: "seen \<noteq> used_idx m \<Longrightarrow>
     bid = unat (fst (used_ring m ! (unat seen mod unat (vr_num vr)))) mod unat (vr_num vr) \<Longrightarrow>
     rx_give_back (word_of_nat bid) vr m = Inr m' \<Longrightarrow> rx_step vr (m, seen, h) (m', seen + 1, h)"

text \<open>Every one of the \<open>b\<close> buffers has one owner; the rings have room for all of them.\<close>

definition rx_inv :: "vring \<Rightarrow> nat \<Rightarrow> ring_mem \<times> u16 \<times> u16 \<Rightarrow> bool" where
  "rx_inv vr b st = (case st of (m, seen, h) \<Rightarrow>
     length (used_ring m) = length (avail_ring m) \<and> unat (vr_num vr) = length (avail_ring m) \<and>
     length (avail_ring m) dvd 65536 \<and> length (avail_ring m) < 65536 \<and> b \<le> length (avail_ring m) \<and>
     mset (ids_avail m h @ ids_used m seen) = mset [0..<b])"

lemma length_window [simp]: "length (window xs i j) = unat (j - i)"
  by (simp add: window_def)

lemma idx_mod:
  assumes "n dvd 65536"
  shows "unat (h + word_of_nat k :: u16) mod n = (unat h + k) mod n"
proof -
  have "unat (h + word_of_nat k :: u16) = (unat h + k) mod 65536"
    by (simp add: unat_word_ariths unat_of_nat take_bit_eq_mod mod_simps)
  then show ?thesis using assms by (simp add: mod_mod_cancel)
qed

lemma unat_ucast_16: "unat (ucast (x :: u16) :: u32) = unat x"
  using unsigned_less [of x, where ?'a = nat] by (simp add: unsigned_ucast_eq take_bit_nat_eq_self)

lemma window_cons:
  assumes "i \<noteq> j"
  shows "window xs i j = xs ! (unat i mod length xs) # window xs (i + 1) j"
proof -
  have "j - i \<noteq> 0" using assms by simp
  then have "unat (j - i) = Suc (unat (j - (i + 1)))"
    by (simp add: unat_minus_one diff_diff_eq [symmetric] unat_gt_0)
  moreover have "i + word_of_nat (Suc k) = i + 1 + word_of_nat k" for k by (simp add: ac_simps)
  ultimately show ?thesis by (simp add: window_def upt_conv_Cons map_Suc_upt [symmetric] add.assoc del: upt_Suc of_nat_Suc)
qed

lemma window_snoc:
  assumes "length xs dvd 65536" "length xs < 65536" "unat (j - i) < length xs"
  shows "window (xs[unat j mod length xs := x]) i (j + 1) = window xs i j @ [x]"
proof -
  let ?n = "length xs" and ?d = "unat (j - i)"
  have e: "j + 1 - i = (j - i) + 1" by simp
  have "unat ((j - i) + 1) = Suc ?d" using assms(2, 3) unfolding unat_word_ariths by simp
  then have "unat (j + 1 - i) = Suc ?d" unfolding e .
  moreover have j: "j = i + word_of_nat ?d" by simp
  then have jn: "unat j mod ?n = (unat i + ?d) mod ?n" using idx_mod [OF assms(1), of i ?d] by simp
  have "unat j mod ?n \<noteq> unat (i + word_of_nat k) mod ?n" if "k < ?d" for k
  proof
    assume "unat j mod ?n = unat (i + word_of_nat k) mod ?n"
    then have "(unat i + ?d) mod ?n = (unat i + k) mod ?n" unfolding jn idx_mod [OF assms(1)] by simp
    then have "?n dvd ?d - k" using that by (subst (asm) mod_eq_dvd_iff_nat) auto
    then show False using that assms(3) by (auto dest: dvd_imp_le)
  qed
  moreover have "0 < ?n" using assms(3) by (metis neq0_conv not_less_zero)
  ultimately show ?thesis using jn idx_mod [OF assms(1), of i ?d] by (simp add: window_def nth_append)
qed

lemma rx_inv_step:
  assumes "rx_step vr st st'" "rx_inv vr b st"
  shows "rx_inv vr b st'"
  using assms
proof cases
  case (device_fills h m seen len)
  let ?n = "length (avail_ring m)" and ?x = "avail_ring m ! (unat h mod length (avail_ring m))"
  have i: "length (used_ring m) = ?n" "?n dvd 65536" "?n < 65536" "b \<le> ?n" "mset (ids_avail m h @ ids_used m seen) = mset [0..<b]"
    using assms(2) by (simp_all add: device_fills(1) rx_inv_def)
  have a: "ids_avail m h = unat ?x # ids_avail m (h + 1)"
    unfolding ids_avail_def window_cons [OF device_fills(3)] by simp
  have "size (mset (ids_avail m h @ ids_used m seen)) = b" unfolding i(5) by simp
  then have "length (ids_used m seen) < ?n" using a i(4) by simp
  then have "unat (used_idx m - seen) < length (used_ring m)" using i(1) by (simp add: ids_used_def)
  from window_snoc [OF _ _ this] i(1-3)
  have u: "ids_used (m\<lparr>used_ring := (used_ring m)[unat (used_idx m) mod length (used_ring m) := (ucast ?x, len)], used_idx := used_idx m + 1\<rparr>) seen
      = ids_used m seen @ [unat ?x]"
    by (simp add: ids_used_def unat_ucast_16)
  have v: "ids_avail (m\<lparr>used_ring := x, used_idx := y\<rparr>) (h + 1) = ids_avail m (h + 1)" for x y by (simp add: ids_avail_def)
  let ?m = "m\<lparr>used_ring := (used_ring m)[unat (used_idx m) mod length (used_ring m) := (ucast ?x, len)], used_idx := used_idx m + 1\<rparr>"
  have "mset (ids_avail ?m (h + 1) @ ids_used ?m seen) = mset (ids_avail m h @ ids_used m seen)" unfolding u v a by simp
  then have "mset (ids_avail ?m (h + 1) @ ids_used ?m seen) = mset [0..<b]" unfolding i(5) .
  then show ?thesis using assms(2) unfolding device_fills(1, 2) rx_inv_def prod.case by simp
next
  case (recv_empties seen m bid m' h)
  let ?n = "length (avail_ring m)" and ?e = "used_ring m ! (unat seen mod length (used_ring m))"
  have i: "length (used_ring m) = ?n" "?n dvd 65536" "?n < 65536" "b \<le> ?n" "unat (vr_num vr) = ?n"
    "mset (ids_avail m h @ ids_used m seen) = mset [0..<b]"
    using assms(2) by (simp_all add: recv_empties(1) rx_inv_def)
  have u: "ids_used m seen = unat (fst ?e) # ids_used m (seen + 1)"
    unfolding ids_used_def window_cons [OF recv_empties(3)] by simp
  have "unat (fst ?e) \<in># mset (ids_avail m h @ ids_used m seen)" using u by simp
  then have lt: "unat (fst ?e) < b" unfolding i(6) by simp
  then have bid: "bid = unat (fst ?e)" using recv_empties(4) i(1, 4, 5) by simp
  then have w: "unat (word_of_nat bid :: u16) = unat (fst ?e)"
    using lt i(3, 4) bid unat_of_nat [of bid, where ?'a = 16] by (simp only: take_bit_nat_eq_self_iff) simp
  have m': "m' = m\<lparr>avail_ring := (avail_ring m)[unat (avail_idx m) mod ?n := word_of_nat bid], avail_idx := avail_idx m + 1\<rparr>"
    using recv_empties(5) i(5) by (simp add: rx_give_back_def Let_def split: if_splits)
  have "size (mset (ids_avail m h @ ids_used m seen)) = b" unfolding i(6) by simp
  then have "unat (avail_idx m - h) < ?n" using u i(4) by (simp add: ids_avail_def)
  then have a: "ids_avail m' h = ids_avail m h @ [unat (fst ?e)]"
    using window_snoc [OF i(2, 3)] w by (simp add: m' ids_avail_def)
  have v: "ids_used m' (seen + 1) = ids_used m (seen + 1)" by (simp add: m' ids_used_def)
  have "mset (ids_avail m' h @ ids_used m' (seen + 1)) = mset (ids_avail m h @ ids_used m seen)" unfolding u v a by simp
  then have "mset (ids_avail m' h @ ids_used m' (seen + 1)) = mset [0..<b]" unfolding i(6) .
  then show ?thesis using assms(2) m' unfolding recv_empties(1, 2) rx_inv_def prod.case by simp
qed

lemma rx_inv_owned:
  assumes "rx_inv vr b (m, seen, h)"
  shows "distinct (ids_avail m h @ ids_used m seen)" "set (ids_avail m h @ ids_used m seen) = {0..<b}"
    "\<exists>m'. rx_give_back bid vr m = Inr m'"
proof -
  from assms have e: "mset (ids_avail m h @ ids_used m seen) = mset [0..<b]" and n: "unat (vr_num vr) = length (avail_ring m)"
    by (simp_all add: rx_inv_def)
  show "distinct (ids_avail m h @ ids_used m seen)" using mset_eq_imp_distinct_iff [OF e] by simp
  show "set (ids_avail m h @ ids_used m seen) = {0..<b}" using mset_eq_setD [OF e] by simp
  have "length (avail_ring m) \<noteq> 0" using assms by (auto simp: rx_inv_def)
  then show "\<exists>m'. rx_give_back bid vr m = Inr m'" by (simp add: rx_give_back_def n Let_def)
qed

lemma rx_inv_steps: "(rx_step vr)\<^sup>*\<^sup>* st st' \<Longrightarrow> rx_inv vr b st \<Longrightarrow> rx_inv vr b st'"
  by (induction rule: rtranclp_induct) (auto intro: rx_inv_step)

text \<open>A receive ring in which the buffers up to \<open>k\<close> are available and none is used.\<close>

definition rx_given :: "nat \<Rightarrow> ring_mem \<Rightarrow> vring \<Rightarrow> bool" where
  "rx_given k m v \<longleftrightarrow> length (rm_desc m) = length (avail_ring m) \<and> length (used_ring m) = length (avail_ring m) \<and>
     unat (vr_num v) = length (avail_ring m) \<and> length (avail_ring m) dvd 65536 \<and> length (avail_ring m) < 65536 \<and>
     used_idx m = 0 \<and> avail_idx m = word_of_nat k \<and> next_idx v = word_of_nat k \<and> k \<le> length (avail_ring m) \<and>
     (\<forall>i<k. avail_ring m ! i = word_of_nat i)"

lemma rx_given_inv:
  assumes "rx_given b m v"
  shows "rx_inv v b (m, 0, 0)"
proof -
  have "unat (word_of_nat b :: u16) = b" using assms by (simp add: rx_given_def unat_of_nat take_bit_nat_eq_self)
  then have "ids_avail m 0 = [0..<b]"
    using assms by (intro nth_equalityI)
      (auto simp: rx_given_def ids_avail_def window_def unat_of_nat take_bit_nat_eq_self)
  then show ?thesis using assms by (simp add: rx_given_def rx_inv_def ids_used_def window_def)
qed

text \<open>\<open>malloc\<close> finds memory and leaves the rings alone.\<close>

locale net_lib =
  fixes lib :: "('d, 'e) slof"
  assumes malloc_ok: "\<exists>a t. malloc lib n s = Some (Ret a, t) \<and> a \<noteq> 0 \<and> rmem (io t) = rmem (io s) \<and> vrings (io t) = vrings (io s)"
begin

lemma send_buf_given:
  assumes "rx_given k m v" "k < length (avail_ring m)"
  shows "\<exists>m'. send_buf_ring v p len VRING_DESC_F_WRITE m = Inr m' \<and> rx_given (Suc k) m' (v\<lparr>next_idx := next_idx v + 1\<rparr>)"
proof -
  have k: "unat (word_of_nat k :: u16) = k" "unat (word_of_nat k :: s32) = k"
    using assms by (simp_all add: rx_given_def unat_of_nat take_bit_nat_eq_self)
  have u: "(ucast (word_of_nat k :: s32) :: u16) = word_of_nat k" by (rule bit_word_eqI) (auto simp: bit_simps)
  have "vr_num v \<noteq> 0" using assms by (auto simp: rx_given_def)
  then show ?thesis
    using assms k u by (auto simp: rx_given_def send_buf_ring_def Let_def VRING_DESC_F_WRITE_def VRING_HIDDEN_IS_CHAIN_def
      VRING_DESC_F_NEXT_def nth_list_update less_Suc_eq)
qed

lemma give_buffers_ok:
  assumes "0 < length (rmem (io s))" "0 < length (vrings (io s))" "rx_given k (rmem (io s) ! 0) (vrings (io s) ! 0)"
    and "k + n \<le> length (avail_ring (rmem (io s) ! 0))"
  shows "\<exists>t. give_buffers hw lib n s = Some (Ret (), t) \<and> rx_given (k + n) (rmem (io t) ! 0) (vrings (io t) ! 0)"
  using assms
proof (induction n arbitrary: s k)
  case (Suc n)
  obtain a s1 where a: "malloc lib (eth_mtu lib + net_hdr_size) s = Some (Ret a, s1)" "a \<noteq> 0" "rmem (io s1) = rmem (io s)" "vrings (io s1) = vrings (io s)"
    using malloc_ok by blast
  let ?v = "vrings (io s) ! 0" and ?m = "rmem (io s) ! 0"
  have l: "k < length (avail_ring ?m)" using Suc.prems(4) by simp
  obtain m' where m': "send_buf_ring ?v (Phys a) (word_of_nat (eth_mtu lib + net_hdr_size)) VRING_DESC_F_WRITE ?m = Inr m'"
    "rx_given (Suc k) m' (?v\<lparr>next_idx := next_idx ?v + 1\<rparr>)"
    using send_buf_given [OF Suc.prems(3) l] by blast
  let ?t = "s1\<lparr>io := (io s1)\<lparr>rmem := (rmem (io s))[0 := m'], vrings := (vrings (io s))[0 := ?v\<lparr>next_idx := next_idx ?v + 1\<rparr>]\<rparr>\<rparr>"
  have "give_buffers hw lib (Suc n) s = give_buffers hw lib n ?t"
    using a m'(1) Suc.prems(1, 2)
    by (simp add: bnd_Ret IPL_assert_def vring_send_buf_def VQ_RX_def get_vr_def get_rm_def set_rm_def set_vr_def)
  moreover have "length (avail_ring m') = length (avail_ring ?m)" using m'(2) Suc.prems(3) by (simp add: rx_given_def)
  then have "\<exists>t. give_buffers hw lib n ?t = Some (Ret (), t) \<and> rx_given (Suc k + n) (rmem (io t) ! 0) (vrings (io t) ! 0)"
    using m'(2) Suc.prems by (intro Suc.IH) simp_all
  ultimately show ?case by simp
qed (simp add: ret_def)

end


section \<open>A packet\<close>

definition rx_filled :: "'d machine \<Rightarrow> u16 \<Rightarrow> nat \<Rightarrow> u32 \<Rightarrow> bool" where
  "rx_filled s seen bid len \<longleftrightarrow>
     (let m = rmem (io s) ! 0; n = unat (vr_num (vrings (io s) ! 0)) in
      0 < length (rmem (io s)) \<and> 0 < length (vrings (io s)) \<and> 0 < n \<and> n < 65536 \<and> seen \<noteq> used_idx m \<and>
      length (used_ring m) = n \<and> length (avail_ring m) = n \<and> length (rm_desc m) = n \<and> bid < n \<and>
      used_ring m ! (unat seen mod n) = (word_of_nat bid, len))"

text \<open>A notification only tells the device that there is work; it works on later.\<close>

definition only_told :: "'d hw \<Rightarrow> bool" where
  "only_told hw \<longleftrightarrow> (\<forall>nr a b c p. snd (hypercall hw nr a b c p) = p)"

lemma vring_notify_told:
  assumes "only_told hw" "i < length (vrings (io s))"
  obtains c where "vring_notify hw i s = Some (Ret (0 \<le> sint c), s\<lparr>io := (io s)\<lparr>vrings := (vrings (io s))[i := (vrings (io s) ! i)\<lparr>vr_cookie := c\<rparr>]\<rparr>\<rparr>)"
proof -
  let ?v = "vrings (io s) ! i"
  let ?h = "hypercall hw KVM_S390_VIRTIO_CCW_NOTIFY (ucast (schid_u32 (vr_schid ?v))) (int_to_u64 (vr_id ?v)) (vr_cookie ?v) (to_plat s)"
  have "snd ?h = to_plat s" using assms(1) by (simp add: only_told_def)
  then have "vring_notify hw i s = Some (Ret (0 \<le> sint (fst ?h)), s\<lparr>io := (io s)\<lparr>vrings := (vrings (io s))[i := ?v\<lparr>vr_cookie := fst ?h\<rparr>]\<rparr>\<rparr>)"
    using assms(2) by (simp add: vring_notify_def get_vr_def bnd_Ret virtio_notify_def kvm_hypercall_def plat_op_eq set_vr_def bnd_def ret_def modify_def)
  then show ?thesis by (rule that)
qed

text \<open>
  \<open>recv\<close> copies the packet, without the header of ten bytes, from the buffer the device names
  to the caller's buffer, returns its length and gives the buffer back to the device.
\<close>

lemma net_recv_packet:
  assumes "only_told hw" "rx_filled s seen bid (word_of_nat (k + 10))" "d_addr (rm_desc (rmem (io s) ! 0) ! bid) = Phys a"
    and "k \<le> unat maxlen" "unat maxlen < 2 ^ 31"
  shows "\<exists>t. net_recv hw lib seen buf maxlen s = Some (Ret (word_of_nat k, seen + 1), t) \<and>
    mem t = mem_put buf (mem_get (mem s) (a + 10) k) (mem s) \<and>
    (let m = rmem (io s) ! 0; n = length (avail_ring m)
     in rmem (io t) ! 0 = m\<lparr>avail_ring := (avail_ring m)[unat (avail_idx m) mod n := word_of_nat bid], avail_idx := avail_idx m + 1\<rparr>)"
proof -
  let ?m = "rmem (io s) ! 0" and ?v = "vrings (io s) ! 0"
  let ?n = "unat (vr_num ?v)"
  have f: "0 < length (rmem (io s))" "0 < length (vrings (io s))" "0 < ?n" "?n < 65536" "seen \<noteq> used_idx ?m" "length (used_ring ?m) = ?n"
    "length (avail_ring ?m) = ?n" "length (rm_desc ?m) = ?n" "bid < ?n" "used_ring ?m ! (unat seen mod ?n) = (word_of_nat bid, word_of_nat (k + 10))"
    using assms(2) by (simp_all add: rx_filled_def Let_def)
  have n0: "vr_num ?v \<noteq> 0" using f(3) by auto
  have len: "word_of_nat (k + 10) - word_of_nat net_hdr_size = (word_of_nat k :: s32)" by (simp add: net_hdr_size_def)
  have k: "unat (word_of_nat k :: s32) = k" using assms(4, 5) by (simp add: unat_of_nat take_bit_nat_eq_self)
  have sk: "sint (word_of_nat k :: s32) = int k" using sint_small [of "word_of_nat k"] k assms(4, 5) by simp
  have sm: "sint maxlen = int (unat maxlen)" using sint_small assms(5) by blast
  have ns: "\<not> sint maxlen < sint (word_of_nat k :: s32)" "\<not> sint (word_of_nat k :: s32) < 0"
    unfolding sk sm using assms(4) by (simp_all only: of_nat_less_iff not_less of_nat_0_le_iff)
  have b: "unat (word_of_nat bid :: u32) mod ?n = bid" using f(4, 9) by (simp add: unat_of_nat take_bit_nat_eq_self)
  let ?m' = "?m\<lparr>avail_ring := (avail_ring ?m)[unat (avail_idx ?m) mod ?n := word_of_nat bid], avail_idx := avail_idx ?m + 1\<rparr>"
  have g: "rx_give_back (word_of_nat bid) ?v ?m = Inr ?m'" using f(3, 7) by (simp add: rx_give_back_def Let_def)
  let ?s = "s\<lparr>mem := mem_put buf (mem_get (mem s) (a + 10) k) (mem s), io := (io s)\<lparr>rmem := (rmem (io s))[0 := ?m']\<rparr>\<rparr>"
  have l: "0 < length (vrings (io ?s))" using f(2) by simp
  obtain c where c: "vring_notify hw 0 ?s =
      Some (Ret (0 \<le> sint c), ?s\<lparr>io := (io ?s)\<lparr>vrings := (vrings (io ?s))[0 := (vrings (io ?s) ! 0)\<lparr>vr_cookie := c\<rparr>]\<rparr>\<rparr>)"
    using vring_notify_told [OF assms(1) l] by blast
  have "net_recv hw lib seen buf maxlen s =
      Some (Ret (word_of_nat k, seen + 1), ?s\<lparr>io := (io ?s)\<lparr>vrings := (vrings (io ?s))[0 := (vrings (io ?s) ! 0)\<lparr>vr_cookie := c\<rparr>]\<rparr>\<rparr>)"
    using f n0 b c ns assms(3)
    unfolding net_recv_def VQ_RX_def Let_def
    by (simp add: get_vr_def get_rm_def bnd_Ret len g k memcpy_def net_hdr_size_def set_rm_def ret_def)
  then show ?thesis using f(1, 7) by (simp add: Let_def)
qed

text \<open>
  A device that reports fewer bytes than the header has makes \<open>recv\<close> copy a negative number.
\<close>

lemma net_recv_short:
  assumes "rx_filled s seen bid len" "unat len < 10" "0 \<le> sint maxlen"
  shows "net_recv hw lib seen buf maxlen s = Some (Stop (Bad ''memcpy''), s)"
proof -
  let ?m = "rmem (io s) ! 0" and ?v = "vrings (io s) ! 0"
  let ?n = "unat (vr_num ?v)"
  have f: "0 < length (rmem (io s))" "0 < length (vrings (io s))" "0 < ?n" "?n < 65536" "seen \<noteq> used_idx ?m" "length (used_ring ?m) = ?n"
    "length (rm_desc ?m) = ?n" "bid < ?n" "used_ring ?m ! (unat seen mod ?n) = (word_of_nat bid, len)"
    using assms(1) by (simp_all add: rx_filled_def Let_def)
  have n0: "vr_num ?v \<noteq> 0" using f(3) by auto
  have b: "unat (word_of_nat bid :: u32) mod ?n = bid" using f(4, 8) by (simp add: unat_of_nat take_bit_nat_eq_self)
  have neg: "sint (len - 10) < 0"
  proof -
    obtain j where j: "len = word_of_nat j" "j < 10"
    proof
      show "len = word_of_nat (unat len)" by simp
      show "unat len < 10" by (rule assms(2))
    qed
    then have "j = 0 \<or> j = 1 \<or> j = 2 \<or> j = 3 \<or> j = 4 \<or> j = 5 \<or> j = 6 \<or> j = 7 \<or> j = 8 \<or> j = 9"
      unfolding eval_nat_numeral less_Suc_eq by auto
    then show ?thesis unfolding j(1) by (elim disjE) simp_all
  qed
  then have "\<not> sint maxlen < sint (len - 10)" using assms(3) by simp
  with neg show ?thesis
    using f n0 b unfolding net_recv_def VQ_RX_def Let_def
    by (simp add: get_vr_def get_rm_def bnd_Ret net_hdr_size_def stop_def)
qed

section \<open>A ring with a packet\<close>

text \<open>A library that finds memory, and hardware in which nothing happens by itself.\<close>

definition demo_lib :: "(nat, unit) slof" where
  "demo_lib = \<lparr>printf = (\<lambda>f a. ret ()), puts = (\<lambda>t. ret ()), malloc = (\<lambda>n. ret 0x5000), mfree = (\<lambda>a. ret ()),
     srand = (\<lambda>x. ret ()), stsi = (\<lambda>a b p. ret 3), eth_mtu = 1518, filename_size = 256, image_start = 0x7e00000,
     set_mac_address = (\<lambda>m. ret ()), set_ipv4_address = (\<lambda>a. ret ()), set_ipv6_address = (\<lambda>a. ret ()),
     get_ipv6_address = ret (replicate 16 0), ipv6_to_str = (\<lambda>a. ret []), dhcpv4_generate_transaction_id = ret (),
     dhcpv6_generate_transaction_id = ret (),
     dhcpv4 = (\<lambda>f. ret (- 1, f)), dhcpv6 = (\<lambda>f. ret (- 1, f)), dhcp_send_release = (\<lambda>f. ret ()),
     tftp = (\<lambda>f a n r. ret (- 1, (), f)), tftp_get_error_info = (\<lambda>f e rc. ret None),
     pxelinux_load_parse_cfg = (\<lambda>f m u r c n k. ret (0, [], 0, f)),
     pxelinux_parse_cfg = (\<lambda>c n k. ret (0, [], 0))\<rparr>"

interpretation demo_lib: net_lib demo_lib
  by unfold_locales (simp add: demo_lib_def ret_def)

text \<open>A host that takes packets and counts them.\<close>

definition count_hw :: "nat hw" where
  "count_hw = no_hw\<lparr>hypercall := (\<lambda>nr a q c p. (c, if nr = KVM_S390_VIRTIO_CCW_NOTIFY
       then answered (\<lambda>c p. p\<lparr>p_dev := Suc (p_dev p)\<rparr>) (unat q) p else p)),
     tsch := (\<lambda>sch p. ((1, \<lparr>irb_scsw = \<lparr>ctrl = 0, scsw_cpa = 0, dstat = 0xc, cstat = 0\<rparr>\<rparr>), p))\<rparr>"

interpretation count_hw: ring_host count_hw "\<lambda>c p. p\<lparr>p_dev := Suc (p_dev p)\<rparr>" 0
  by unfold_locales (simp_all add: count_hw_def no_hw_def)

definition tx_machine :: "nat machine" where
  "tx_machine = (blank 0)\<lparr>io := (io (blank 0))\<lparr>
     rmem := replicate 3 (blank_ring\<lparr>rm_desc := replicate 64 \<lparr>d_addr = Phys 0, d_len = 0, d_flags = 0, d_next = 0\<rparr>,
       avail_ring := replicate 64 0, used_ring := replicate 64 (0, 0)\<rparr>),
     vrings := replicate 3 (blank_vring\<lparr>vr_num := 64, vr_id := 1\<rparr>)\<rparr>\<rparr>"


definition rx_machine :: "nat machine" where
  "rx_machine = (blank 0)\<lparr>io := (io (blank 0))\<lparr>rmem := [blank_ring\<lparr>
       rm_desc := replicate 64 \<lparr>d_addr = Phys 0x5000, d_len = 1528, d_flags = 2, d_next = 0\<rparr>,
       avail_ring := replicate 64 0, used_ring := replicate 64 (3, 52)\<rparr>],
     vrings := [blank_vring\<lparr>vr_num := 64\<rparr>]\<rparr>\<rparr>"


lemma net_recv_packet_witness:
  "\<exists>t. net_recv no_hw demo_lib 65535 0x20000 1518 rx_machine = Some (Ret (42, 0), t) \<and> avail_ring (rmem (io t) ! 0) ! 0 = 3"
proof -
  have r: "rx_filled rx_machine 65535 3 (word_of_nat (42 + 10))"
    by (simp add: rx_filled_def rx_machine_def blank_ring_def blank_vring_def Let_def)
  have a: "d_addr (rm_desc (rmem (io rx_machine) ! 0) ! 3) = Phys 0x5000"
    by (simp add: rx_machine_def)
  have "only_told (no_hw :: nat hw)" by (simp add: only_told_def no_hw_def)
  from net_recv_packet [OF this r a, of "1518" demo_lib "0x20000"]
  show ?thesis by (auto simp: Let_def rx_machine_def blank_ring_def)
qed

end
