(* ===== verification/NetMain.thy ===== *)
theory NetMain
  imports VirtioNet
begin

text \<open>
  The network boot program (\<open>netmain.c\<close>): an address by DHCP, the kernel by TFTP, alone or
  with the ramdisk and command line of a pxelinux configuration, or as the list of a .INS
  file. The static variables \<open>mac\<close> and \<open>dest_timer\<close> are passed along explicitly, \<open>net_schid\<close>
  is the subchannel of the machine, \<open>cfgbuf\<close> its buffer \<open>CfgBuf\<close>. A C string outside the
  machine is the list of its bytes without the NUL.
\<close>

section \<open>Strings\<close>

text \<open>
  \<open>strchr\<close>: \<open>None\<close> if it runs past the object, else where the byte is, if it is in the string.
\<close>

fun strchr :: "u8 \<Rightarrow> u8 list \<Rightarrow> nat option option" where
  "strchr c [] = None"
| "strchr c (b # bs) =
     (if b = c then Some (Some 0) else if b = 0 then Some None else map_option (map_option Suc) (strchr c bs))"

definition strncpy :: "nat \<Rightarrow> u8 list \<Rightarrow> u8 list" where
  "strncpy n src = take n (src @ replicate n 0)"

definition tolower :: "u8 \<Rightarrow> u8" where
  "tolower b = (if 65 \<le> b \<and> b \<le> 90 then b + 32 else b)"

text \<open>\<open>strncmp\<close> and \<open>strncasecmp\<close> with a literal of \<open>n\<close> bytes as the first string: are they equal?\<close>

definition starts_with :: "u8 list \<Rightarrow> u8 list \<Rightarrow> bool" where
  "starts_with p bs \<longleftrightarrow> take (length p) bs = p"

text \<open>\<open>atol\<close>: white space, a sign, decimal digits. C leaves values beyond \<open>long\<close> undefined; here they wrap.\<close>

definition isspace :: "u8 \<Rightarrow> bool" where
  "isspace b \<longleftrightarrow> b = 32 \<or> 9 \<le> b \<and> b \<le> 13"

fun atol_digits :: "u64 \<Rightarrow> u8 list \<Rightarrow> u64" where
  "atol_digits v (b # bs) = (if isdigit b then atol_digits (10 * v + ucast (b - 48)) bs else v)"
| "atol_digits v [] = v"

definition atol :: "u8 list \<Rightarrow> u64" where
  "atol bs = (case dropWhile isspace bs of
       [] \<Rightarrow> 0
     | b # r \<Rightarrow> if b = 45 then - atol_digits 0 r else if b = 43 then atol_digits 0 r else atol_digits 0 (b # r))"

text \<open>A string in \<open>cfgbuf\<close>: its length, and where a byte of it is.\<close>

definition strlen_at :: "nat \<Rightarrow> ('d, nat) fw" where
  "strlen_at i = bnd (gets (\<lambda>s. strlen (drop i (bufs s CfgBuf)))) (\<lambda>r.
     case r of None \<Rightarrow> stop (Bad ''string'') | Some n \<Rightarrow> ret n)"

definition strchr_at :: "u8 \<Rightarrow> nat \<Rightarrow> ('d, nat option) fw" where
  "strchr_at c i = bnd (gets (\<lambda>s. strchr c (drop i (bufs s CfgBuf)))) (\<lambda>r.
     case r of None \<Rightarrow> stop (Bad ''string'') | Some p \<Rightarrow> ret (map_option (\<lambda>k. i + k) p))"

definition str_at :: "'d machine \<Rightarrow> nat \<Rightarrow> u8 list" where
  "str_at s i = c_str (drop i (bufs s CfgBuf))"

section \<open>Timers\<close>

text \<open>The argument and the result stand for \<open>dest_timer\<close>.\<close>

definition set_timer :: "'d hw \<Rightarrow> s32 \<Rightarrow> ('d, u64) fw" where
  "set_timer hw val = bnd (get_time_ms hw) (\<lambda>t. ret (t + int_to_u64 val))"

definition get_timer :: "'d hw \<Rightarrow> u64 \<Rightarrow> ('d, s32) fw" where
  "get_timer hw dest_timer = bnd (get_time_ms hw) (\<lambda>t. ret (ucast (dest_timer - t)))"

definition get_sec_ticks :: s32 where "get_sec_ticks = 1000"

section \<open>DHCP\<close>

definition DEFAULT_BOOT_RETRIES :: nat where "DEFAULT_BOOT_RETRIES = 10"
definition DEFAULT_TFTP_RETRIES :: nat where "DEFAULT_TFTP_RETRIES = 20"

text \<open>One round of the loop of \<open>dhcp\<close>; the result is -1 when neither protocol got an answer.\<close>

definition dhcp_round :: "('d, 'e) slof \<Rightarrow> filename_ip \<Rightarrow> ('d, s32 \<times> filename_ip) fw" where
  "dhcp_round lib fn_ip =
     bnd (dhcpv4 lib (fn_ip\<lparr>ip_version := 4\<rparr>)) (\<lambda>(rc, fn_ip).
     if rc \<noteq> -1 then ret (rc, fn_ip)
     else seq (set_ipv6_address lib (sock_fd fn_ip))
         (bnd (dhcpv6 lib (fn_ip\<lparr>ip_version := 6\<rparr>)) (\<lambda>(rc, fn_ip).
          if rc = 0 then bnd (get_ipv6_address lib) (\<lambda>a. ret (rc, fn_ip\<lparr>own_ip6 := take 16 a\<rparr>))
          else ret (rc, fn_ip))))"

text \<open>The loop: \<open>n\<close> is \<open>i - 1\<close>, the number it shows.\<close>

fun dhcp_loop :: "('d, 'e) slof \<Rightarrow> nat \<Rightarrow> nat \<Rightarrow> filename_ip \<Rightarrow> ('d, s32 \<times> filename_ip) fw" where
  "dhcp_loop lib retries 0 fn_ip =
     seq (printf lib ([8, 8, 8] @ lit ''%03d'') [Num 0])
    (seq (printf lib (10 # lit ''Giving up after %d DHCP requests'' @ [10]) [Num (int retries)])
    (ret (-1, fn_ip)))"
| "dhcp_loop lib retries (Suc n) fn_ip =
     seq (printf lib ([8, 8, 8] @ lit ''%03d'') [Num (int (Suc n))])
    (bnd (dhcp_round lib fn_ip) (\<lambda>(rc, fn_ip).
     if rc \<noteq> -1 then seq (printf lib ([8, 8, 8, 8] @ lit ''done'' @ [10]) []) (ret (rc, fn_ip))
     else dhcp_loop lib retries n fn_ip))"

definition dhcp :: "('d, 'e) slof \<Rightarrow> filename_ip \<Rightarrow> nat \<Rightarrow> ('d, s32 \<times> filename_ip) fw" where
  "dhcp lib fn_ip retries =
     seq (printf lib (lit ''  Requesting information via DHCP:     '') [])
    (seq (dhcpv4_generate_transaction_id lib)
    (seq (dhcpv6_generate_transaction_id lib)
    (dhcp_loop lib retries retries fn_ip)))"

text \<open>The bytes of the address are put together as a signed \<open>int\<close>.\<close>

definition seed_rng :: "'d hw \<Rightarrow> ('d, 'e) slof \<Rightarrow> u8 list \<Rightarrow> ('d, unit) fw" where
  "seed_rng hw lib mac =
     bnd (dev_op (stck hw)) (\<lambda>seed.
     srand lib (seed XOR int_to_u64 (push_bit 24 (ucast (mac ! 2)) OR push_bit 16 (ucast (mac ! 3))
       OR push_bit 8 (ucast (mac ! 4)) OR ucast (mac ! 5))))"

section \<open>TFTP\<close>

definition tftp_load :: "('d, 'e) slof \<Rightarrow> filename_ip \<Rightarrow> u64 \<Rightarrow> s32 \<Rightarrow> ('d, s32 \<times> filename_ip) fw" where
  "tftp_load lib fnip buffer len =
     bnd (tftp lib fnip buffer len DEFAULT_TFTP_RETRIES) (\<lambda>(rc, tftp_err, fnip).
     seq (whenM (sint rc < 0) (printf lib (10 # lit ''  '') []))
    (seq (if 1024 < sint rc
          then printf lib (lit ''  TFTP: Received %s (%d KBytes)'' @ [10]) [Str (c_str (filename fnip)), Num (sint rc div 1024)]
          else if 0 < sint rc
          then printf lib (lit ''  TFTP: Received %s (%d Bytes)'' @ [10]) [Str (c_str (filename fnip)), Num (sint rc)]
          else bnd (tftp_get_error_info lib fnip tftp_err rc) (\<lambda>errstr.
               printf lib (lit ''TFTP error: %s'' @ [10])
                 [Str (case errstr of None \<Rightarrow> lit ''unknown error'' | Some t \<Rightarrow> t)]))
    (ret (rc, fnip))))"

section \<open>Setting up the network\<close>

definition blank_filename_ip :: "nat \<Rightarrow> filename_ip" where
  "blank_filename_ip n = \<lparr>own_ip = 0, own_ip6 = replicate 16 0, server_ip = 0, server_ip6 = replicate 16 0,
     ip_version = 0, sock_fd = 0, filename = replicate n 0\<rparr>"

definition ip4_args :: "u32 \<Rightarrow> parg list" where
  "ip4_args a = map (\<lambda>k. Num (uint (drop_bit k a AND 0xff))) [24, 16, 8, 0]"

definition net_init :: "'d hw \<Rightarrow> ('d, 'e) slof \<Rightarrow> ('d, s32 \<times> u8 list \<times> filename_ip) fw" where
  "net_init hw lib =
     bnd (virtio_net_init hw lib) (\<lambda>(rc, mac).
     let fn_ip = blank_filename_ip (filename_size lib) in
     if sint rc < 0 then seq (puts lib (lit ''Could not initialize network device'')) (ret (-101, mac, fn_ip))
     else
     seq (printf lib (lit ''  Using MAC address: %02x:%02x:%02x:%02x:%02x:%02x'' @ [10]) (map (\<lambda>b. Num (uint b)) mac))
    (seq (set_mac_address lib mac)
    (seq (seed_rng hw lib mac)
    (bnd (dhcp lib (fn_ip\<lparr>sock_fd := rc\<rparr>) DEFAULT_BOOT_RETRIES) (\<lambda>(rc, fn_ip).
     if sint rc < 0 then seq (puts lib (lit ''Could not get IP address'')) (ret (-101, mac, fn_ip))
     else
     seq (whenM (ip_version fn_ip = 4) (set_ipv4_address lib (own_ip fn_ip)))
    (seq (if ip_version fn_ip = 4
          then printf lib (lit ''  Using IPv4 address: %d.%d.%d.%d'' @ [10]) (ip4_args (own_ip fn_ip))
          else if ip_version fn_ip = 6
          then bnd (ipv6_to_str lib (own_ip6 fn_ip)) (\<lambda>t. printf lib (lit ''  Using IPv6 address: %s'' @ [10]) [Str t])
          else ret ())
    (if rc = -2
     then seq (printf lib (lit ''ARP request to TFTP server (%d.%d.%d.%d) failed'' @ [10]) (ip4_args (server_ip fn_ip)))
         (ret (-102, mac, fn_ip))
     else if rc = -4 \<or> rc = -3
     then seq (puts lib (lit (''Can'' @ [CHR 0x27] @ ''t obtain TFTP server IP address''))) (ret (-107, mac, fn_ip))
     else
     seq (printf lib (lit ''  Using TFTP server: '') [])
    (seq (if ip_version fn_ip = 4
          then printf lib (lit ''%d.%d.%d.%d'' @ [10]) (ip4_args (server_ip fn_ip))
          else if ip_version fn_ip = 6
          then bnd (ipv6_to_str lib (server_ip6 fn_ip)) (\<lambda>t. printf lib (lit ''%s'' @ [10]) [Str t])
          else ret ())
    (case strlen (filename fn_ip) of
       None \<Rightarrow> stop (Bad ''string'')
     | Some n \<Rightarrow>
       seq (whenM (0 < n) (printf lib (lit (''  Bootfile name: '' @ [CHR 0x27] @ ''%s'' @ [CHR 0x27]) @ [10]) [Str (c_str (filename fn_ip))]))
      (ret (rc, mac, fn_ip)))))))))))"

definition net_release :: "('d, 'e) slof \<Rightarrow> filename_ip \<Rightarrow> ('d, unit) fw" where
  "net_release lib fn_ip = whenM (ip_version fn_ip = 4) (dhcp_send_release lib (sock_fd fn_ip))"

text \<open>The value is the address \<open>uuid_str\<close> points to, as its bytes, or \<open>None\<close> for \<open>NULL\<close>.\<close>

definition uuid_text :: "u8 list \<Rightarrow> u8 list" where
  "uuid_text uuid = (let h = \<lambda>i n. concat (map hex2 (slice i n uuid)) in
     h 0 4 @ lit ''-'' @ h 4 2 @ lit ''-'' @ h 6 2 @ lit ''-'' @ h 8 2 @ lit ''-'' @ h 10 6)"

definition STSI322_VMDB_UUID_OFFSET :: u64 where "STSI322_VMDB_UUID_OFFSET = (8 + 12) * 4"

definition get_uuid :: "('d, 'e) slof \<Rightarrow> ('d, u8 list option) fw" where
  "get_uuid lib =
     bnd (malloc lib (2 * 4096)) (\<lambda>m.
     if m = 0 then seq (puts lib (lit ''Out of memory ... can not get UUID.'')) (ret None)
     else let buf = (m + 4096 - 1) AND NOT 4095 in
     seq (memset (Phys buf) 0 4096)
    (bnd (stsi lib 0x30000002 2 buf) (\<lambda>cc.
     if cc \<noteq> 0 then seq (mfree lib m) (ret None)
     else bnd (load (Phys (buf + STSI322_VMDB_UUID_OFFSET)) 16) (\<lambda>uuid.
     seq (mfree lib m)
     (if list_all (\<lambda>b. b = 0) uuid then ret None else ret (Some (uuid_text uuid)))))))"

section \<open>Loading\<close>

definition KERNEL_ADDR :: u64 where "KERNEL_ADDR = 0"
definition ARCH_COMMAND_LINE_SIZE :: nat where "ARCH_COMMAND_LINE_SIZE = 896"
definition MAX_PXELINUX_ENTRIES :: nat where "MAX_PXELINUX_ENTRIES = 16"

text \<open>\<open>KERNEL_MAX_SIZE\<close> is \<open>_start\<close>; a difference of addresses becomes the \<open>int\<close> length.\<close>

definition KERNEL_MAX_SIZE :: "('d, 'e) slof \<Rightarrow> u64" where
  "KERNEL_MAX_SIZE lib = image_start lib"

definition set_filename :: "('d, 'e) slof \<Rightarrow> u8 list \<Rightarrow> filename_ip \<Rightarrow> filename_ip" where
  "set_filename lib t fn_ip = fn_ip\<lparr>filename := strncpy (filename_size lib) t\<rparr>"

text \<open>The address of the ramdisk: the end of the kernel, rounded up to a page.\<close>

definition initrd_addr :: "s32 \<Rightarrow> u64" where
  "initrd_addr rc = int_to_u64 (rc + 0xfff) AND NOT 0xfff"

definition load_kernel_with_initrd ::
    "('d, 'e) slof \<Rightarrow> filename_ip \<Rightarrow> pl_cfg_entry \<Rightarrow> ('d, s32 \<times> filename_ip) fw" where
  "load_kernel_with_initrd lib fn_ip entry =
     seq (printf lib (lit (''Loading pxelinux.cfg entry '' @ [CHR 0x27] @ ''%s'' @ [CHR 0x27]) @ [10]) [Str (pl_label entry)])
    (case pl_kernel entry of
       None \<Rightarrow> seq (printf lib (lit ''Kernel entry is missing!'' @ [10]) []) (ret (-1, fn_ip))
     | Some kname \<Rightarrow>
       bnd (tftp_load lib (set_filename lib kname fn_ip) KERNEL_ADDR (ucast (KERNEL_MAX_SIZE lib))) (\<lambda>(rc, fn_ip).
       if sint rc < 0 then ret (rc, fn_ip)
       else
       let append_text = (case pl_append entry of None \<Rightarrow> ret ()
             | Some a \<Rightarrow> store (Phys 0x10480) (strncpy ARCH_COMMAND_LINE_SIZE a)) in
       (case pl_initrd entry of
          None \<Rightarrow> seq append_text (ret (rc, fn_ip))
        | Some initrd \<Rightarrow>
          let iaddr = initrd_addr rc in
          bnd (tftp_load lib (set_filename lib initrd fn_ip) iaddr (ucast (KERNEL_MAX_SIZE lib - iaddr))) (\<lambda>(rc, fn_ip).
          if sint rc < 0 then ret (rc, fn_ip)
          else
          seq (store (Phys 0x10408) (to_be 8 iaddr))
         (seq (store (Phys 0x10410) (to_be 8 (int_to_u64 rc)))
         (seq append_text (ret (ucast (int_to_u64 rc + iaddr), fn_ip)))))))) "

text \<open>The element \<open>def_ent\<close> of the entries the parser filled in.\<close>

definition boot_entry :: "('d, 'e) slof \<Rightarrow> filename_ip \<Rightarrow> pl_cfg_entry list \<Rightarrow> nat \<Rightarrow> ('d, s32 \<times> filename_ip) fw" where
  "boot_entry lib fn_ip entries def_ent =
     (if def_ent < length entries then load_kernel_with_initrd lib fn_ip (entries ! def_ent)
      else stop (Bad ''entries''))"

definition net_try_pxelinux_cfg :: "('d, 'e) slof \<Rightarrow> u8 list \<Rightarrow> filename_ip \<Rightarrow> ('d, s32 \<times> filename_ip) fw" where
  "net_try_pxelinux_cfg lib mac fn_ip =
     bnd (get_uuid lib) (\<lambda>uuid.
     bnd (pxelinux_load_parse_cfg lib fn_ip mac uuid DEFAULT_TFTP_RETRIES (Buf CfgBuf 0) 2048 MAX_PXELINUX_ENTRIES)
       (\<lambda>(num_ent, entries, def_ent, fn_ip).
     if 0 < sint num_ent then boot_entry lib fn_ip entries def_ent else ret (-1, fn_ip)))"

text \<open>
  One round of the loop over the lines of a .INS file, at the offset \<open>insbuf\<close> in \<open>cfgbuf\<close>: where
  the next line is, or \<open>None\<close> at the end, with \<open>rc\<close> and the \<open>filename_ip\<close>.
\<close>

definition ins_line ::
    "('d, 'e) slof \<Rightarrow> nat \<Rightarrow> nat \<Rightarrow> s32 \<Rightarrow> filename_ip \<Rightarrow> ('d, nat option \<times> s32 \<times> filename_ip) fw" where
  "ins_line lib cfgsize insbuf rc fn_ip =
     bnd (load_u8 (Buf CfgBuf insbuf)) (\<lambda>b.
     if b = 0 \<or> \<not> insbuf < cfgsize then ret (None, rc, fn_ip)
     else
     bnd (strchr_at 10 insbuf) (\<lambda>nl.
     seq (case nl of None \<Rightarrow> ret () | Some p \<Rightarrow> store (Buf CfgBuf p) [0])
    (bnd (strlen_at insbuf) (\<lambda>llen.
     if llen = 0
     then (case nl of None \<Rightarrow> stop (Bad ''null pointer'') | Some p \<Rightarrow> ret (Some (p + 1), rc, fn_ip))
     else
     bnd (strchr_at 32 insbuf) (\<lambda>sp.
     case sp of
       None \<Rightarrow> seq (puts lib (lit ''Missing space separator in .INS file'')) (ret (None, -1, fn_ip))
     | Some p \<Rightarrow>
       seq (store (Buf CfgBuf p) [0])
      (bnd (gets (\<lambda>s. (str_at s insbuf, atol (str_at s (p + 1))))) (\<lambda>(name, destaddr).
       bnd (tftp_load lib (set_filename lib name fn_ip) destaddr (ucast (image_start lib - destaddr))) (\<lambda>(rc, fn_ip).
       ret (if sint rc \<le> 0 then None else Some (insbuf + llen + 1), rc, fn_ip)))))))))"

partial_function (option) ins_loop ::
    "('d, 'e) slof \<Rightarrow> nat \<Rightarrow> nat \<Rightarrow> s32 \<Rightarrow> filename_ip \<Rightarrow> ('d, s32 \<times> filename_ip) fw" where
  "ins_loop lib cfgsize insbuf rc fn_ip s =
     bnd (ins_line lib cfgsize insbuf rc fn_ip) (\<lambda>x.
     if fst x = None then ret (snd x)
     else (\<lambda>s. ins_loop lib cfgsize (the (fst x)) (fst (snd x)) (snd (snd x)) s)) s"

definition handle_ins_cfg :: "('d, 'e) slof \<Rightarrow> filename_ip \<Rightarrow> nat \<Rightarrow> ('d, s32 \<times> filename_ip) fw" where
  "handle_ins_cfg lib fn_ip cfgsize =
     bnd (strchr_at 10 0) (\<lambda>ptr.
     case ptr of
       None \<Rightarrow> seq (puts lib (lit ''Does not seem to be a valid .INS file'')) (ret (-1, fn_ip))
     | Some p \<Rightarrow>
       seq (store (Buf CfgBuf p) [0])
      (bnd (gets (\<lambda>s. str_at s 2)) (\<lambda>t.
       seq (printf lib (10 # lit ''Parsing .INS file:'' @ [10] @ lit '' %s'' @ [10]) [Str t])
      (\<lambda>s. ins_loop lib cfgsize (p + 1) (-1) fn_ip s))))"

definition net_try_direct_tftp_load :: "('d, 'e) slof \<Rightarrow> filename_ip \<Rightarrow> ('d, s32 \<times> filename_ip) fw" where
  "net_try_direct_tftp_load lib fn_ip =
     bnd (tftp_load lib fn_ip 0x2000 (ucast (KERNEL_MAX_SIZE lib - 0x2000))) (\<lambda>(rc, fn_ip).
     let whole = seq (memcpy (Phys KERNEL_ADDR) (Phys 0x2000) (unat rc)) (ret (rc, fn_ip)) in
     if sint rc < 0 then ret (rc, fn_ip)
     else if sint rc < 8
     then seq (printf lib (lit ([CHR 0x27] @ ''%s'' @ [CHR 0x27] @ '' is too small (%i bytes only).'') @ [10])
                 [Str (c_str (filename fn_ip)), Num (sint rc)])
         (ret (-1, fn_ip))
     else if unat rc < 2047
     then seq (memcpy (Buf CfgBuf 0) (Phys 0x2000) (unat rc))
         (seq (store (Buf CfgBuf (unat rc)) [0])
         (bnd (gets (\<lambda>s. bufs s CfgBuf)) (\<lambda>cfg.
          if starts_with (lit ''* '') cfg then handle_ins_cfg lib fn_ip (unat rc)
          else if starts_with (lit ''# pxelinux'') (map tolower cfg)
          then bnd (pxelinux_parse_cfg lib (Buf CfgBuf 0) 2048 MAX_PXELINUX_ENTRIES) (\<lambda>(num_ent, entries, def_ent).
               if sint num_ent \<le> 0 then ret (-1, fn_ip) else boot_entry lib fn_ip entries def_ent)
          else whole)))
     else whole)"

section \<open>The device\<close>

text \<open>\<open>n\<close> subchannels are left, from \<open>i\<close> on.\<close>

fun find_net_loop :: "'d hw \<Rightarrow> int \<Rightarrow> nat \<Rightarrow> nat \<Rightarrow> ('d, bool) fw" where
  "find_net_loop hw dev_no i 0 = ret False"
| "find_net_loop hw dev_no i (Suc n) =
     seq (modify (\<lambda>s. s\<lparr>blk_schid := (blk_schid s)\<lparr>sch_no := word_of_nat i\<rparr>\<rparr>))
    (bnd (gets blk_schid) (\<lambda>sch.
     bnd (dev_op (stsch hw sch)) (\<lambda>(r, schib).
     if r = 3 \<or> r = -1 then ret False
     else if \<not> dnv (schib_pmcw schib) then find_net_loop hw dev_no (Suc i) n
     else
     seq (enable_subchannel hw sch)
    (bnd (virtio_is_supported hw sch) (\<lambda>ok.
     if \<not> ok then find_net_loop hw dev_no (Suc i) n
     else bnd (gets cu_model) (\<lambda>model.
     if model \<noteq> VIRTIO_ID_NET then find_net_loop hw dev_no (Suc i) n
     else if dev_no < 0 \<or> uint (pmcw_dev (schib_pmcw schib)) = dev_no then ret True
     else find_net_loop hw dev_no (Suc i) n))))))"

definition find_net_dev :: "'d hw \<Rightarrow> int \<Rightarrow> ('d, bool) fw" where
  "find_net_dev hw dev_no = find_net_loop hw dev_no 0 0x10000"

text \<open>The search through the subchannel sets, when there is no IPL parameter block.\<close>

fun find_in_sets :: "'d hw \<Rightarrow> 2 word list \<Rightarrow> ('d, bool) fw" where
  "find_in_sets hw [] = ret False"
| "find_in_sets hw (ss # sss) =
     seq (modify (\<lambda>s. s\<lparr>blk_schid := (blk_schid s)\<lparr>ssid := ss\<rparr>\<rparr>))
    (bnd (find_net_dev hw (-1)) (\<lambda>found. if found then ret True else find_in_sets hw sss))"

definition net_virtio_setup :: "'d hw \<Rightarrow> ('d, unit) fw" where
  "net_virtio_setup hw =
     seq (enable_mss_facility hw)
    (bnd (dev_op (store_iplb hw)) (\<lambda>(ok, b).
     seq (modify (\<lambda>s. s\<lparr>the_iplb := b\<rparr>))
    (bnd (if ok
          then seq (IPL_assert hw (pbt b = IPL_CCW) (lit ''IPL_TYPE_CCW expected''))
              (seq (modify (\<lambda>s. s\<lparr>blk_schid := (blk_schid s)\<lparr>ssid := ucast (iplb_ssid b AND 3)\<rparr>\<rparr>))
              (find_net_dev hw (uint (iplb_devno b))))
          else find_in_sets hw [0, 1, 2]) (\<lambda>found.
     IPL_assert hw found (lit ''No virtio net device found'')))))"

definition net_main :: "'d hw \<Rightarrow> ('d, 'e) slof \<Rightarrow> ('d, unit) fw" where
  "net_main hw lib =
     seq (sclp_setup hw)
    (seq (sclp_print hw (lit ''Network boot starting...'' @ [10]))
    (seq (net_virtio_setup hw)
    (bnd (net_init hw lib) (\<lambda>(rc, mac, fn_ip).
     seq (whenM (rc \<noteq> 0) (panic hw (lit ''Network initialization failed. Halting.'' @ [10])))
    (case strlen (filename fn_ip) of
       None \<Rightarrow> stop (Bad ''string'')
     | Some fnlen \<Rightarrow>
       bnd (if 0 < fnlen \<and> filename fn_ip ! (fnlen - 1) \<noteq> 47 then net_try_direct_tftp_load lib fn_ip else ret (rc, fn_ip)) (\<lambda>(rc, fn_ip).
       bnd (if sint rc \<le> 0 then net_try_pxelinux_cfg lib mac fn_ip else ret (rc, fn_ip)) (\<lambda>(rc, fn_ip).
       seq (net_release lib fn_ip)
      (seq (whenM (0 < sint rc)
             (seq (sclp_print hw (lit ''Network loading done, starting kernel...'' @ [10]))
             (low_kernel_linked (ret ()) hw)))
      (panic hw (lit ''Failed to load OS from network'' @ [10]))))))))))"

end
