(* ===== verification/NetLoad.thy ===== *)
theory NetLoad
  imports NetMain
begin

text \<open>
  What the network boot program loads from a TFTP server: a kernel with its ramdisk and
  command line, and the files of a .INS file. The server is a map from file names to their
  bytes; a transfer stores the bytes at the address asked for and changes nothing else but
  the devices.
\<close>

section \<open>A server\<close>

locale tftp_server =
  fixes lib :: "('d, 'e) slof" and files :: "u8 list \<Rightarrow> u8 list option"
  assumes transfer: "files (c_str (filename fn)) = Some d \<Longrightarrow> 0 < length d \<Longrightarrow> int (length d) \<le> sint len \<Longrightarrow>
      \<exists>e j. tftp lib fn a len r s = Some (Ret (word_of_nat (length d), e, fn), s\<lparr>mem := mem_put a d (mem s), io := j\<rparr>)"
    and prints: "\<exists>j. printf lib f as s = Some (Ret (), s\<lparr>io := j\<rparr>)"
begin

lemma tftp_load_file:
  assumes "files (c_str (filename fn)) = Some d" "0 < length d" "int (length d) \<le> sint len"
  shows "\<exists>j. tftp_load lib fn a len s = Some (Ret (word_of_nat (length d), fn), s\<lparr>mem := mem_put a d (mem s), io := j\<rparr>)"
proof -
  obtain e j where t: "tftp lib fn a len DEFAULT_TFTP_RETRIES s =
      Some (Ret (word_of_nat (length d), e, fn), s\<lparr>mem := mem_put a d (mem s), io := j\<rparr>)"
    using transfer [OF assms] by blast
  have "sint len < 2 ^ 31" using sint_lt [of len] by simp
  with assms(3) have "int (length d) < 2 ^ 31" by (rule le_less_trans)
  then have "length d < 2 ^ 31" by simp
  then have "sint (word_of_nat (length d) :: s32) = int (length d)"
    by (subst sint_small) (simp_all add: unat_of_nat take_bit_nat_eq_self)
  then have p: "\<not> sint (word_of_nat (length d) :: s32) < 0" "0 < sint (word_of_nat (length d) :: s32)"
    using assms(2) by simp_all
  let ?s = "s\<lparr>mem := mem_put a d (mem s), io := j\<rparr>"
  obtain j' where j': "printf lib (lit ''  TFTP: Received %s (%d KBytes)'' @ [10])
      [Str (c_str (filename fn)), Num (sint (word_of_nat (length d) :: s32) div 1024)] ?s = Some (Ret (), ?s\<lparr>io := j'\<rparr>)"
    using prints by blast
  obtain j'' where j'': "printf lib (lit ''  TFTP: Received %s (%d Bytes)'' @ [10])
      [Str (c_str (filename fn)), Num (sint (word_of_nat (length d) :: s32))] ?s = Some (Ret (), ?s\<lparr>io := j''\<rparr>)"
    using prints by blast
  have "\<exists>k. tftp_load lib fn a len s = Some (Ret (word_of_nat (length d), fn), ?s\<lparr>io := k\<rparr>)"
  proof (cases "1024 < sint (word_of_nat (length d) :: s32)")
    case True
    with p t j' show ?thesis by (intro exI [of _ j']) (simp add: tftp_load_def bnd_Ret ret_def)
  next
    case False
    with p t j'' show ?thesis by (intro exI [of _ j'']) (simp add: tftp_load_def bnd_Ret ret_def)
  qed
  then show ?thesis by simp
qed

end

lemma c_str_strncpy: "0 \<notin> set t \<Longrightarrow> length t < n \<Longrightarrow> c_str (strncpy n t) = t"
proof -
  assume "0 \<notin> set t" "length t < n"
  moreover from this have "strncpy n t = t @ 0 # replicate (n - length t - 1) 0"
    by (simp add: strncpy_def) (metis Suc_diff_Suc replicate_Suc)
  ultimately show ?thesis by simp
qed


section \<open>Sizes and addresses\<close>

text \<open>\<open>n\<close> bytes from \<open>a\<close> on end below the program, whose address is less than $2^{31}$.\<close>

lemma sint_room:
  fixes a b :: u64
  assumes "unat a + n \<le> unat b" "unat b < 2 ^ 31"
  shows "int n \<le> sint (ucast (b - a) :: s32)"
proof -
  have d: "unat (b - a) = unat b - unat a" using assms(1) by (simp add: unat_diff_wrap)
  then have "unat (b - a) < 2 ^ 31" using assms(2) by simp
  then have u: "unat (ucast (b - a) :: s32) = unat (b - a)" by (simp add: unsigned_ucast_eq take_bit_nat_eq_self)
  then have "sint (ucast (b - a) :: s32) = int (unat (b - a))"
    using \<open>unat (b - a) < 2 ^ 31\<close> by (subst sint_small) simp_all
  moreover have "n \<le> unat (b - a)" using assms(1) d by simp
  ultimately show ?thesis by (simp only: of_nat_le_iff)
qed

definition page_up :: "nat \<Rightarrow> nat" where
  "page_up n = (n + 4095) div 4096 * 4096"

lemma page_up_ge: "n \<le> page_up n"
proof -
  have "(n + 4095) mod 4096 < Suc 4095" by simp
  then have "(n + 4095) mod 4096 \<le> 4095" by (rule less_Suc_eq_le [THEN iffD1])
  then have "(n + 4095) div 4096 * 4096 + (n + 4095) mod 4096 \<le> page_up n + 4095"
    unfolding page_up_def by (rule add_left_mono)
  then have "n + 4095 \<le> page_up n + 4095" unfolding div_mult_mod_eq .
  then show ?thesis by (rule add_le_imp_le_right)
qed

lemma page_up_le: "page_up n \<le> n + 4095"
  unfolding page_up_def by (rule div_times_less_eq_dividend)

lemma page_up_small: "page_up n < 2 ^ 31 \<Longrightarrow> n + 4095 < 2 ^ 31"
proof -
  assume "page_up n < 2 ^ 31"
  then have "(n + 4095) div 4096 < 2 ^ 19" unfolding page_up_def by simp
  then show ?thesis by (simp add: div_less_iff_less_mult)
qed

lemma initrd_addr_nat:
  assumes "n + 4095 < 2 ^ 31"
  shows "initrd_addr (word_of_nat n) = word_of_nat (page_up n)" "unat (initrd_addr (word_of_nat n)) = page_up n"
proof -
  have m: "word_of_nat n + 0xfff = (word_of_nat (n + 4095) :: s32)" by simp
  have u: "unat (word_of_nat (n + 4095) :: s32) = n + 4095" using assms by (subst unat_of_nat) (simp add: take_bit_nat_eq_self)
  have i: "int_to_u64 (word_of_nat (n + 4095) :: s32) = word_of_nat (n + 4095)"
  proof -
    have "unat (word_of_nat (n + 4095) :: s32) < 2 ^ 31" unfolding u by (rule assms)
    from scast_small [OF this] show ?thesis unfolding u .
  qed
  have u64: "unat (word_of_nat (n + 4095) :: u64) = n + 4095" using assms by (subst unat_of_nat) (simp add: take_bit_nat_eq_self)
  let ?x = "word_of_nat (n + 4095) :: u64"
  have "?x AND NOT (mask 12) = push_bit 12 (drop_bit 12 ?x)"
    by (rule bit_word_eqI) (auto simp: bit_simps)
  moreover have "mask 12 = (0xfff :: u64)" by (simp add: mask_eq_exp_minus_1)
  ultimately have "unat (?x AND NOT 0xfff) = unat (push_bit 12 (drop_bit 12 ?x))" by simp
  also have "\<dots> = page_up n"
  proof -
    have d: "unat (drop_bit 12 ?x) = (n + 4095) div 4096" unfolding drop_bit_eq_div unat_div u64 by simp
    have "page_up n < 2 ^ 64" using page_up_le [of n] assms by simp
    then have "push_bit 12 ((n + 4095) div 4096) < 2 ^ 64" by (simp add: page_up_def push_bit_eq_mult)
    then show ?thesis unfolding unsigned_push_bit_eq d by (simp add: push_bit_eq_mult take_bit_nat_eq_self page_up_def)
  qed
  finally show "unat (initrd_addr (word_of_nat n)) = page_up n" unfolding initrd_addr_def m i .
  from arg_cong [OF this, of "word_of_nat :: nat \<Rightarrow> u64"] show "initrd_addr (word_of_nat n) = word_of_nat (page_up n)" by simp
qed


section \<open>A kernel with its ramdisk\<close>

definition name_fits :: "('d, 'e) slof \<Rightarrow> u8 list \<Rightarrow> bool" where
  "name_fits lib t \<longleftrightarrow> 0 \<notin> set t \<and> length t < filename_size lib"

lemma set_filename_str [simp]: "name_fits lib t \<Longrightarrow> c_str (filename (set_filename lib t fn)) = t"
  by (simp add: name_fits_def set_filename_def c_str_strncpy)

text \<open>What is in storage afterwards: the two fields of the kernel, its command line, the files.\<close>

definition linux_image :: "u8 list \<Rightarrow> u8 list \<Rightarrow> u8 list \<Rightarrow> (u64 \<Rightarrow> u8) \<Rightarrow> u64 \<Rightarrow> u8" where
  "linux_image kd rd cmdline m =
     mem_put 0x10480 (strncpy ARCH_COMMAND_LINE_SIZE cmdline)
    (mem_put 0x10410 (to_be 8 (word_of_nat (length rd) :: u64))
    (mem_put 0x10408 (to_be 8 (word_of_nat (page_up (length kd)) :: u64))
    (mem_put (word_of_nat (page_up (length kd))) rd (mem_put 0 kd m))))"

context tftp_server begin

lemma load_kernel_with_initrd_image:
  assumes "entry = \<lparr>pl_label = l, pl_kernel = Some k, pl_initrd = Some i, pl_append = Some cmdline\<rparr>"
    and "name_fits lib k" "name_fits lib i" "files k = Some kd" "files i = Some rd" "kd \<noteq> []" "rd \<noteq> []"
    and "unat (image_start lib) < 2 ^ 31" "page_up (length kd) + length rd \<le> unat (image_start lib)"
  shows "\<exists>fn' j. load_kernel_with_initrd lib fn entry s =
    Some (Ret (word_of_nat (page_up (length kd) + length rd), fn'), s\<lparr>mem := linux_image kd rd cmdline (mem s), io := j\<rparr>)"
proof -
  let ?N = "unat (image_start lib)" and ?a = "page_up (length kd)"
  have kd: "length kd \<le> ?a" by (rule page_up_ge)
  have small: "length kd < 2 ^ 31" "length rd < 2 ^ 31" "?a < 2 ^ 31" using assms(8, 9) kd by linarith+
  have "length kd + 4095 < 2 ^ 31" using small(3) by (rule page_up_small)
  note addr = initrd_addr_nat [OF this]
  have len1: "int (length kd) \<le> sint (ucast (KERNEL_MAX_SIZE lib) :: s32)"
    using sint_room [of 0 "length kd" "image_start lib"] kd assms(8, 9) by (simp add: KERNEL_MAX_SIZE_def)
  have len2: "int (length rd) \<le> sint (ucast (KERNEL_MAX_SIZE lib - initrd_addr (word_of_nat (length kd))) :: s32)"
    using sint_room [of "initrd_addr (word_of_nat (length kd))" "length rd" "image_start lib"] addr assms(8, 9)
    by (simp add: KERNEL_MAX_SIZE_def)
  have w: "unat (word_of_nat (length x) :: s32) = length x" "sint (word_of_nat (length x) :: s32) = int (length x)"
    "int_to_u64 (word_of_nat (length x) :: s32) = word_of_nat (length x)" if "length x < 2 ^ 31" for x :: "u8 list"
  proof -
    show u: "unat (word_of_nat (length x) :: s32) = length x" using that by (simp add: unat_of_nat take_bit_nat_eq_self)
    show "sint (word_of_nat (length x) :: s32) = int (length x)" using that by (subst sint_small) (simp_all add: u)
    show "int_to_u64 (word_of_nat (length x) :: s32) = word_of_nat (length x)" using that by (subst scast_small) (simp_all add: u)
  qed
  obtain j0 where j0: "\<And>t. printf lib (lit (''Loading pxelinux.cfg entry '' @ [CHR 0x27] @ ''%s'' @ [CHR 0x27]) @ [10]) [Str l] s = Some (Ret (), s\<lparr>io := j0\<rparr>)"
    using prints by blast
  let ?fk = "set_filename lib k fn"
  let ?s1 = "s\<lparr>io := j0\<rparr>"
  obtain j1 where j1: "tftp_load lib ?fk KERNEL_ADDR (ucast (KERNEL_MAX_SIZE lib)) ?s1 =
      Some (Ret (word_of_nat (length kd), ?fk), ?s1\<lparr>mem := mem_put KERNEL_ADDR kd (mem ?s1), io := j1\<rparr>)"
    using tftp_load_file [of ?fk kd "ucast (KERNEL_MAX_SIZE lib)" KERNEL_ADDR ?s1] assms(2, 4, 6) len1 by auto
  let ?fi = "set_filename lib i ?fk"
  let ?s2 = "?s1\<lparr>mem := mem_put KERNEL_ADDR kd (mem ?s1), io := j1\<rparr>"
  let ?ia = "initrd_addr (word_of_nat (length kd))"
  obtain j2 where j2: "tftp_load lib ?fi ?ia (ucast (KERNEL_MAX_SIZE lib - ?ia)) ?s2 =
      Some (Ret (word_of_nat (length rd), ?fi), ?s2\<lparr>mem := mem_put ?ia rd (mem ?s2), io := j2\<rparr>)"
    using tftp_load_file [of ?fi rd "ucast (KERNEL_MAX_SIZE lib - ?ia)" ?ia ?s2] assms(3, 5, 7) len2 by auto
  have sum: "(ucast (word_of_nat (length rd) + word_of_nat ?a :: u64) :: s32) = word_of_nat (?a + length rd)"
    by (rule bit_word_eqI) (auto simp: bit_simps simp flip: of_nat_add simp: add.commute)
  have "load_kernel_with_initrd lib fn entry s =
    Some (Ret (word_of_nat (?a + length rd), ?fi), s\<lparr>mem := linux_image kd rd cmdline (mem s), io := j2\<rparr>)"
    using assms(1) j0 j1 j2 w(2, 3) [OF small(2)] w(2) [OF small(1)] addr sum
    by (simp add: load_kernel_with_initrd_def bnd_Ret Let_def linux_image_def KERNEL_ADDR_def ret_def)
  then show ?thesis by blast
qed

end


lemma length_strncpy [simp]: "length (strncpy n t) = n"
  by (simp add: strncpy_def)

lemma linux_image_fields:
  assumes "0x10800 \<le> length kd" "page_up (length kd) + length rd < 2 ^ 31"
  shows "mem_get (linux_image kd rd cmdline m) (word_of_nat (page_up (length kd))) (length rd) = rd"
    "mem_get (linux_image kd rd cmdline m) 0x10408 8 = to_be 8 (word_of_nat (page_up (length kd)) :: u64)"
    "mem_get (linux_image kd rd cmdline m) 0x10410 8 = to_be 8 (word_of_nat (length rd) :: u64)"
    "mem_get (linux_image kd rd cmdline m) 0x10480 896 = strncpy 896 cmdline"
    "x < length kd \<Longrightarrow> \<not> (0x10408 \<le> x \<and> x < 0x10418) \<Longrightarrow> \<not> (0x10480 \<le> x \<and> x < 0x10800) \<Longrightarrow>
       linux_image kd rd cmdline m (word_of_nat x) = kd ! x"
proof -
  let ?a = "page_up (length kd)" and ?c = "strncpy ARCH_COMMAND_LINE_SIZE cmdline"
  have a: "length kd \<le> ?a" by (rule page_up_ge)
  have u: "unat (word_of_nat ?a :: u64) = ?a" using assms by (subst unat_of_nat) (simp add: take_bit_nat_eq_self)
  have c: "length ?c = 896" by (simp add: ARCH_COMMAND_LINE_SIZE_def)
  have "length rd < 2 ^ 64" using assms(2) by simp
  note rd = mem_get_put_same [OF this]
  show "mem_get (linux_image kd rd cmdline m) (word_of_nat ?a) (length rd) = rd"
    unfolding linux_image_def using assms a u c rd by (simp add: mem_get_put_disjoint)
  show "mem_get (linux_image kd rd cmdline m) 0x10408 8 = to_be 8 (word_of_nat ?a :: u64)"
    "mem_get (linux_image kd rd cmdline m) 0x10410 8 = to_be 8 (word_of_nat (length rd) :: u64)"
    unfolding linux_image_def using c by (simp_all add: mem_get_put_disjoint mem_get_put_to_be)
  show "mem_get (linux_image kd rd cmdline m) 0x10480 896 = strncpy 896 cmdline"
    unfolding linux_image_def using mem_get_put_same [of ?c] by (simp add: ARCH_COMMAND_LINE_SIZE_def)
  assume x: "x < length kd" "\<not> (0x10408 \<le> x \<and> x < 0x10418)" "\<not> (0x10480 \<le> x \<and> x < 0x10800)"
  then have "unat (word_of_nat x :: u64) = x" using assms a by (subst unat_of_nat) (simp add: take_bit_nat_eq_self)
  then show "linux_image kd rd cmdline m (word_of_nat x) = kd ! x"
    unfolding linux_image_def using x assms a u by (auto simp: mem_put_at ARCH_COMMAND_LINE_SIZE_def)
qed

text \<open>
  C15: an entry of a pxelinux configuration is loaded from the server as the kernel expects it: the
  ramdisk starts at the first page behind the kernel, the fields at 0x10408 and 0x10410 of the
  kernel hold its address and its size, the 896 bytes from 0x10480 on the command line, and every
  other byte of the kernel is the server's; the result is the end of the ramdisk.
\<close>

theorem load_kernel_with_initrd_places:
  assumes "tftp_server lib files"
    and "entry = \<lparr>pl_label = l, pl_kernel = Some k, pl_initrd = Some i, pl_append = Some cmdline\<rparr>"
    and "name_fits lib k" "name_fits lib i" "files k = Some kd" "files i = Some rd" "0x10800 \<le> length kd" "rd \<noteq> []"
    and "unat (image_start lib) < 2 ^ 31" "page_up (length kd) + length rd \<le> unat (image_start lib)"
  shows "\<exists>fn' t. load_kernel_with_initrd lib fn entry s = Some (Ret (word_of_nat (page_up (length kd) + length rd), fn'), t) \<and>
    mem_get (mem t) (word_of_nat (page_up (length kd))) (length rd) = rd \<and>
    be (mem_get (mem t) 0x10408 8) = (word_of_nat (page_up (length kd)) :: u64) \<and>
    be (mem_get (mem t) 0x10410 8) = (word_of_nat (length rd) :: u64) \<and>
    mem_get (mem t) 0x10480 896 = strncpy 896 cmdline \<and>
    (\<forall>x. x < length kd \<and> \<not> (0x10408 \<le> x \<and> x < 0x10418) \<and> \<not> (0x10480 \<le> x \<and> x < 0x10800) \<longrightarrow> mem t (word_of_nat x) = kd ! x)"
proof -
  have "kd \<noteq> []" using assms(7) by auto
  from tftp_server.load_kernel_with_initrd_image [OF assms(1-6) this assms(8-10)]
  obtain fn' j where t: "load_kernel_with_initrd lib fn entry s =
    Some (Ret (word_of_nat (page_up (length kd) + length rd), fn'), s\<lparr>mem := linux_image kd rd cmdline (mem s), io := j\<rparr>)"
    by blast
  have "page_up (length kd) + length rd < 2 ^ 31" using assms(9, 10) by (rule le_less_trans [rotated])
  note f = linux_image_fields [OF assms(7) this]
  show ?thesis by (intro exI conjI) (rule t, simp_all add: f)
qed

section \<open>A server with two files\<close>

definition demo_file :: "u8 list \<Rightarrow> u8 list option" where
  "demo_file t = (if t = lit ''vmlinuz'' then Some (replicate 0x12345 7) else if t = lit ''initrd'' then Some (replicate 5000 9) else None)"

definition demo_server :: "(u8 list \<Rightarrow> u8 list option) \<Rightarrow> (nat, unit) slof" where
  "demo_server files = demo_lib\<lparr>tftp := (\<lambda>fn a len r s. case files (c_str (filename fn)) of
       Some d \<Rightarrow> if int (length d) \<le> sint len then Some (Ret (word_of_nat (length d), (), fn), s\<lparr>mem := mem_put a d (mem s)\<rparr>)
                 else Some (Ret (- 1, (), fn), s)
     | None \<Rightarrow> Some (Ret (- 1, (), fn), s))\<rparr>"

interpretation demo_server: tftp_server "demo_server files" files for files
proof unfold_locales
  show "\<exists>j. printf (demo_server files) f as s = Some (Ret (), s\<lparr>io := j\<rparr>)" for f as s
    by (rule exI [of _ "io s"]) (simp add: demo_server_def demo_lib_def ret_def)
  show "\<exists>e j. tftp (demo_server files) fn a len r s =
      Some (Ret (word_of_nat (length d), e, fn), s\<lparr>mem := mem_put a d (mem s), io := j\<rparr>)"
    if "files (c_str (filename fn)) = Some d" "0 < length d" "int (length d) \<le> sint len" for fn d len a r s
    using that by (intro exI [of _ "()"] exI [of _ "io s"]) (simp add: demo_server_def)
qed

theorem load_kernel_with_initrd_places_witness:
  "\<exists>fn' t. load_kernel_with_initrd (demo_server demo_file) (blank_filename_ip 256)
      \<lparr>pl_label = [], pl_kernel = Some (lit ''vmlinuz''), pl_initrd = Some (lit ''initrd''), pl_append = Some (lit ''quiet'')\<rparr> (blank 0) =
      Some (Ret (0x13000 + 5000, fn'), t) \<and> mem_get (mem t) 0x13000 5000 = replicate 5000 9"
proof -
  have n: "name_fits (demo_server demo_file) (lit ''vmlinuz'')" "name_fits (demo_server demo_file) (lit ''initrd'')"
    by (simp_all add: name_fits_def demo_server_def demo_lib_def lit_def)
  have f: "demo_file (lit ''vmlinuz'') = Some (replicate 0x12345 7)" "demo_file (lit ''initrd'') = Some (replicate 5000 9)"
    by (simp_all only: demo_file_def) (simp_all add: lit_def)
  have s: "image_start (demo_server demo_file) = 0x7e00000" by (simp add: demo_server_def demo_lib_def)
  have p: "page_up 0x12345 = 0x13000" by (simp add: page_up_def)
  have r: "replicate 5000 9 \<noteq> ([] :: u8 list)" by (simp only: replicate_empty)
  note l = length_replicate [of "0x12345" "7 :: u8"] length_replicate [of 5000 "9 :: u8"]
  have w: "word_of_nat (0x13000 + 5000) = (0x13000 + 5000 :: s32)" "word_of_nat 0x13000 = (0x13000 :: u64)" by simp_all
  from load_kernel_with_initrd_places [where l = "[]" and cmdline = "lit ''quiet''" and fn = "blank_filename_ip 256" and s = "blank 0",
      OF demo_server.tftp_server_axioms refl n f, unfolded l p s w] r
  show ?thesis by (auto simp: lit_def)
qed

end
