(* ===== verification/NetIns.thy ===== *)
theory NetIns
  imports NetLoad
begin

text \<open>
  The files of a .INS file, and what \<open>handle_ins_cfg\<close> makes of them.
\<close>

section \<open>Strings in the buffer\<close>

lemma strchr_found: "c \<notin> set p \<Longrightarrow> 0 \<notin> set p \<Longrightarrow> strchr c (p @ c # q) = Some (Some (length p))"
  by (induction p) auto

lemma splice_one: "splice (length a) [z] (a @ y # b) = a @ z # b"
  by (simp add: splice_def)

lemma atol_digits_step: "d < 10 \<Longrightarrow> atol_digits v (word_of_nat (d + 48) # r) = atol_digits (10 * v + word_of_nat d) r"
proof -
  assume "d < 10"
  then have "d \<in> {0, 1, 2, 3, 4, 5, 6, 7, 8, 9}" by auto
  then show ?thesis by (auto simp: isdigit_def)
qed

lemma atol_digits_dec: "atol_digits v (dec n @ rest) = atol_digits (v * 10 ^ length (dec n) + word_of_nat n) rest"
proof (induction n arbitrary: v rest rule: dec.induct)
  case (1 n)
  show ?case
  proof (cases "n < 10")
    case True
    then show ?thesis by (simp only: dec_small append_Cons append_Nil atol_digits_step) (simp add: mult.commute)
  next
    case False
    then have dec: "dec n = dec (n div 10) @ [word_of_nat (n mod 10 + 48)]" by (intro dec_step) simp
    have n: "(word_of_nat n :: u64) = 10 * word_of_nat (n div 10) + word_of_nat (n mod 10)"
      by (metis mult_div_mod_eq of_nat_add of_nat_mult of_nat_numeral)
    have "atol_digits v (dec n @ rest) =
        atol_digits (10 * (v * 10 ^ length (dec (n div 10)) + word_of_nat (n div 10)) + word_of_nat (n mod 10)) rest"
      by (simp only: dec append_assoc append_Cons append_Nil 1 [OF False] atol_digits_step [of "n mod 10"]
          mod_less_divisor zero_less_numeral)
    also have "\<dots> = atol_digits (v * 10 ^ length (dec n) + word_of_nat n) rest"
      by (simp only: n dec length_append list.size) (simp add: algebra_simps)
    finally show ?thesis .
  qed
qed

lemma dec_Cons:
  obtains b r where "dec n = b # r" "isdigit b"
proof -
  have "dec n \<noteq> []" by (subst dec.simps) simp
  then obtain b r where "dec n = b # r" by (cases "dec n") auto
  moreover from this have "isdigit b" using isdigit_dec [of b n] by simp
  ultimately show thesis by (rule that)
qed

lemma atol_dec: "atol (dec n) = word_of_nat n"
proof -
  obtain b r where b: "dec n = b # r" "isdigit b" by (rule dec_Cons)
  have "48 \<le> b" using b(2) by (simp add: isdigit_def)
  then have "\<not> isspace b" "b \<noteq> 45" "b \<noteq> 43" by (auto simp: isspace_def word_le_nat_alt)
  then have "atol (dec n) = atol_digits 0 (dec n)" by (simp add: atol_def b)
  then show ?thesis using atol_digits_dec [of 0 n "[]"] by simp
qed

lemma dec_bytes: "0 \<notin> set (dec n)" "10 \<notin> set (dec n)" "32 \<notin> set (dec n)"
proof -
  have "\<not> isdigit 10" by (simp add: isdigit_def)
  then show "0 \<notin> set (dec n)" "10 \<notin> set (dec n)" "32 \<notin> set (dec n)" using isdigit_dec by blast+
qed


section \<open>The lines\<close>

text \<open>A file with the address it goes to, its line, and the storage with its bytes.\<close>

type_synonym ins_file = "u8 list \<times> nat \<times> u8 list"

fun ins_entry :: "ins_file \<Rightarrow> u8 list" where
  "ins_entry (name, a, d) = name @ 32 # dec a @ [10]"

fun put_file :: "ins_file \<Rightarrow> (u64 \<Rightarrow> u8) \<Rightarrow> u64 \<Rightarrow> u8" where
  "put_file (name, a, d) m = mem_put (word_of_nat a) d m"

definition ins_lines :: "ins_file list \<Rightarrow> u8 list" where
  "ins_lines fs = concat (map ins_entry fs)"

text \<open>The file is on the server and fits below the program.\<close>

fun ins_fits :: "('d, 'e) slof \<Rightarrow> (u8 list \<Rightarrow> u8 list option) \<Rightarrow> ins_file \<Rightarrow> bool" where
  "ins_fits lib files (name, a, d) \<longleftrightarrow> files name = Some d \<and> name_fits lib name \<and> name \<noteq> [] \<and> 10 \<notin> set name \<and> 32 \<notin> set name \<and>
     d \<noteq> [] \<and> a + length d \<le> unat (image_start lib)"

abbreviation set_cfg :: "u8 list \<Rightarrow> 'd machine \<Rightarrow> 'd machine" where
  "set_cfg b s \<equiv> s\<lparr>bufs := (bufs s)(CfgBuf := b)\<rparr>"

lemma store_cfg:
  "bufs s CfgBuf = a @ y # b \<Longrightarrow> i = length a \<Longrightarrow> store (Buf CfgBuf i) [z] s = Some (Ret (), set_cfg (a @ z # b) s)"
  using splice_one [of a z y b] by simp

lemma load_cfg: "bufs s CfgBuf = a @ y # b \<Longrightarrow> i = length a \<Longrightarrow> load_u8 (Buf CfgBuf i) s = Some (Ret y, s)"
  by (simp add: load_u8_def bnd_def ret_def slice_def)

lemma strchr_cfg:
  "bufs s CfgBuf = a @ x @ c # b \<Longrightarrow> i = length a \<Longrightarrow> c \<notin> set x \<Longrightarrow> 0 \<notin> set x \<Longrightarrow>
     strchr_at c i s = Some (Ret (Some (i + length x)), s)"
  by (simp add: strchr_at_def strchr_found ret_def)

lemma strlen_cfg: "bufs s CfgBuf = a @ x @ 0 # b \<Longrightarrow> i = length a \<Longrightarrow> 0 \<notin> set x \<Longrightarrow> strlen_at i s = Some (Ret (length x), s)"
  by (simp add: strlen_at_def strlen_c_str ret_def)

lemma str_cfg: "bufs s CfgBuf = a @ x @ 0 # b \<Longrightarrow> i = length a \<Longrightarrow> 0 \<notin> set x \<Longrightarrow> str_at s i = x"
  by (simp add: str_at_def)

definition last_size :: "s32 \<Rightarrow> ins_file list \<Rightarrow> s32" where
  "last_size rc fs = (if fs = [] then rc else word_of_nat (length (snd (snd (last fs)))))"

lemma last_size_Cons: "last_size (word_of_nat (length d)) fs = last_size rc ((n, a, d) # fs)"
  by (simp add: last_size_def)

context tftp_server begin

lemma ins_line_loads:
  assumes "ins_fits lib files (name, a, d)" "unat (image_start lib) < 2 ^ 31"
    and "bufs s CfgBuf = pre @ ins_entry (name, a, d) @ rest" "length pre < cfgsize"
  shows "\<exists>j. ins_line lib cfgsize (length pre) rc fn s =
    Some (Ret (Some (length (pre @ ins_entry (name, a, d))), word_of_nat (length d), set_filename lib name fn),
      set_cfg (pre @ name @ 0 # dec a @ 0 # rest) (s\<lparr>mem := put_file (name, a, d) (mem s), io := j\<rparr>))"
proof -
  from assms(1) have f: "files name = Some d" "name_fits lib name" "name \<noteq> []" "10 \<notin> set name" "32 \<notin> set name" "0 \<notin> set name"
    "d \<noteq> []" "a + length d \<le> unat (image_start lib)"
    by (simp_all add: name_fits_def)
  obtain b name' where nm: "name = b # name'" using f(3) by (cases name) auto
  have a: "unat (word_of_nat a :: u64) = a" using f(8) assms(2) by (subst unat_of_nat) (simp add: take_bit_nat_eq_self)
  have len: "int (length d) \<le> sint (ucast (image_start lib - word_of_nat a) :: s32)"
    using f(8) assms(2) a by (intro sint_room) simp_all
  have "length d < 2 ^ 31" using f(8) assms(2) by linarith
  then have d: "0 < sint (word_of_nat (length d) :: s32)"
    using f(7) by (subst sint_small) (simp_all add: unat_of_nat take_bit_nat_eq_self)
  let ?i = "length pre" and ?line = "name @ 32 # dec a"
  let ?s1 = "set_cfg (pre @ ?line @ 0 # rest) s"
  let ?s2 = "set_cfg (pre @ name @ 0 # dec a @ 0 # rest) s"
  have 0: "length ?line \<noteq> 0" by simp
  have 1: "load_u8 (Buf CfgBuf ?i) s = Some (Ret b, s)" using assms(3) by (intro load_cfg [of _ pre]) (simp_all add: nm)
  have 2: "strchr_at 10 ?i s = Some (Ret (Some (?i + length ?line)), s)"
    using assms(3) f dec_bytes by (intro strchr_cfg [of _ pre _ _ rest]) auto
  have 3: "store (Buf CfgBuf (?i + length ?line)) [0] s = Some (Ret (), ?s1)"
    using store_cfg [of s "pre @ ?line" 10 rest "?i + length ?line" 0] assms(3) by simp
  have 4: "strlen_at ?i ?s1 = Some (Ret (length ?line), ?s1)"
    using f dec_bytes by (intro strlen_cfg [of _ pre _ rest]) auto
  have 5: "strchr_at 32 ?i ?s1 = Some (Ret (Some (?i + length name)), ?s1)"
    using f by (intro strchr_cfg [of _ pre _ _ "dec a @ 0 # rest"]) auto
  have 6: "store (Buf CfgBuf (?i + length name)) [0] ?s1 = Some (Ret (), ?s2)"
    using store_cfg [of ?s1 "pre @ name" 32 "dec a @ 0 # rest" "?i + length name" 0] by simp
  have 7: "str_at ?s2 ?i = name" using f by (intro str_cfg [of _ pre _ "dec a @ 0 # rest"]) simp_all
  have 8: "str_at ?s2 (?i + length name + 1) = dec a"
    using dec_bytes(1) by (intro str_cfg [of _ "pre @ name @ [0]" _ rest]) simp_all
  obtain j where j: "tftp_load lib (set_filename lib name fn) (word_of_nat a) (ucast (image_start lib - word_of_nat a)) ?s2 =
      Some (Ret (word_of_nat (length d), set_filename lib name fn), ?s2\<lparr>mem := mem_put (word_of_nat a) d (mem ?s2), io := j\<rparr>)"
    using tftp_load_file [of "set_filename lib name fn" d _ "word_of_nat a" ?s2] f len by auto
  have b: "b \<noteq> 0" using f(6) nm by auto
  have "ins_line lib cfgsize ?i rc fn s =
    Some (Ret (Some (length (pre @ ins_entry (name, a, d))), word_of_nat (length d), set_filename lib name fn),
      set_cfg (pre @ name @ 0 # dec a @ 0 # rest) (s\<lparr>mem := put_file (name, a, d) (mem s), io := j\<rparr>))"
    using b assms(4) d unfolding ins_line_def
    by (simp only: bnd_Ret 1 2 3 4 5 6 7 8 0 j option.case prod.case if_False simp_thms bnd_gets atol_dec) (simp add: ret_def)
  then show ?thesis by blast
qed

lemma ins_loop_files:
  assumes "\<forall>x\<in>set fs. ins_fits lib files x" "unat (image_start lib) < 2 ^ 31"
    and "bufs s CfgBuf = pre @ ins_lines fs @ 0 # rest" "length pre + length (ins_lines fs) \<le> cfgsize"
  shows "\<exists>fn' j b. ins_loop lib cfgsize (length pre) rc fn s =
    Some (Ret (last_size rc fs, fn'), set_cfg b (s\<lparr>mem := fold put_file fs (mem s), io := j\<rparr>))"
  using assms
proof (induction fs arbitrary: s pre rc fn)
  case Nil
  have "load_u8 (Buf CfgBuf (length pre)) s = Some (Ret 0, s)"
    using Nil by (intro load_cfg [of _ pre _ rest]) (simp_all add: ins_lines_def)
  then have "ins_line lib cfgsize (length pre) rc fn s = Some (Ret (None, rc, fn), s)"
    by (simp add: ins_line_def bnd_Ret ret_def)
  then have "ins_loop lib cfgsize (length pre) rc fn s =
      Some (Ret (last_size rc [], fn), set_cfg (bufs s CfgBuf) (s\<lparr>mem := fold put_file [] (mem s), io := io s\<rparr>))"
    by (subst ins_loop.simps) (simp add: bnd_Ret last_size_def ret_def)
  then show ?case by blast
next
  case (Cons x fs)
  obtain n a d where x: "x = (n, a, d)" by (cases x)
  let ?rest = "ins_lines fs @ 0 # rest" and ?pre = "pre @ n @ 0 # dec a @ [0]"
  have fit: "ins_fits lib files (n, a, d)" using Cons.prems(1) x by simp
  have buf: "bufs s CfgBuf = pre @ ins_entry (n, a, d) @ ?rest" using Cons.prems(3) x by (simp add: ins_lines_def)
  have "length pre < cfgsize" using Cons.prems(4) x by (simp add: ins_lines_def)
  from ins_line_loads [OF fit assms(2) buf this, of rc fn] obtain j where j: "ins_line lib cfgsize (length pre) rc fn s =
    Some (Ret (Some (length (pre @ ins_entry (n, a, d))), word_of_nat (length d), set_filename lib n fn),
      set_cfg (pre @ n @ 0 # dec a @ 0 # ?rest) (s\<lparr>mem := put_file (n, a, d) (mem s), io := j\<rparr>))"
    (is "_ = Some (_, ?t)") by blast
  have "length (pre @ ins_entry (n, a, d)) = length ?pre" by simp
  with j have run: "ins_loop lib cfgsize (length pre) rc fn s = ins_loop lib cfgsize (length ?pre) (word_of_nat (length d)) (set_filename lib n fn) ?t"
    by (subst ins_loop.simps) (simp add: bnd_Ret)
  have "bufs ?t CfgBuf = ?pre @ ins_lines fs @ 0 # rest" by simp
  moreover have "length ?pre + length (ins_lines fs) \<le> cfgsize" using Cons.prems(4) x by (simp add: ins_lines_def)
  moreover have "\<forall>x\<in>set fs. ins_fits lib files x" using Cons.prems(1) by simp
  ultimately obtain fn' j' b where "ins_loop lib cfgsize (length ?pre) (word_of_nat (length d)) (set_filename lib n fn) ?t =
      Some (Ret (last_size (word_of_nat (length d)) fs, fn'), set_cfg b (?t\<lparr>mem := fold put_file fs (mem ?t), io := j'\<rparr>))"
    using Cons.IH assms(2) by blast
  then have "ins_loop lib cfgsize (length pre) rc fn s =
    Some (Ret (last_size rc (x # fs), fn'), set_cfg b (s\<lparr>mem := fold put_file (x # fs) (mem s), io := j'\<rparr>))"
    unfolding run x by (simp add: last_size_Cons [of d fs rc n a])
  then show ?case by blast
qed

lemma handle_ins_cfg_files:
  assumes "\<forall>x\<in>set fs. ins_fits lib files x" "unat (image_start lib) < 2 ^ 31" "0 \<notin> set hdr" "10 \<notin> set hdr"
    and "bufs s CfgBuf = hdr @ 10 # ins_lines fs @ 0 # rest"
  shows "\<exists>fn' j b. handle_ins_cfg lib fn (length (hdr @ 10 # ins_lines fs)) s =
    Some (Ret (last_size (- 1) fs, fn'), set_cfg b (s\<lparr>mem := fold put_file fs (mem s), io := j\<rparr>))"
proof -
  let ?s1 = "set_cfg (hdr @ 0 # ins_lines fs @ 0 # rest) s" and ?n = "length (hdr @ 10 # ins_lines fs)"
  have 1: "strchr_at 10 0 s = Some (Ret (Some (length hdr)), s)"
    using assms by (subst strchr_cfg [of _ "[]" hdr 10 "ins_lines fs @ 0 # rest"]) simp_all
  have 2: "store (Buf CfgBuf (length hdr)) [0] s = Some (Ret (), ?s1)"
    using store_cfg [of s hdr 10 "ins_lines fs @ 0 # rest" "length hdr" 0] assms(5) by simp
  obtain j where 3: "printf lib (10 # lit ''Parsing .INS file:'' @ [10] @ lit '' %s'' @ [10]) [Str (str_at ?s1 2)] ?s1 = Some (Ret (), ?s1\<lparr>io := j\<rparr>)"
    using prints by blast
  have "bufs (?s1\<lparr>io := j\<rparr>) CfgBuf = (hdr @ [0]) @ ins_lines fs @ 0 # rest" by simp
  from ins_loop_files [OF assms(1, 2) this, of ?n "- 1" fn]
  obtain fn' j' b where 4: "ins_loop lib ?n (length (hdr @ [0])) (- 1) fn (?s1\<lparr>io := j\<rparr>) =
      Some (Ret (last_size (- 1) fs, fn'), set_cfg b (?s1\<lparr>mem := fold put_file fs (mem ?s1), io := j'\<rparr>))" by auto
  have "handle_ins_cfg lib fn ?n s = ins_loop lib ?n (length hdr + 1) (- 1) fn (?s1\<lparr>io := j\<rparr>)"
    unfolding handle_ins_cfg_def by (simp only: bnd_Ret 1 2 3 bnd_gets option.case)
  also have "\<dots> = Some (Ret (last_size (- 1) fs, fn'), set_cfg b (s\<lparr>mem := fold put_file fs (mem s), io := j'\<rparr>))"
    using 4 by simp
  finally show ?thesis by blast
qed

end

text \<open>
  C14: a .INS file makes \<open>handle_ins_cfg\<close> load its files in the order of its lines, each one whole at
  the address its line gives in decimal; the result is the size of the last one. The parser ends
  within the buffer, and nothing else in storage changes.
\<close>

theorem ins_file_loads:
  assumes "tftp_server lib files" "\<forall>x\<in>set fs. ins_fits lib files x" "unat (image_start lib) < 2 ^ 31" "fs \<noteq> []"
    and "0 \<notin> set hdr" "10 \<notin> set hdr" "bufs s CfgBuf = hdr @ 10 # ins_lines fs @ 0 # rest"
  shows "\<exists>fn' t. handle_ins_cfg lib fn (length (hdr @ 10 # ins_lines fs)) s =
      Some (Ret (word_of_nat (length (snd (snd (last fs)))), fn'), t) \<and> mem t = fold put_file fs (mem s)"
proof -
  from tftp_server.handle_ins_cfg_files [OF assms(1-3, 5-7), of fn]
  obtain fn' j b where "handle_ins_cfg lib fn (length (hdr @ 10 # ins_lines fs)) s =
    Some (Ret (last_size (- 1) fs, fn'), set_cfg b (s\<lparr>mem := fold put_file fs (mem s), io := j\<rparr>))" by blast
  then have "handle_ins_cfg lib fn (length (hdr @ 10 # ins_lines fs)) s =
    Some (Ret (word_of_nat (length (snd (snd (last fs)))), fn'), set_cfg b (s\<lparr>mem := fold put_file fs (mem s), io := j\<rparr>))"
    using assms(4) by (simp add: last_size_def)
  then show ?thesis by (intro exI conjI, assumption) simp
qed

definition ins_machine :: "nat machine" where
  "ins_machine = set_cfg (lit ''* demo'' @ 10 # lit ''vmlinuz 0'' @ 10 # lit ''initrd 8388608'' @ 10 # 0 # replicate 2015 0) (blank 0)"

theorem ins_file_loads_witness:
  "\<exists>fn' t. handle_ins_cfg (demo_server demo_file) (blank_filename_ip 256) 32 ins_machine = Some (Ret (5000, fn'), t) \<and>
     mem t = mem_put 0x800000 (replicate 5000 9) (mem_put 0 (replicate 0x12345 7) (\<lambda>_. 0))"
proof -
  let ?fs = "[(lit ''vmlinuz'', 0, replicate 0x12345 7), (lit ''initrd'', 8388608, replicate 5000 9)] :: ins_file list"
  have d: "dec 0 = lit ''0''" "dec 8388608 = lit ''8388608''" by (simp_all add: dec.simps lit_def)
  have n: "name_fits (demo_server demo_file) (lit ''vmlinuz'')" "name_fits (demo_server demo_file) (lit ''initrd'')"
    by (simp_all add: name_fits_def demo_server_def demo_lib_def lit_def)
  have f: "demo_file (lit ''vmlinuz'') = Some (replicate 0x12345 7)" "demo_file (lit ''initrd'') = Some (replicate 5000 9)"
    by (simp_all only: demo_file_def) (simp_all add: lit_def)
  have i: "unat (image_start (demo_server demo_file)) = 0x7e00000" by (simp add: demo_server_def demo_lib_def)
  have r: "replicate 5000 9 \<noteq> ([] :: u8 list)" "replicate 0x12345 7 \<noteq> ([] :: u8 list)" by (simp_all only: replicate_empty)
  have fits: "\<forall>x\<in>set ?fs. ins_fits (demo_server demo_file) demo_file x"
    unfolding list.set using n f i r by (simp add: lit_def)
  have l: "ins_lines ?fs = lit ''vmlinuz 0'' @ 10 # lit ''initrd 8388608'' @ [10]"
    by (simp add: ins_lines_def d) (simp add: lit_def)
  have b: "bufs ins_machine CfgBuf = lit ''* demo'' @ 10 # ins_lines ?fs @ 0 # replicate 2015 0"
    unfolding l ins_machine_def by simp
  have h: "0 \<notin> set (lit ''* demo'')" "10 \<notin> set (lit ''* demo'')" by (simp_all add: lit_def)
  have n32: "length (lit ''* demo'' @ 10 # ins_lines ?fs) = 32" unfolding l by simp
  have m: "mem ins_machine = (\<lambda>_. 0)" by (simp add: ins_machine_def blank_def)
  have last: "length (snd (snd (last ?fs))) = 5000" by (simp only: last_ConsR last_ConsL list.distinct not_False_eq_True snd_conv length_replicate)
  obtain fn' t where "handle_ins_cfg (demo_server demo_file) (blank_filename_ip 256) 32 ins_machine = Some (Ret (word_of_nat 5000, fn'), t)"
    "mem t = fold put_file ?fs (\<lambda>_. 0)"
    using ins_file_loads [OF demo_server.tftp_server_axioms fits _ _ h b, of "blank_filename_ip 256", unfolded n32 m last] i by auto
  then show ?thesis by auto
qed

end
