(* ===== verification/NetBoot.thy ===== *)
theory NetBoot
  imports NetIns
begin

text \<open>
  The network boot program as a whole: what \<open>net_init\<close> can report, and what the machine looks
  like when it is handed over. The library is bound by a contract only: its functions leave the
  extents of the state alone and do not reset the machine.
\<close>

section \<open>Results\<close>

definition results :: "('a \<Rightarrow> bool) \<Rightarrow> ('d, 'a) fw \<Rightarrow> bool" where
  "results P m \<longleftrightarrow> (\<forall>s x t. m s = Some (Ret x, t) \<longrightarrow> P x)"

named_theorems results \<open>what a computation can return\<close>

lemma results_ret [results]: "P x \<Longrightarrow> results P (ret x)"
  by (simp add: results_def)

lemma results_stop [results]: "results P (stop e)"
  by (simp add: results_def)

lemma results_bnd [results]: "(\<And>x. results P (f x)) \<Longrightarrow> results P (bnd m f)"
  by (fastforce simp: results_def bnd_eq_Ret)

lemma results_if [results]: "(b \<Longrightarrow> results P m) \<Longrightarrow> (\<not> b \<Longrightarrow> results P n) \<Longrightarrow> results P (if b then m else n)"
  by simp

lemma results_prod [results]: "(\<And>a b. x = (a, b) \<Longrightarrow> results P (f a b)) \<Longrightarrow> results P (case x of (a, b) \<Rightarrow> f a b)"
  by (cases x) simp

lemma results_option [results]:
  "(x = None \<Longrightarrow> results P m) \<Longrightarrow> (\<And>y. x = Some y \<Longrightarrow> results P (f y)) \<Longrightarrow> results P (case x of None \<Rightarrow> m | Some y \<Rightarrow> f y)"
  by (cases x) simp_all

lemma results_Let [results]: "(\<And>y. results P (f y)) \<Longrightarrow> results P (let y = x in f y)"
  by simp

text \<open>
  C35: \<open>net_init\<close> reports every failure with -101, \<open>Could not get IP address\<close>: the messages and
  results it has for a TFTP server that does not answer (-102) and for a missing server address
  (-107) are never reached, because they are behind the check that returns for all negative results
  of DHCP.
\<close>

theorem net_init_codes: "results (\<lambda>(rc, mac, fn_ip). rc = -101 \<or> 0 \<le> sint rc) (net_init hw lib)"
  unfolding net_init_def by (intro results) auto

section \<open>The hand-over\<close>

definition net_handed_over :: "exit \<Rightarrow> 'd machine \<Rightarrow> bool" where
  "net_handed_over e t \<longleftrightarrow> (e = NormalReset \<longrightarrow>
     mem_get (mem t) 0xb8 2 = to_be 2 (sch_id (blk_schid t)) \<and>
     mem_get (mem t) 0xba 2 = to_be 2 (sch_no (blk_schid t)) \<and>
     mem_get (mem t) 0xbc 4 = replicate 4 0 \<and> pbt (the_iplb t) \<noteq> IPL_QEMU_SCSI)"

definition net_low_core :: "'d hw \<Rightarrow> u64 \<Rightarrow> 'd machine \<Rightarrow> u64 \<Rightarrow> u8" where
  "net_low_core hw address s =
     (let m = mem_put 0xbc (to_be 4 (0 :: u32)) (mem_put 0xba (to_be 2 (sch_no (blk_schid s)))
                (mem_put 0xb8 (to_be 2 (sch_id (blk_schid s))) (mem s))) in
      if address \<noteq> 0 then mem_put 0 (to_be 8 (RESET_PSW hw)) m else m)"

lemma net_low_core_get:
  "mem_get (net_low_core hw a s) 0xb8 2 = to_be 2 (sch_id (blk_schid s))"
  "mem_get (net_low_core hw a s) 0xba 2 = to_be 2 (sch_no (blk_schid s))"
  "mem_get (net_low_core hw a s) 0xbc 4 = to_be 4 (0 :: u32)"
  unfolding net_low_core_def Let_def by (simp_all add: mem_get_put_disjoint mem_get_put_to_be)

lemma net_jump_eq:
  obtains p c j where "jump_linked (ret ()) hw a s = bnd (sclp_print hw [10]) (\<lambda>_. stop NormalReset)
     (s\<lparr>mem := net_low_core hw a s,
        the_iplb := (the_iplb s)\<lparr>pbt := if pbt (the_iplb s) = IPL_QEMU_SCSI then IPL_CCW else pbt (the_iplb s)\<rparr>,
        save_psw := p, ipl_continue := c, io := j\<rparr>)"
proof -
  have "\<exists>p c j. jump_linked (ret ()) hw a s = bnd (sclp_print hw [10]) (\<lambda>_. stop NormalReset)
     (s\<lparr>mem := net_low_core hw a s,
        the_iplb := (the_iplb s)\<lparr>pbt := if pbt (the_iplb s) = IPL_QEMU_SCSI then IPL_CCW else pbt (the_iplb s)\<rparr>,
        save_psw := p, ipl_continue := c, io := j\<rparr>)"
    unfolding jump_linked_def
    by (cases s) (auto simp: write_subsystem_identification_def net_low_core_def Let_def bnd_assoc bnd_dev_op read_reset_psw_def
      write_reset_psw_def)
  then show thesis by (elim exE) (rule that)
qed

lemma net_jump_hands_over: "outcome_ok net_handed_over (jump_linked (ret ()) hw a :: ('d, 'a) fw)"
proof (rule outcome_okI)
  fix s r t
  assume "jump_linked (ret ()) hw a s = Some (r, t)"
  moreover have "outcome_ok (\<lambda>_ _. True) (stop e)" for e by (simp add: outcome_ok_def)
  then have "outcome_ok (\<lambda>_ _. True) (jump_linked (ret ()) hw a)"
    unfolding jump_linked_def by (intro outcome; simp add: shape_def)
  ultimately show "shape t = shape s" using outcome_ok_shape by blast
next
  fix s e t
  assume run: "(jump_linked (ret ()) hw a :: ('d, 'a) fw) s = Some (Stop e, t)"
  obtain p c j where eq: "(jump_linked (ret ()) hw a :: ('d, 'a) fw) s = bnd (sclp_print hw [10]) (\<lambda>_. stop NormalReset)
     (s\<lparr>mem := net_low_core hw a s,
        the_iplb := (the_iplb s)\<lparr>pbt := if pbt (the_iplb s) = IPL_QEMU_SCSI then IPL_CCW else pbt (the_iplb s)\<rparr>,
        save_psw := p, ipl_continue := c, io := j\<rparr>)" (is "_ = bnd _ _ ?u")
    by (rule net_jump_eq)
  show "net_handed_over e t"
  proof (cases "e = NormalReset")
    case True
    from run [unfolded eq] have "sclp_print hw [10] ?u = Some (Ret (), t)"
    proof (cases rule: bnd_cases)
      case (stop x)
      have "outcome_ok (\<lambda>e _. e \<noteq> NormalReset) (sclp_print hw [10])" by (intro outcome)
      with stop True show ?thesis using outcome_ok_Stop by fastforce
    qed simp
    then obtain k where "t = ?u\<lparr>io := k\<rparr>" by (rule sclp_print_frame)
    then show ?thesis by (simp add: net_handed_over_def net_low_core_get to_be_zero)
  qed (simp add: net_handed_over_def)
qed


section \<open>The whole program\<close>

locale slof_contract = exit_contract X for X :: "exit \<Rightarrow> 'd machine \<Rightarrow> bool" +
  fixes lib :: "('d, 'e) slof"
  assumes console_ok: "outcome_ok X (printf lib f as)" "outcome_ok X (puts lib m)"
    and memory_ok: "outcome_ok X (malloc lib n)" "outcome_ok X (mfree lib p)"
    and system_ok: "outcome_ok X (srand lib x)" "outcome_ok X (stsi lib r0 r1 p)"
    and address_ok: "outcome_ok X (set_mac_address lib mac)" "outcome_ok X (set_ipv4_address lib ip)"
      "outcome_ok X (set_ipv6_address lib fd)" "outcome_ok X (get_ipv6_address lib)" "outcome_ok X (ipv6_to_str lib ip6)"
    and dhcp_ok: "outcome_ok X (dhcpv4_generate_transaction_id lib)" "outcome_ok X (dhcpv6_generate_transaction_id lib)"
      "outcome_ok X (dhcpv4 lib fn)" "outcome_ok X (dhcpv6 lib fn)" "outcome_ok X (dhcp_send_release lib fd)"
    and files_ok: "outcome_ok X (tftp lib fn a len r)" "outcome_ok X (tftp_get_error_info lib fn e rc)"
      "outcome_ok X (pxelinux_load_parse_cfg lib fn mac uuid r cfg n k)" "outcome_ok X (pxelinux_parse_cfg lib cfg n k)"
begin

lemmas lib_outcome [outcome] = console_ok memory_ok system_ok address_ok dhcp_ok files_ok

lemma give_buffers_outcome [outcome]: "outcome_ok X (give_buffers hw lib n)"
  by (induction n) (simp_all only: give_buffers.simps, (intro outcome | assumption)+)

lemma virtio_net_init_outcome [outcome]: "outcome_ok X (virtio_net_init hw lib)"
  unfolding virtio_net_init_def by (intro outcome; simp add: shape_def)

lemma dhcp_loop_outcome [outcome]: "outcome_ok X (dhcp_loop lib r n fn)"
  unfolding dhcp_round_def
  by (induction n arbitrary: fn) (simp_all only: dhcp_loop.simps dhcp_round_def, (intro outcome | assumption)+)

lemma net_init_outcome [outcome]: "outcome_ok X (net_init hw lib)" "outcome_ok X (net_release lib fn)"
  unfolding net_init_def dhcp_def seed_rng_def net_release_def by (intro outcome)+

lemma tftp_load_outcome [outcome]: "outcome_ok X (tftp_load lib fn a len)"
  unfolding tftp_load_def by (intro outcome)

lemma boot_entry_outcome [outcome]: "outcome_ok X (boot_entry lib fn es k)"
  unfolding boot_entry_def load_kernel_with_initrd_def Let_def by (intro outcome)

lemma net_try_pxelinux_cfg_outcome [outcome]: "outcome_ok X (net_try_pxelinux_cfg lib mac fn)"
  unfolding net_try_pxelinux_cfg_def get_uuid_def by (intro outcome)

lemma ins_line_outcome [outcome]: "outcome_ok X (ins_line lib csize i rc fn)"
  unfolding ins_line_def strchr_at_def strlen_at_def by (intro outcome)

lemma ins_loop_outcome [outcome]: "outcome_ok X (ins_loop lib csize i rc fn)"
proof (rule outcome_ok_loopI)
  fix s y
  assume "ins_loop lib csize i rc fn s = Some y"
  then have "lib = lib \<longrightarrow> outcome_at X s y"
  proof (rule ins_loop.raw_induct [rotated, of _ _ _ _ _ _ _ "\<lambda>l csize i rc fn s y. l = lib \<longrightarrow> outcome_at X s y"], goal_cases)
    case (1 rec l csize i rc fn s y)
    have rec: "outcome_ok X (rec lib csize i rc fn)" for csize i rc fn
      by (rule outcome_ok_loopI) (drule 1(1), simp)
    show ?case
    proof
      assume "l = lib"
      show "outcome_at X s y" using 1(2) unfolding \<open>l = lib\<close> by (rule outcome_bnd_at) (intro outcome rec)+
    qed
  qed
  then show "outcome_at X s y" by simp
qed

lemma direct_load_outcome [outcome]: "outcome_ok X (net_try_direct_tftp_load lib fn)"
  unfolding net_try_direct_tftp_load_def handle_ins_cfg_def strchr_at_def Let_def by (intro outcome refl)

lemma find_net_loop_outcome [outcome]: "outcome_ok X (find_net_loop hw dev_no i n)"
  by (induction n arbitrary: i) (simp_all only: find_net_loop.simps, (intro outcome | assumption | simp add: shape_def)+)

lemma find_in_sets_outcome [outcome]: "outcome_ok X (find_in_sets hw sss)"
  by (induction sss) (simp_all only: find_in_sets.simps find_net_dev_def, (intro outcome | assumption | simp add: shape_def)+)

lemma net_virtio_setup_outcome [outcome]: "outcome_ok X (net_virtio_setup hw)"
  unfolding net_virtio_setup_def find_net_dev_def by (intro outcome; simp add: shape_def)

lemma net_main_outcome:
  assumes "\<And>a. outcome_ok X (jump_linked (ret ()) hw a :: ('d, unit) fw)"
  shows "outcome_ok X (net_main hw lib)"
  unfolding net_main_def low_kernel_linked_def read_reset_psw_def by (intro outcome assms)

end


lemma outcome_ok_mono: "outcome_ok X m \<Longrightarrow> (\<And>e t. X e t \<Longrightarrow> Y e t) \<Longrightarrow> outcome_ok Y m"
  by (auto simp: outcome_ok_def)

lemma slof_contract_mono:
  assumes "slof_contract X lib" "exit_contract Y" "\<And>e t. X e t \<Longrightarrow> Y e t"
  shows "slof_contract Y lib"
proof -
  note c = slof_contract.lib_outcome [OF assms(1), THEN outcome_ok_mono, of Y]
  show ?thesis
    by (intro slof_contract.intro slof_contract_axioms.intro assms(2)) (rule c, erule assms(3))+
qed

interpretation demo_contract: slof_contract "\<lambda>e _. e \<noteq> NormalReset" demo_lib
  by unfold_locales (simp_all add: demo_lib_def outcome_ret)

text \<open>
  C18: the network boot program, with any library that does not reset the machine itself, on
  whatever hardware: it changes the extent of no buffer or ring table, and when it hands the machine
  over, the low core names the subchannel of the network device.
\<close>

theorem net_hands_over:
  assumes "slof_contract (\<lambda>e _. e \<noteq> NormalReset) lib"
  shows "outcome_ok net_handed_over (net_main hw lib)"
proof -
  have "exit_contract net_handed_over" by unfold_locales (simp_all add: net_handed_over_def)
  with assms have "slof_contract net_handed_over lib" by (rule slof_contract_mono) (simp add: net_handed_over_def)
  then show ?thesis using net_jump_hands_over by (rule slof_contract.net_main_outcome)
qed

theorem net_hands_over_witness: "outcome_ok net_handed_over (net_main no_hw demo_lib)"
  by (rule net_hands_over [OF demo_contract.slof_contract_axioms])

end
