(* ===== verification/Spec2Isabelle.thy ===== *)
theory Spec2Isabelle
  imports DiskBoot IsoBoot HostRecords Pvh NetBoot
begin

text \<open>
  A model of the C firmware of this repository: the boot loader of s390 guests, its network boot
  program (both in \<open>src/ACVM/pc-bios/s390-ccw\<close>) and the option ROMs that boot Linux and PVH
  kernels on PC guests (\<open>src/ACVM/pc-bios/optionrom\<close>).

  \<^bold>\<open>How the programs are modelled.\<close> A function of the boot loader is a computation
  \<open>('d, 'a) fw\<close> (theory \<open>Machine\<close>): from a state it runs for ever (\<open>None\<close>), returns (\<open>Ret\<close>), or
  stops (\<open>Stop\<close>): \<open>Halt\<close> is \<open>panic\<close> or a failed assertion, \<open>NormalReset\<close> the reset that hands
  the machine over, \<open>Bad\<close> an access outside an object, a division by zero or another step that C
  leaves undefined. The state \<open>'d machine\<close> holds the global variables and static buffers of the
  program, the guest's absolute storage, and in \<open>io\<close> the blocks shared with devices and the state
  \<open>'d\<close> of the hardware. The hardware is the parameter \<open>'d hw\<close>: every inline assembly instruction
  and every routine of \<open>start.S\<close> is a function of that record, with no law attached. A pointer is
  symbolic (\<open>Phys\<close>, \<open>Buf\<close>, \<open>Scr\<close>). Integers are machine words of their C width; \<open>int\<close> is a
  32-bit word read as two's complement, which wraps, as the firmware is built with \<open>-fwrapv\<close>.
  Multi-byte fields are big-endian byte strings. The option ROMs have a state of their own, \<open>pcs\<close>
  (theory \<open>FwCfg\<close>), little-endian storage and the ports of the record \<open>pc\<close>.

  \<^bold>\<open>The boot loader, theory by theory.\<close>
  \<^item> \<open>Libc\<close>: \<open>libc.h\<close>, \<open>libc.c\<close>, \<open>bswap.h\<close>, the number printing of \<open>s390-ccw.h\<close>. Lemmas:
    \<open>uitoa\<close> and \<open>atoui\<close> against decimal digits, \<open>memcmp\<close> as an order, byte swaps.
  \<^item> \<open>Outcome\<close>: the locale \<open>exit_contract\<close>, one rule per operation: no run changes the extent of a
    buffer, and a run that stops keeps a promise about the state it stops in.
  \<^item> \<open>Sclp\<close>: \<open>sclp.c\<close>, the console. Lemmas: what \<open>write\<close> hands to the service processor, its
    overflow, what a failed assertion does.
  \<^item> \<open>Cio\<close>: \<open>cio.c\<close>, channel programs, error reports and retries; when \<open>do_cio\<close> returns.
  \<^item> \<open>Virtio\<close>: \<open>virtio.c\<close>, rings and device set-up. \<open>VirtioHost\<close>: the locale \<open>ring_host\<close>, a host
    that serves a chain of descriptors when it is notified, and the proof that \<open>virtio_run\<close> then
    refines one call of that service.
  \<^item> \<open>VirtioScsi\<close>, \<open>VirtioBlk\<close>: the two drivers. \<open>BlockSource\<close> and \<open>ScsiSource\<close>: reading blocks
    through either driver, down to the descriptors, delivers the bytes of the disk; the locale
    \<open>block_source\<close> is what the boot maps rely on.
  \<^item> \<open>Menu\<close>: \<open>menu.c\<close>, the prompt and the menus. \<open>key_step\<close> refines a line of text.
  \<^item> \<open>Jump\<close>: \<open>jump2ipl.c\<close> and the low-core writers of \<open>main.c\<close>: the hand-over, what it leaves in
    low core, and where the machine continues after the reset.
  \<^item> \<open>BootRecords\<close>: the packed structures of \<open>bootmap.h\<close>; the boot maps are read by member offsets
    computed from them.
  \<^item> \<open>Eckd\<close>, \<open>ZiplScsi\<close>, \<open>Iso\<close>, \<open>Bootmap\<close>: \<open>bootmap.c\<close>, the boot maps of ECKD and SCSI disks, El
    Torito, and the choice between them. \<open>Sections\<close> and \<open>ZiplSections\<close>: what a boot map says, as a
    relation on the contents of a disk, and that the loader leaves exactly that in storage.
  \<^item> \<open>Image\<close>, \<open>ZiplBoot\<close>, \<open>EckdBoot\<close>, \<open>DiskBoot\<close>, \<open>IsoBoot\<close>: whole boots, for any device that keeps
    the contract \<open>block_source\<close>. What a medium says is a specification of its own (\<open>scsi_boot_map\<close>,
    \<open>eckd_disk\<close> and \<open>eckd_boot_map\<close>, \<open>iso_tree\<close> and \<open>iso_chosen\<close>,
    made of inductive relations on the bytes of its blocks); \<open>zipl_load\<close>, \<open>ipl_eckd\<close> and \<open>ipl_iso_el_torito\<close> then end with the reset into that
    system, its segments at their addresses, and the low core of the hand-over (\<open>booted\<close>,
    \<open>image_started\<close>). The search for the size of an El Torito image is a depth-first search of the
    directory tree (\<open>dir_lookup\<close>); a LOADPARM that names an unused entry of a program table boots
    block 0. In \<open>DiskBoot\<close> \<open>zipl_load\<close> itself finds out what the disk is: the attempts to boot it in
    another way give up and the ECKD disk is booted.
  \<^item> \<open>Dasd\<close>: \<open>dasd-ipl.c\<close>, a passed-through DASD and its channel programs.
  \<^item> \<open>MainProg\<close>: \<open>main.c\<close>; whatever the hardware does, the hand-over is well formed.

  \<^item> \<open>BitFields\<close>, \<open>HostRecords\<close>: C's bit fields, and the layouts of the structures shared with the
    channel subsystem, the service processor, the hypervisor and the devices; the members the
    model reads and writes are where C puts them.

  \<^bold>\<open>The network boot program.\<close>
  \<^item> \<open>VirtioNet\<close>: \<open>virtio-net.c\<close>. The receive ring as a step relation of driver and device, with the
    invariant that each of the 64 buffers has one owner; sending returns when the host answers.
    The record \<open>slof\<close> holds the functions of the C and network libraries (SLOF) the program links,
    which are not in the repository.
  \<^item> \<open>NetMain\<close>: \<open>netmain.c\<close>. The static variables \<open>mac\<close> and \<open>dest_timer\<close> are arguments and results.
  \<^item> \<open>NetLoad\<close>, \<open>NetIns\<close>: with a TFTP server (locale \<open>tftp_server\<close>), where kernel, ramdisk and
    command line of a pxelinux entry, and the files of a .INS file, end up.
  \<^item> \<open>NetBoot\<close>: the results of \<open>net_init\<close>, and the hand-over of the whole program for any library
    that does not reset the machine (locale \<open>slof_contract\<close>).

  \<^bold>\<open>The option ROMs.\<close>
  \<^item> \<open>FwCfg\<close>: \<open>optrom.h\<close>, \<open>optrom_fw_cfg.h\<close>; the locale \<open>fw_cfg_host\<close> is QEMU's device. Reading by
    DMA and by port deliver the same bytes.
  \<^item> \<open>LinuxBoot\<close>: \<open>linuxboot_dma.c\<close>; the boot image in storage and the entry into the setup code.
  \<^item> \<open>Pvh\<close>: \<open>pvh_main.c\<close>; the root pointer, the start information, the entry point.

  \<^bold>\<open>Loops.\<close> Loops with a bound in the code are structural recursions. The others are
  \<open>partial_function (option)\<close>: no fuel is chosen, and not returning is the value \<open>None\<close>, so that a
  theorem which names the result of a run also says that it ends. Where the code may run for ever
  (a subchannel that stays busy, a boot map that leads back to itself) that is a theorem. The
  receive ring counts modulo $2^{16}$ as the code does. The theorems on files ask that the program
  lies below $2^{31}$, as it does: lengths are passed as \<open>int\<close>.

  \<^bold>\<open>Not modelled.\<close> The assembly: \<open>start.S\<close> (its routines are parameters or outcomes), the option ROM
  headers, \<open>linuxboot.S\<close>, \<open>multiboot.S\<close>, \<open>kvmvapic.S\<close>, \<open>pvh.S\<close> and the macros of \<open>optionrom.h\<close>,
  which only assembly uses. Fields of the channel and virtio structures that no code reads or sets are
  in the layouts of \<open>HostRecords\<close> but not in the records of the state.
  Debug output that is compiled out. Host services are modelled only as contracts: what QEMU, the
  service processor and a TFTP server do is a parameter. The repository's other languages are
  outside this development.
\<close>

end
